(* ===== verification/CqlLexer.thy ===== *)
theory CqlLexer
  imports Base
begin

text \<open>
  The CQL lexer of the SRU server: class \<open>CQLshlex\<close> of
  \<open>rero_ils/modules/sru/cql_parser.py\<close>, a subclass of the standard library's \<open>shlex\<close>, and
  \<open>strip_chars\<close> of \<open>rero_ils/modules/utils.py\<close>, which cleans the query first.

  The lexer reads its input one character at a time through a state machine. Its state is the
  record \<open>lexer\<close>: the unread input, the machine's state (\<open>None\<close> after the end of the input,
  a blank between tokens, \<open>a\<close> in a word, an angle bracket, a slash, or the quote that opened a
  quoted string), the token under construction, the pending character \<open>next_token\<close> and the
  tokens pushed back. \<open>lineno\<close> is written and never read, and left out. The query string kept
  for the diagnostics is the same in all of them, and left out of the errors.

  \<open>shlex.__init__\<close> assigns \<open>quotes\<close> and \<open>commenters\<close> on the instance, so the values the
  class body of \<open>CQLshlex\<close> gives them are never seen: both quotes open a quoted string, and
  the hash sign starts a comment.
\<close>

section \<open>Errors\<close>

text \<open>
  What parsing raises: a \<open>Diagnostic\<close> (code, message, details) or Python's own
  \<open>IndexError\<close>. \<open>NoReturn\<close> is not an exception: it stands for a loop that never ends.
\<close>

datatype cql_error =
    Diagnostic nat string string
  | IndexError
  | NoReturn

abbreviation malformed :: "string \<Rightarrow> cql_error" where
  "malformed details \<equiv> Diagnostic 10 ''Malformed Query'' details"

section \<open>The lexer's state\<close>

definition quotes :: string where
  "quotes = [CHR 0x27, quote_char]"

definition commenters :: string where
  "commenters = ''#''"

definition whitespace :: string where
  "whitespace = [CHR '' '', CHR 0x09, CHR 0x0D, newline]"

definition wordchars :: string where
  "wordchars =
     ''abcdfeghijklmnopqrstuvwxyzABCDEFGHIJKLMNOPQRSTUVWXYZ0123456789_''
     @ ''!@#$%^&*-+{}[];,.?|~'' @ [CHR 0x60] @ '':'' @ [backslash]"

record lexer =
  instream :: string
  lx_state :: "char option"
  lx_token :: string
  lx_next :: string
  pushback :: "string list"

definition init_lexer :: "string \<Rightarrow> lexer" where
  "init_lexer s =
     \<lparr>instream = s, lx_state = Some (CHR '' ''), lx_token = [], lx_next = [], pushback = []\<rparr>"

text \<open>\<open>instream.readline()\<close>: drop the rest of the line, its newline included.\<close>

definition readline :: "lexer \<Rightarrow> lexer" where
  "readline lx = lx\<lparr>instream := drop 1 (dropWhile (\<lambda>c. c \<noteq> newline) (instream lx))\<rparr>"

section \<open>The four states of the machine\<close>

text \<open>
  Each handler gets the character just read, \<open>None\<close> at the end of the input, and returns
  whether a token is complete.
\<close>

definition read_token_space :: "char option \<Rightarrow> lexer \<Rightarrow> bool \<times> lexer" where
  "read_token_space nextchar lx =
     (case nextchar of
        None \<Rightarrow> (True, lx\<lparr>lx_state := None\<rparr>)
      | Some c \<Rightarrow>
          if c \<in> set whitespace then (lx_token lx \<noteq> [], lx)
          else if c \<in> set commenters then (False, readline lx)
          else if c \<in> set wordchars then (False, lx\<lparr>lx_token := [c], lx_state := Some (CHR ''a'')\<rparr>)
          else if c \<in> set quotes then (False, lx\<lparr>lx_token := [c], lx_state := Some c\<rparr>)
          else if c \<in> {CHR ''<'', CHR ''>''}
            then (False, lx\<lparr>lx_token := [c], lx_state := Some (CHR ''<'')\<rparr>)
          else (True, lx\<lparr>lx_token := [c]\<rparr>))"

definition read_token_angle :: "char option \<Rightarrow> lexer \<Rightarrow> bool \<times> lexer" where
  "read_token_angle nextchar lx =
     (case nextchar of
        None \<Rightarrow> (True, lx\<lparr>lx_state := None\<rparr>)
      | Some c \<Rightarrow>
          if lx_token lx = ''>'' \<and> c = CHR ''=''
            then (True, lx\<lparr>lx_token := lx_token lx @ [c], lx_state := Some (CHR '' '')\<rparr>)
          else if lx_token lx = ''<'' \<and> c \<in> {CHR ''>'', CHR ''=''}
            then (True, lx\<lparr>lx_token := lx_token lx @ [c], lx_state := Some (CHR '' '')\<rparr>)
          else if c = CHR ''/''
            then (True, lx\<lparr>lx_state := Some (CHR ''/''), lx_next := ''/''\<rparr>)
          else if c \<in> set wordchars
            then (True, lx\<lparr>lx_state := Some (CHR ''a''), lx_next := [c]\<rparr>)
          else if c \<in> set quotes
            then (True, lx\<lparr>lx_state := Some c, lx_next := [c]\<rparr>)
          else (True, lx\<lparr>lx_state := Some (CHR '' '')\<rparr>))"

text \<open>\<open>token[-2]\<close> raises an \<open>IndexError\<close> on a shorter token; \<open>token[:-1]\<close> does not.\<close>

definition read_token_quote :: "char \<Rightarrow> char option \<Rightarrow> lexer \<Rightarrow> cql_error + bool \<times> lexer" where
  "read_token_quote st nextchar lx =
     (case nextchar of
        None \<Rightarrow> Inl (malformed (butlast (lx_token lx)))
      | Some c \<Rightarrow>
          let t = lx_token lx @ [c]; lx' = lx\<lparr>lx_token := t\<rparr> in
          if c = st then
            (if length t < 2 then Inl IndexError
             else if t ! (length t - 2) \<noteq> backslash
               then Inr (True, lx'\<lparr>lx_state := Some (CHR '' '')\<rparr>)
             else Inr (False, lx'))
          else Inr (False, lx'))"

definition read_token_word :: "char option \<Rightarrow> lexer \<Rightarrow> bool \<times> lexer" where
  "read_token_word nextchar lx =
     (case nextchar of
        None \<Rightarrow> (True, lx\<lparr>lx_state := None\<rparr>)
      | Some c \<Rightarrow>
          if c \<in> set whitespace then (lx_token lx \<noteq> [], lx\<lparr>lx_state := Some (CHR '' '')\<rparr>)
          else if c \<in> set commenters then (False, readline lx)
          else if ord c > 126 \<or> c \<in> set wordchars \<or> c \<in> set quotes
            then (False, lx\<lparr>lx_token := lx_token lx @ [c]\<rparr>)
          else if c \<in> {CHR ''>'', CHR ''<''}
            then (True, lx\<lparr>lx_next := [c], lx_state := Some (CHR ''<'')\<rparr>)
          else (lx_token lx \<noteq> [],
                lx\<lparr>pushback := [c] # pushback lx, lx_state := Some (CHR '' '')\<rparr>))"

section \<open>Reading a token\<close>

text \<open>One turn of the loop of \<open>read_token\<close> after the pending character was looked at: read
  one character and run the handler of the current state.\<close>

definition lexer_turn :: "lexer \<Rightarrow> cql_error + bool \<times> lexer" where
  "lexer_turn lx0 =
     (let nextchar = (case instream lx0 of [] \<Rightarrow> None | c # cs \<Rightarrow> Some c);
          lx = lx0\<lparr>instream := tl (instream lx0)\<rparr> in
      case lx_state lx of
        None \<Rightarrow> Inr (True, lx\<lparr>lx_token := []\<rparr>)
      | Some st \<Rightarrow>
          if st = CHR '' '' then Inr (read_token_space nextchar lx)
          else if st = CHR ''<'' then Inr (read_token_angle nextchar lx)
          else if st \<in> set quotes then read_token_quote st nextchar lx
          else if st = CHR ''a'' then Inr (read_token_word nextchar lx)
          else Inr (False, lx))"

definition take_pending :: "lexer \<Rightarrow> lexer" where
  "take_pending lx = (if lx_next lx = [] then lx else lx\<lparr>lx_token := lx_next lx, lx_next := []\<rparr>)"

text \<open>
  The loop. It goes round with what the turn left. A turn that completes no token at the end of
  the input would be repeated for ever on the same state: \<open>NoReturn\<close>.
\<close>

lemma instream_readline: "length (instream (readline lx)) \<le> length (instream lx)"
  using length_dropWhile_le [of "\<lambda>c. c \<noteq> newline" "instream lx"] by (simp add: readline_def)

lemma turn_consumes:
  assumes "lexer_turn lx = Inr (False, lx')" and "instream lx \<noteq> []"
  shows "length (instream lx') < length (instream lx)"
proof -
  obtain c cs where cs: "instream lx = c # cs"
    using assms(2) by (cases "instream lx") auto
  have "length (instream (readline (lx\<lparr>instream := cs\<rparr>))) \<le> length cs"
    using instream_readline [of "lx\<lparr>instream := cs\<rparr>"] by simp
  with assms(1) cs show ?thesis
    by (auto simp: lexer_turn_def Let_def read_token_space_def read_token_angle_def
        read_token_quote_def read_token_word_def split: option.splits if_splits)
qed

lemma instream_take_pending [simp]: "instream (take_pending lx) = instream lx"
  by (simp add: take_pending_def)

function read_loop :: "lexer \<Rightarrow> cql_error + lexer" where
  "read_loop lx =
     (let lx0 = take_pending lx in
      if lx_next lx = ''/'' then Inr (lx0\<lparr>lx_state := Some (CHR '' '')\<rparr>)
      else case lexer_turn lx0 of
          Inl e \<Rightarrow> Inl e
        | Inr (fin, lx') \<Rightarrow>
            if fin then Inr lx'
            else if instream lx = [] then Inl NoReturn
            else read_loop lx')"
  by pat_completeness auto
termination
  by (relation "measure (\<lambda>lx. length (instream lx))")
    (auto, metis instream_take_pending turn_consumes)

declare read_loop.simps [simp del]

text \<open>\<open>read_token\<close>: run the loop, return the token and clear it. \<open>get_token\<close> of \<open>shlex\<close>
  looks at the tokens pushed back first; no other input is ever pushed on the lexer.\<close>

definition read_token :: "lexer \<Rightarrow> cql_error + string \<times> lexer" where
  "read_token lx = and_then (read_loop lx) (\<lambda>lx'. Inr (lx_token lx', lx'\<lparr>lx_token := []\<rparr>))"

definition get_token :: "lexer \<Rightarrow> cql_error + string \<times> lexer" where
  "get_token lx =
     (case pushback lx of
        t # ts \<Rightarrow> Inr (t, lx\<lparr>pushback := ts\<rparr>)
      | [] \<Rightarrow> read_token lx)"

text \<open>\<open>strip_chars\<close> with its default \<open>extra\<close>: drop the control characters but tab,
  newline and carriage return.\<close>

definition strip_chars :: "string \<Rightarrow> string" where
  "strip_chars s =
     filter (\<lambda>c. \<not> (ord c \<le> 8 \<or> ord c \<in> {11, 12} \<or> (14 \<le> ord c \<and> ord c \<le> 31) \<or> ord c = 127)) s"

section \<open>Tokens consume the input\<close>

text \<open>What is left to read: the input, the tokens pushed back and the pending characters.\<close>

definition lsize :: "lexer \<Rightarrow> nat" where
  "lsize lx = length (instream lx) + length (pushback lx) + length (lx_next lx) + length (lx_token lx)"

lemma lsize_take_pending: "lsize (take_pending lx) \<le> lsize lx"
  by (simp add: take_pending_def lsize_def)

lemma lx_next_take_pending [simp]: "lx_next (take_pending lx) = []"
  by (simp add: take_pending_def)

lemma lsize_turn:
  assumes "lexer_turn lx = Inr (fin, lx')" and "lx_next lx = []"
  shows "lsize lx' \<le> lsize lx"
proof -
  have "length (instream (readline (lx\<lparr>instream := cs\<rparr>))) \<le> length cs" for cs
    using instream_readline [of "lx\<lparr>instream := cs\<rparr>"] by simp
  then have "lsize (readline (lx\<lparr>instream := cs\<rparr>)) \<le> lsize (lx\<lparr>instream := cs\<rparr>)" for cs
    by (simp add: lsize_def) (simp add: readline_def)
  note rl = this
  show ?thesis
  proof (cases "instream lx")
    case Nil
    with assms show ?thesis
      by (auto simp: lexer_turn_def Let_def read_token_space_def read_token_angle_def
          read_token_quote_def read_token_word_def lsize_def split: option.splits if_splits)
  next
    case (Cons c cs)
    have "lsize (lx\<lparr>instream := cs\<rparr>) \<le> lsize lx"
      using Cons by (simp add: lsize_def)
    with rl [of cs] have "lsize (readline (lx\<lparr>instream := cs\<rparr>)) \<le> lsize lx"
      by simp
    with assms Cons show ?thesis
      by (auto simp: lexer_turn_def Let_def read_token_space_def read_token_angle_def
          read_token_quote_def read_token_word_def lsize_def split: option.splits if_splits)
  qed
qed

lemma lsize_read_loop: "read_loop lx = Inr lx' \<Longrightarrow> lsize lx' \<le> lsize lx"
proof (induction lx rule: read_loop.induct)
  case (1 lx)
  let ?lx0 = "take_pending lx"
  show ?case
  proof (cases "lx_next lx = ''/''")
    case True
    with "1.prems" have "lx' = ?lx0\<lparr>lx_state := Some (CHR '' '')\<rparr>"
      by (simp add: read_loop.simps [of lx] Let_def)
    with lsize_take_pending [of lx] show ?thesis by (simp add: lsize_def)
  next
    case False
    with "1.prems" obtain fin lx1 where t: "lexer_turn ?lx0 = Inr (fin, lx1)"
      by (auto simp: read_loop.simps [of lx] Let_def split: sum.splits)
    have le: "lsize lx1 \<le> lsize lx"
      using lsize_turn [OF t] lsize_take_pending [of lx] by simp
    show ?thesis
    proof (cases fin)
      case True
      with False t "1.prems" le show ?thesis
        by (simp add: read_loop.simps [of lx] Let_def)
    next
      case nfin: False
      with False t "1.prems" have ne: "instream lx \<noteq> []" and r: "read_loop lx1 = Inr lx'"
        by (auto simp: read_loop.simps [of lx] Let_def split: if_splits)
      from "1.IH" [OF refl False t refl] nfin ne r le show ?thesis by simp
    qed
  qed
qed

lemma lsize_get_token:
  assumes "get_token lx = Inr (t, lx')"
  shows "lsize lx' + (if t = [] then 0 else 1) \<le> lsize lx"
proof (cases "pushback lx")
  case Nil
  with assms obtain lx1 where r: "read_loop lx = Inr lx1" and t: "t = lx_token lx1"
    and lx': "lx' = lx1\<lparr>lx_token := []\<rparr>"
    by (auto simp: get_token_def read_token_def and_then_eq_Inr)
  have "lsize lx' + length t = lsize lx1"
    by (simp add: t lx' lsize_def)
  with lsize_read_loop [OF r] show ?thesis
    by (cases t) auto
next
  case (Cons p ps)
  with assms show ?thesis by (auto simp: get_token_def lsize_def)
qed

section \<open>The lexer always answers\<close>

fun is_diagnostic :: "cql_error \<Rightarrow> bool" where
  "is_diagnostic (Diagnostic c m d) = True"
| "is_diagnostic _ = False"

text \<open>The states the machine can be in: in a quoted string the opening quote is at hand, and the
  state slash comes with its pending slash.\<close>

definition lx_ok :: "lexer \<Rightarrow> bool" where
  "lx_ok lx \<longleftrightarrow>
     (case lx_state lx of
        None \<Rightarrow> True
      | Some c \<Rightarrow> c = CHR '' '' \<or> c = CHR ''<'' \<or> c = CHR ''a''
          \<or> (c \<in> set quotes \<and> (lx_token lx \<noteq> [] \<or> lx_next lx \<noteq> []))
          \<or> (c = CHR ''/'' \<and> lx_next lx = ''/''))"

definition lx_idle :: "lexer \<Rightarrow> bool" where
  "lx_idle lx \<longleftrightarrow> lx_ok (lx\<lparr>lx_token := []\<rparr>)"

lemma lx_ok_readline [simp]: "lx_ok (readline lx) = lx_ok lx"
  by (simp add: lx_ok_def readline_def split: option.split)

lemma lx_ok_take_pending:
  "lx_ok lx \<Longrightarrow> lx_next lx \<noteq> ''/'' \<Longrightarrow> lx_ok (take_pending lx)"
  by (auto simp: lx_ok_def take_pending_def split: option.splits)

lemma lx_ok_init: "lx_ok (init_lexer s)"
  by (simp add: lx_ok_def init_lexer_def)

lemma lx_ok_mono: "lx_ok lx \<Longrightarrow> lx_state lx = Some c \<Longrightarrow> c \<in> set quotes \<Longrightarrow> lx_next lx = [] \<Longrightarrow> lx_token lx \<noteq> []"
  by (auto simp: lx_ok_def quotes_def)

lemma turn_ok:
  assumes "lx_ok lx" and "lx_next lx = []"
  shows "outcome is_diagnostic
           (\<lambda>(fin, lx'). if fin then lx_idle lx' else lx_ok lx' \<and> instream lx \<noteq> []) (lexer_turn lx)"
proof (cases "lx_state lx")
  case None
  then show ?thesis by (simp add: lexer_turn_def Let_def lx_idle_def lx_ok_def)
next
  case (Some st)
  let ?next = "case instream lx of [] \<Rightarrow> None | c # cs \<Rightarrow> Some c"
  let ?lx = "lx\<lparr>instream := tl (instream lx)\<rparr>"
  from assms Some consider "st = CHR '' ''" | "st = CHR ''<''" | "st = CHR ''a''"
    | "st \<in> set quotes" "lx_token lx \<noteq> []"
    by (auto simp: lx_ok_def)
  then show ?thesis
  proof cases
    case 1
    with Some have "lexer_turn lx = Inr (read_token_space ?next ?lx)"
      by (simp add: lexer_turn_def Let_def)
    with 1 Some assms show ?thesis
      by (auto simp: read_token_space_def lx_idle_def lx_ok_def readline_def split: list.splits)
  next
    case 2
    with Some have "lexer_turn lx = Inr (read_token_angle ?next ?lx)"
      by (simp add: lexer_turn_def Let_def)
    with 2 Some assms show ?thesis
      by (auto simp: read_token_angle_def lx_idle_def lx_ok_def split: list.splits)
  next
    case 3
    with Some have "lexer_turn lx = Inr (read_token_word ?next ?lx)"
      by (simp add: lexer_turn_def Let_def quotes_def)
    with 3 Some assms show ?thesis
      by (auto simp: read_token_word_def lx_idle_def lx_ok_def readline_def split: list.splits)
  next
    case 4
    then have "st \<noteq> CHR '' ''" "st \<noteq> CHR ''<''" by (auto simp: quotes_def)
    with 4 Some have "lexer_turn lx = read_token_quote st ?next ?lx"
      by (simp add: lexer_turn_def Let_def)
    with 4 Some assms show ?thesis
      by (auto simp: read_token_quote_def Let_def lx_idle_def lx_ok_def split: list.splits)
  qed
qed

lemma read_loop_ok: "lx_ok lx \<Longrightarrow> outcome is_diagnostic lx_idle (read_loop lx)"
proof (induction lx rule: read_loop.induct)
  case (1 lx)
  let ?lx0 = "take_pending lx"
  show ?case
  proof (cases "lx_next lx = ''/''")
    case True
    then show ?thesis
      by (simp add: read_loop.simps [of lx] Let_def lx_idle_def lx_ok_def)
  next
    case False
    have t: "outcome is_diagnostic
        (\<lambda>(fin, lx'). if fin then lx_idle lx' else lx_ok lx' \<and> instream lx \<noteq> []) (lexer_turn ?lx0)"
      using turn_ok [OF lx_ok_take_pending [OF "1.prems" False] lx_next_take_pending]
      unfolding instream_take_pending .
    show ?thesis
    proof (cases "lexer_turn ?lx0")
      case (Inl e)
      with t False show ?thesis by (simp add: read_loop.simps [of lx] Let_def)
    next
      case (Inr r)
      obtain fin lx1 where r: "r = (fin, lx1)" by (cases r)
      with t Inr False "1.IH" [OF refl False] show ?thesis
        by (auto simp: read_loop.simps [of lx] Let_def split: if_splits)
    qed
  qed
qed

lemma get_token_ok:
  assumes "lx_idle lx" and "lx_token lx = []"
  shows "outcome is_diagnostic (\<lambda>(t, lx'). lx_idle lx' \<and> lx_token lx' = []) (get_token lx)"
proof (cases "pushback lx")
  case Nil
  from assms have "lx_ok lx" by (cases lx) (simp add: lx_idle_def)
  from read_loop_ok [OF this] Nil show ?thesis
    by (cases "read_loop lx") (auto simp: get_token_def read_token_def lx_idle_def)
next
  case (Cons p ps)
  with assms show ?thesis
    by (auto simp: get_token_def lx_idle_def lx_ok_def split: option.splits)
qed

end
