(* ===== verification/CqlParser.thy ===== *)
theory CqlParser
  imports CqlLexer
begin

text \<open>
  The CQL parser of the SRU server: the classes of the query tree and \<open>CQLParser\<close> in
  \<open>rero_ils/modules/sru/cql_parser.py\<close>.

  The objects of the tree are the datatype \<open>query\<close>: a \<open>SearchClause\<close> (index, relation, term)
  or a \<open>Triple\<close> (left operand, boolean, right operand), each with the prefixes declared on it
  and its sort keys. The \<open>parent\<close> pointers are the position in the tree: what the code looks up
  through them is passed down by the functions of the next theory. The parser's state is the
  current token, the token after it, and the lexer. The method \<open>query\<close> and its helper
  \<open>sub_query\<close> call each other through every parenthesis, so they carry fuel; the other loops
  end because each turn consumes a token, which \<open>psize\<close> measures.
\<close>

section \<open>The objects of the query tree\<close>

definition ORDER :: "string list" where
  "ORDER = [''='', ''>'', ''>='', ''<'', ''<='', ''<>'']"

definition BOOLEANS :: "string list" where
  "BOOLEANS = [''and'', ''or'', ''not'', ''prox'']"

definition SORT_WORD :: string where
  "SORT_WORD = ''sortby''"

definition SERVER_CHOICE_RELATION :: string where
  "SERVER_CHOICE_RELATION = ''=''"

definition SERVER_CHOICE_INDEX :: string where
  "SERVER_CHOICE_INDEX = ''cql.serverchoice''"

record prefixed =
  pref :: string
  pvalue :: string

text \<open>\<open>PrefixedObject.__str__\<close>.\<close>

definition str_prefixed :: "prefixed \<Rightarrow> string" where
  "str_prefixed p = (if pref p \<noteq> [] then pref p @ ''.'' @ pvalue p else pvalue p)"

text \<open>\<open>PrefixedObject.split_value\<close>; the prefix stays the class default without a dot.\<close>

definition split_value :: "string \<Rightarrow> string \<Rightarrow> cql_error + prefixed" where
  "split_value dflt v =
     (if count_list v (CHR ''.'') > 1
        then Inl (malformed (''Multiple '' @ [quote_char] @ ''.'' @ [quote_char] @ '' characters: '' @ v))
      else if v \<noteq> [] \<and> hd v = CHR ''.'' then Inl (malformed ''Null indexset'')
      else if CHR ''.'' \<in> set v
        then Inr \<lparr>pref = lower (takeWhile (\<lambda>c. c \<noteq> CHR ''.'') v),
                   pvalue = lower (tl (dropWhile (\<lambda>c. c \<noteq> CHR ''.'') v))\<rparr>
      else Inr \<lparr>pref = dflt, pvalue = v\<rparr>)"

text \<open>\<open>v[1:-1]\<close>, and the test for a value between double quotes; one quote alone passes it.\<close>

definition unquote :: "string \<Rightarrow> string" where
  "unquote v = butlast (tl v)"

definition is_quoted :: "string \<Rightarrow> bool" where
  "is_quoted v \<longleftrightarrow> v \<noteq> [] \<and> hd v = quote_char \<and> last v = quote_char"

text \<open>\<open>PrefixedObject.__init__\<close> with \<open>ERROR_ON_QUOTED_IDENTIFIER = False\<close>.\<close>

definition mk_prefixed :: "string \<Rightarrow> string \<Rightarrow> cql_error + prefixed" where
  "mk_prefixed dflt val =
     (let v = lower val in split_value dflt (if is_quoted v then unquote v else v))"

datatype modifier = ModifierClause (mtype: prefixed) (mcomp: string) (mvalue: string)

datatype index = Index (ix: prefixed) (ix_modifiers: "modifier list")

datatype relation = Relation (rl: prefixed) (rl_modifiers: "modifier list")

datatype boolean = Boolean (bool_value: string) (bool_modifiers: "modifier list")

datatype query =
    SearchClause index relation string (prefixes: "(string, string) dict") (sort_keys: "index list")
  | Triple query boolean query (prefixes: "(string, string) dict") (sort_keys: "index list")

text \<open>\<open>ModifierClause.__init__\<close>: the type is a prefixed object with the default prefix cql.\<close>

definition mk_modifier :: "string \<Rightarrow> string \<Rightarrow> string \<Rightarrow> cql_error + modifier" where
  "mk_modifier ty cmp val =
     and_then (mk_prefixed ''cql'' ty) (\<lambda>t. Inr (ModifierClause t cmp val))"

text \<open>\<open>Index.__init__\<close>.\<close>

definition mk_index :: "string \<Rightarrow> cql_error + index" where
  "mk_index val =
     and_then (mk_prefixed [] val) (\<lambda>p.
       if pvalue p \<in> set ([''('', '')''] @ ORDER)
         then Inl (Diagnostic 10 ''Invalid characters in index name'' (pvalue p))
       else Inr (Index p []))"

text \<open>\<open>Relation.__init__\<close>.\<close>

definition mk_relation :: "string \<Rightarrow> cql_error + relation" where
  "mk_relation val = and_then (mk_prefixed ''cql'' val) (\<lambda>p. Inr (Relation p []))"

text \<open>The loop of \<open>Term.__init__\<close> over the backslashes of a term: each must come before one of
  the four characters it can escape, and an escaped backslash is skipped.\<close>

fun good_backslashes :: "string \<Rightarrow> bool" where
  "good_backslashes [] = True"
| "good_backslashes [c] = (c \<noteq> backslash)"
| "good_backslashes (c # d # cs) =
     (if c = backslash
      then d \<in> {CHR ''?'', backslash, CHR ''*'', CHR ''^''}
           \<and> (if d = backslash then good_backslashes cs else good_backslashes (d # cs))
      else good_backslashes (d # cs))"

text \<open>\<open>Term.__init__\<close> with \<open>ERROR_ON_EMPTY_TERM = False\<close>; the term object is its string.\<close>

definition mk_term :: "string \<Rightarrow> cql_error + string" where
  "mk_term v =
     (if v = [] then Inr v
      else if v \<in> set [''>='', ''<='', ''>'', ''<'', ''<>'', ''/'', ''='']
        then Inl (Diagnostic 25 ''Malformed Query'' v)
      else if list_all (\<lambda>c. c = CHR ''^'') v
        then Inl (Diagnostic 32 ''Malformed Query'' (''Only anchoring character(s) in term: '' @ v))
      else if \<not> good_backslashes v then Inl (Diagnostic 26 ''Malformed Query'' v)
      else Inr v)"

text \<open>\<open>PrefixableObject.add_prefix\<close> with \<open>ERROR_ON_DUPLICATE_PREFIX = False\<close>, for each entry
  of a dict of declarations.\<close>

definition add_prefix :: "string \<Rightarrow> string \<Rightarrow> query \<Rightarrow> query" where
  "add_prefix name identifier q =
     (case q of
        SearchClause i r t ps ks \<Rightarrow> SearchClause i r t (dict_set name identifier ps) ks
      | Triple l b r ps ks \<Rightarrow> Triple l b r (dict_set name identifier ps) ks)"

definition add_prefixes :: "(string, string) dict \<Rightarrow> query \<Rightarrow> query" where
  "add_prefixes prefs q = fold (\<lambda>(k, v). add_prefix k v) prefs q"

definition set_sort_keys :: "index list \<Rightarrow> query \<Rightarrow> query" where
  "set_sort_keys ks q =
     (case q of
        SearchClause i r t ps _ \<Rightarrow> SearchClause i r t ps ks
      | Triple l b r ps _ \<Rightarrow> Triple l b r ps ks)"

section \<open>The parser's state\<close>

record parser =
  current :: string
  upcoming :: string
  p_lexer :: lexer

definition fetch_token :: "parser \<Rightarrow> cql_error + parser" where
  "fetch_token ps =
     and_then (get_token (p_lexer ps)) (\<lambda>(t, lx).
       Inr \<lparr>current = upcoming ps, upcoming = t, p_lexer = lx\<rparr>)"

definition is_sort :: "string \<Rightarrow> bool" where
  "is_sort token \<longleftrightarrow> lower token = SORT_WORD"

definition is_boolean :: "string \<Rightarrow> bool" where
  "is_boolean token \<longleftrightarrow> lower token \<in> set BOOLEANS"

text \<open>\<open>CQLParser.__init__\<close>: two tokens are fetched, the first becomes current.\<close>

definition init_parser :: "lexer \<Rightarrow> cql_error + parser" where
  "init_parser lx =
     and_then (fetch_token \<lparr>current = [], upcoming = [], p_lexer = lx\<rparr>) fetch_token"

text \<open>Tokens and characters left.\<close>

definition psize :: "parser \<Rightarrow> nat" where
  "psize ps = lsize (p_lexer ps) + (if current ps = [] then 0 else 1)
              + (if upcoming ps = [] then 0 else 1)"

lemma psize_fetch: "fetch_token ps = Inr ps' \<Longrightarrow> psize ps' + (if current ps = [] then 0 else 1) \<le> psize ps"
  by (auto simp: fetch_token_def and_then_eq_Inr psize_def dest!: lsize_get_token split: if_splits)

lemma psize_fetch_le: "fetch_token ps = Inr ps' \<Longrightarrow> psize ps' \<le> psize ps"
  using psize_fetch [of ps ps'] by simp

lemma psize_fetch_less: "fetch_token ps = Inr ps' \<Longrightarrow> current ps \<noteq> [] \<Longrightarrow> psize ps' < psize ps"
  using psize_fetch [of ps ps'] by simp

section \<open>Prefix declarations\<close>

text \<open>The inner loop of \<open>prefixes\<close>: a URI may hold slashes, which are tokens of their own.\<close>

function uri_loop :: "string list \<Rightarrow> parser \<Rightarrow> cql_error + string list \<times> parser" where
  "uri_loop identifier ps =
     (if identifier \<noteq> [] \<and> (current ps = ''/'' \<or> last identifier = ''/'')
      then and_then (fetch_token ps) (\<lambda>ps'. uri_loop (identifier @ [current ps]) ps')
      else Inr (identifier, ps))"
  by pat_completeness auto
termination
proof (relation "measure (\<lambda>(identifier, ps). 2 * psize ps + (if last identifier = ''/'' then 1 else 0))",
    goal_cases)
  case (2 ident ps ps')
  then show ?case
    using psize_fetch_le [of ps ps'] psize_fetch_less [of ps ps'] by (cases "current ps = []") auto
qed simp

declare uri_loop.simps [simp del]

lemma psize_uri_loop: "uri_loop ident ps = Inr (ident', ps') \<Longrightarrow> psize ps' \<le> psize ps"
proof (induction ident ps rule: uri_loop.induct)
  case (1 ident ps)
  show ?case
  proof (cases "ident \<noteq> [] \<and> (current ps = ''/'' \<or> last ident = ''/'')")
    case True
    with "1.prems" obtain ps1 where f: "fetch_token ps = Inr ps1"
      and u: "uri_loop (ident @ [current ps]) ps1 = Inr (ident', ps')"
      by (auto simp: uri_loop.simps [of ident ps] and_then_eq_Inr)
    from "1.IH" [OF True f u] psize_fetch_le [OF f] show ?thesis by simp
  next
    case False
    with "1.prems" show ?thesis by (auto simp: uri_loop.simps [of ident ps])
  qed
qed

text \<open>One declaration, from the \<open>>\<close> on: its (lower-case) name and its URI.\<close>

definition prefix_decl :: "parser \<Rightarrow> cql_error + (string \<times> string) \<times> parser" where
  "prefix_decl ps =
     and_then (fetch_token ps) (\<lambda>ps1.
     and_then (if upcoming ps1 = ''=''
               then and_then (fetch_token ps1) (\<lambda>ps2.
                    and_then (fetch_token ps2) (\<lambda>ps3. Inr (current ps1, ps3)))
               else Inr ([], ps1)) (\<lambda>(name, ps4).
     and_then (fetch_token ps4) (\<lambda>ps5.
     and_then (uri_loop [current ps4] ps5) (\<lambda>(identifier, ps6).
       let uri = concat identifier;
           uri' = (if length uri > 1 \<and> is_quoted uri then unquote uri else uri)
       in Inr ((lower name, uri'), ps6)))))"

lemma psize_prefix_decl:
  assumes "prefix_decl ps = Inr (kv, ps')" and "current ps = ''>''"
  shows "psize ps' < psize ps"
proof -
  from assms(1) obtain ps1 name ps4 ps5 ident where f1: "fetch_token ps = Inr ps1"
    and m: "(if upcoming ps1 = ''=''
               then and_then (fetch_token ps1) (\<lambda>ps2.
                    and_then (fetch_token ps2) (\<lambda>ps3. Inr (current ps1, ps3)))
               else Inr ([], ps1)) = Inr (name, ps4)"
    and f5: "fetch_token ps4 = Inr ps5" and u: "uri_loop [current ps4] ps5 = Inr (ident, ps')"
    by (auto simp: prefix_decl_def and_then_eq_Inr Let_def)
  from m have "psize ps4 \<le> psize ps1"
    by (force simp: and_then_eq_Inr dest: psize_fetch_le split: if_splits)
  with psize_fetch_less [OF f1] assms(2) psize_fetch_le [OF f5] psize_uri_loop [OF u]
  show ?thesis by simp
qed

function parse_prefixes :: "(string, string) dict \<Rightarrow> parser \<Rightarrow> cql_error + (string, string) dict \<times> parser" where
  "parse_prefixes prefs ps =
     (if current ps = ''>''
      then and_then (prefix_decl ps) (\<lambda>(kv, ps'). parse_prefixes (dict_set (fst kv) (snd kv) prefs) ps')
      else Inr (prefs, ps))"
  by pat_completeness auto
termination
  by (relation "measure (\<lambda>(prefs, ps). psize ps)") (auto dest: psize_prefix_decl)

declare parse_prefixes.simps [simp del]

lemma psize_parse_prefixes:
  "parse_prefixes prefs ps = Inr (prefs', ps') \<Longrightarrow>
   psize ps' + (if current ps = ''>'' then 1 else 0) \<le> psize ps"
proof (induction prefs ps rule: parse_prefixes.induct)
  case (1 prefs ps)
  show ?case
  proof (cases "current ps = ''>''")
    case True
    with "1.prems" obtain kv ps1 where d: "prefix_decl ps = Inr (kv, ps1)"
      and p: "parse_prefixes (dict_set (fst kv) (snd kv) prefs) ps1 = Inr (prefs', ps')"
      by (auto simp: parse_prefixes.simps [of prefs ps] and_then_eq_Inr)
    from "1.IH" [OF True d refl p] psize_prefix_decl [OF d True] True show ?thesis
      by (simp split: if_splits)
  next
    case False
    with "1.prems" show ?thesis by (auto simp: parse_prefixes.simps [of prefs ps])
  qed
qed

section \<open>Modifiers, relations, booleans and sort keys\<close>

text \<open>One modifier clause, from its slash on.\<close>

definition one_modifier :: "parser \<Rightarrow> cql_error + modifier \<times> parser" where
  "one_modifier ps =
     and_then (fetch_token ps) (\<lambda>ps1.
     let md = lower (current ps1) in
     if md = ''/'' then Inl (malformed ''Null modifier'')
     else and_then (fetch_token ps1) (\<lambda>ps2.
       if current ps2 \<in> set ORDER
       then and_then (fetch_token ps2) (\<lambda>ps3.
            and_then (fetch_token ps3) (\<lambda>ps4.
            and_then (mk_modifier md (current ps2) (current ps3)) (\<lambda>m. Inr (m, ps4))))
       else and_then (mk_modifier md [] []) (\<lambda>m. Inr (m, ps2))))"

lemma psize_one_modifier:
  assumes "one_modifier ps = Inr (m, ps')" and "current ps = ''/''"
  shows "psize ps' < psize ps"
proof -
  from assms(1) obtain ps1 ps2 where f1: "fetch_token ps = Inr ps1" and f2: "fetch_token ps1 = Inr ps2"
    and r: "ps' = ps2 \<or> (\<exists>ps3. fetch_token ps2 = Inr ps3 \<and> fetch_token ps3 = Inr ps')"
    unfolding one_modifier_def Let_def and_then_eq_Inr
    by (auto simp: and_then_eq_Inr split: if_splits)
  from r have "psize ps' \<le> psize ps2"
    by (auto dest!: psize_fetch_le)
  with psize_fetch_less [OF f1] psize_fetch_le [OF f2] assms(2) show ?thesis by simp
qed

function parse_modifiers :: "modifier list \<Rightarrow> parser \<Rightarrow> cql_error + modifier list \<times> parser" where
  "parse_modifiers mods ps =
     (if current ps = ''/''
      then and_then (one_modifier ps) (\<lambda>(m, ps'). parse_modifiers (mods @ [m]) ps')
      else Inr (mods, ps))"
  by pat_completeness auto
termination
  by (relation "measure (\<lambda>(mods, ps). psize ps)") (auto dest: psize_one_modifier)

declare parse_modifiers.simps [simp del]

lemma psize_parse_modifiers: "parse_modifiers mods ps = Inr (mods', ps') \<Longrightarrow> psize ps' \<le> psize ps"
proof (induction mods ps rule: parse_modifiers.induct)
  case (1 mods ps)
  show ?case
  proof (cases "current ps = ''/''")
    case True
    with "1.prems" obtain m ps1 where o: "one_modifier ps = Inr (m, ps1)"
      and p: "parse_modifiers (mods @ [m]) ps1 = Inr (mods', ps')"
      by (auto simp: parse_modifiers.simps [of mods ps] and_then_eq_Inr)
    from "1.IH" [OF True o refl p] psize_one_modifier [OF o True] show ?thesis by simp
  next
    case False
    with "1.prems" show ?thesis by (auto simp: parse_modifiers.simps [of mods ps])
  qed
qed

definition parse_boolean :: "parser \<Rightarrow> cql_error + boolean \<times> parser" where
  "parse_boolean ps =
     (let b = lower (current ps) in
      if b \<notin> set BOOLEANS then Inl (malformed b)
      else and_then (fetch_token ps) (\<lambda>ps1.
           and_then (parse_modifiers [] ps1) (\<lambda>(mods, ps2). Inr (Boolean b mods, ps2))))"

definition parse_relation :: "parser \<Rightarrow> cql_error + relation \<times> parser" where
  "parse_relation ps =
     and_then (mk_relation (lower (current ps))) (\<lambda>r.
     and_then (fetch_token ps) (\<lambda>ps1.
     and_then (parse_modifiers [] ps1) (\<lambda>(mods, ps2). Inr (Relation (rl r) mods, ps2))))"

text \<open>The loop of \<open>sort_query\<close>: sort keys up to a closing parenthesis or the end.\<close>

definition one_sort_key :: "parser \<Rightarrow> cql_error + index \<times> parser" where
  "one_sort_key ps =
     and_then (mk_index (current ps)) (\<lambda>i.
     and_then (fetch_token ps) (\<lambda>ps1.
     and_then (parse_modifiers [] ps1) (\<lambda>(mods, ps2). Inr (Index (ix i) mods, ps2))))"

lemma psize_one_sort_key:
  "one_sort_key ps = Inr (i, ps') \<Longrightarrow> current ps \<noteq> [] \<Longrightarrow> psize ps' < psize ps"
  by (force simp: one_sort_key_def and_then_eq_Inr dest: psize_fetch_less psize_parse_modifiers)

function sort_loop :: "index list \<Rightarrow> parser \<Rightarrow> cql_error + index list \<times> parser" where
  "sort_loop keys ps =
     (if current ps \<noteq> [] \<and> current ps \<noteq> '')''
      then and_then (one_sort_key ps) (\<lambda>(i, ps'). sort_loop (keys @ [i]) ps')
      else Inr (keys, ps))"
  by pat_completeness auto
termination
  by (relation "measure (\<lambda>(keys, ps). psize ps)") (auto dest: psize_one_sort_key)

declare sort_loop.simps [simp del]

lemma psize_sort_loop: "sort_loop keys ps = Inr (keys', ps') \<Longrightarrow> psize ps' \<le> psize ps"
proof (induction keys ps rule: sort_loop.induct)
  case (1 keys ps)
  show ?case
  proof (cases "current ps \<noteq> [] \<and> current ps \<noteq> '')''")
    case True
    with "1.prems" obtain i ps1 where o: "one_sort_key ps = Inr (i, ps1)"
      and p: "sort_loop (keys @ [i]) ps1 = Inr (keys', ps')"
      by (auto simp: sort_loop.simps [of keys ps] and_then_eq_Inr)
    from "1.IH" [OF True o refl p] psize_one_sort_key [OF o] True show ?thesis by simp
  next
    case False
    with "1.prems" show ?thesis by (auto simp: sort_loop.simps [of keys ps] split: if_splits)
  qed
qed

definition sort_query :: "parser \<Rightarrow> cql_error + index list \<times> parser" where
  "sort_query ps =
     and_then (fetch_token ps) (\<lambda>ps1.
       if current ps1 = [] then Inl (Diagnostic 10 ''No sort keys supplied'' [])
       else sort_loop [] ps1)"

section \<open>Clauses\<close>

definition parse_index_clause :: "parser \<Rightarrow> cql_error + query \<times> parser" where
  "parse_index_clause ps =
     and_then (mk_index (current ps)) (\<lambda>i.
     and_then (fetch_token ps) (\<lambda>ps1.
     and_then (parse_relation ps1) (\<lambda>(r, ps2).
     if current ps2 = [] then Inl (malformed ''Expected Term, got end of query.'')
     else and_then (mk_term (current ps2)) (\<lambda>t.
          and_then (fetch_token ps2) (\<lambda>ps3. Inr (SearchClause i r t [] [], ps3))))))"

definition server_choice_clause :: "parser \<Rightarrow> cql_error + query \<times> parser" where
  "server_choice_clause ps =
     and_then (mk_index SERVER_CHOICE_INDEX) (\<lambda>i.
     and_then (mk_relation SERVER_CHOICE_RELATION) (\<lambda>r.
     and_then (mk_term (current ps)) (\<lambda>t.
     and_then (fetch_token ps) (\<lambda>ps'. Inr (SearchClause i r t [] [], ps')))))"

function parse_clause :: "parser \<Rightarrow> cql_error + query \<times> parser" where
  "parse_clause ps =
     (let is_bool = is_boolean (upcoming ps); sort = is_sort (upcoming ps) in
      if \<not> sort \<and> \<not> is_bool \<and> upcoming ps \<notin> set ['')'', ''('', []]
        then parse_index_clause ps
      else if current ps \<noteq> [] \<and> (is_bool \<or> sort \<or> upcoming ps \<in> set ['')'', []])
        then server_choice_clause ps
      else if current ps = ''>''
        then and_then (parse_prefixes [] ps) (\<lambda>(prefs, ps').
             and_then (parse_clause ps') (\<lambda>(q, ps''). Inr (add_prefixes prefs q, ps'')))
      else Inl (malformed (''Expected Boolean or Relation but got: '' @ current ps)))"
  by pat_completeness auto
termination
  by (relation "measure psize") (auto dest!: psize_parse_prefixes)

declare parse_clause.simps [simp del]

lemma psize_parse_relation: "parse_relation ps = Inr (r, ps') \<Longrightarrow> psize ps' \<le> psize ps"
  by (force simp: parse_relation_def and_then_eq_Inr dest: psize_fetch_le psize_parse_modifiers)

lemma psize_index_clause: "parse_index_clause ps = Inr (q, ps') \<Longrightarrow> psize ps' \<le> psize ps"
  by (force simp: parse_index_clause_def and_then_eq_Inr
      dest: psize_fetch_le psize_parse_relation split: if_splits)

lemma psize_server_choice_clause: "server_choice_clause ps = Inr (q, ps') \<Longrightarrow> psize ps' \<le> psize ps"
  by (force simp: server_choice_clause_def and_then_eq_Inr dest: psize_fetch_le)

lemma psize_parse_clause: "parse_clause ps = Inr (q, ps') \<Longrightarrow> psize ps' \<le> psize ps"
proof (induction ps arbitrary: q ps' rule: parse_clause.induct)
  case (1 ps)
  let ?b = "is_boolean (upcoming ps)" and ?s = "is_sort (upcoming ps)"
  let ?c1 = "\<not> ?s \<and> \<not> ?b \<and> upcoming ps \<notin> set ['')'', ''('', []]"
  let ?c2 = "current ps \<noteq> [] \<and> (?b \<or> ?s \<or> upcoming ps \<in> set ['')'', []])"
  consider (index) "?c1" | (choice) "\<not> ?c1" "?c2" | (pref) "\<not> ?c1" "\<not> ?c2" "current ps = ''>''"
    | (err) "\<not> ?c1" "\<not> ?c2" "current ps \<noteq> ''>''"
    by argo
  then show ?case
  proof cases
    case index
    with "1.prems" have "parse_index_clause ps = Inr (q, ps')"
      by (simp add: parse_clause.simps [of ps])
    then show ?thesis by (rule psize_index_clause)
  next
    case choice
    with "1.prems" have "server_choice_clause ps = Inr (q, ps')"
      by (simp only: parse_clause.simps [of ps] Let_def if_False if_True simp_thms)
    then show ?thesis by (rule psize_server_choice_clause)
  next
    case pref
    with "1.prems" obtain prefs ps1 q1 ps2 where p: "parse_prefixes [] ps = Inr (prefs, ps1)"
      and c: "parse_clause ps1 = Inr (q1, ps2)" and e: "ps' = ps2"
      by (simp only: parse_clause.simps [of ps] Let_def if_False if_True and_then_eq_Inr)
        (auto simp: and_then_eq_Inr)
    from "1.IH" [OF refl refl pref p refl c] psize_parse_prefixes [OF p] e show ?thesis by simp
  next
    case err
    with "1.prems" show ?thesis
      by (simp only: parse_clause.simps [of ps] Let_def if_False) simp
  qed
qed

section \<open>Queries\<close>

text \<open>
  \<open>query\<close> (with its loop over the booleans and sort clauses that follow) and \<open>sub_query\<close>.
  The fuel bounds the depth of the calls: \<open>query_fuel\<close> is always enough, as
  \<open>parse_returns\<close> below says.
\<close>

fun query_f :: "nat \<Rightarrow> parser \<Rightarrow> cql_error + query \<times> parser"
and query_loop :: "nat \<Rightarrow> query \<Rightarrow> parser \<Rightarrow> cql_error + query \<times> parser"
and sub_query_f :: "nat \<Rightarrow> parser \<Rightarrow> cql_error + query \<times> parser" where
  "query_f 0 ps = Inl NoReturn"
| "query_f (Suc n) ps =
     and_then (parse_prefixes [] ps) (\<lambda>(prefs, ps1).
     and_then (sub_query_f n ps1) (\<lambda>(left, ps2).
     and_then (query_loop n left ps2) (\<lambda>(left', ps3).
     Inr (add_prefixes prefs left', ps3))))"
| "query_loop 0 left ps = Inl NoReturn"
| "query_loop (Suc n) left ps =
     (if current ps = [] then Inr (left, ps)
      else if is_boolean (current ps) then
        and_then (parse_boolean ps) (\<lambda>(b, ps1).
        and_then (sub_query_f n ps1) (\<lambda>(right, ps2).
        query_loop n (Triple left b right [] []) ps2))
      else if is_sort (current ps) then
        and_then (sort_query ps) (\<lambda>(keys, ps1). query_loop n (set_sort_keys keys left) ps1)
      else Inr (left, ps))"
| "sub_query_f 0 ps = Inl NoReturn"
| "sub_query_f (Suc n) ps =
     (if current ps = ''('' then
        and_then (fetch_token ps) (\<lambda>ps1.
        and_then (query_f n ps1) (\<lambda>(q, ps2).
        if current ps2 = '')'' then and_then (fetch_token ps2) (\<lambda>ps3. Inr (q, ps3))
        else Inl (malformed (current ps2))))
      else and_then (parse_prefixes [] ps) (\<lambda>(prefs, ps1).
        if prefs \<noteq> [] then
          and_then (query_f n ps1) (\<lambda>(q, ps2). Inr (add_prefixes prefs q, ps2))
        else parse_clause ps1))"

definition query_fuel :: "parser \<Rightarrow> nat" where
  "query_fuel ps = 2 * psize ps + 3"

definition parse_query :: "parser \<Rightarrow> cql_error + query \<times> parser" where
  "parse_query ps = query_f (query_fuel ps) ps"

text \<open>\<open>repr\<close> of a string, for the message on tokens left over.\<close>

definition hex_digit :: "nat \<Rightarrow> char" where
  "hex_digit n = ''0123456789abcdef'' ! n"

definition repr_char :: "char \<Rightarrow> char \<Rightarrow> string" where
  "repr_char q c =
     (if c = q \<or> c = backslash then [backslash, c]
      else if c = newline then [backslash, CHR ''n'']
      else if ord c = 13 then [backslash, CHR ''r'']
      else if ord c = 9 then [backslash, CHR ''t'']
      else if ord c < 32 \<or> (127 \<le> ord c \<and> ord c \<le> 160) \<or> ord c = 173
        then [backslash, CHR ''x'', hex_digit (ord c div 16), hex_digit (ord c mod 16)]
      else [c])"

definition py_repr :: "string \<Rightarrow> string" where
  "py_repr s =
     (let q = (if CHR 0x27 \<in> set s \<and> quote_char \<notin> set s then quote_char else CHR 0x27)
      in [q] @ concat (map (repr_char q) s) @ [q])"

definition parse :: "string \<Rightarrow> cql_error + query" where
  "parse s =
     and_then (init_parser (init_lexer (strip_chars s))) (\<lambda>ps.
     and_then (parse_query ps) (\<lambda>(q, ps').
     if current ps' \<noteq> []
       then Inl (malformed (''Unprocessed tokens remain: '' @ py_repr (current ps')))
     else Inr q))"

section \<open>Every query is answered\<close>

lemma psize_parse_boolean:
  "parse_boolean ps = Inr (b, ps') \<Longrightarrow> psize ps' + (if current ps = [] then 0 else 1) \<le> psize ps"
  by (force simp: parse_boolean_def Let_def and_then_eq_Inr
      dest: psize_fetch psize_parse_modifiers split: if_splits)

lemma psize_sort_query:
  "sort_query ps = Inr (ks, ps') \<Longrightarrow> psize ps' + (if current ps = [] then 0 else 1) \<le> psize ps"
  by (force simp: sort_query_def and_then_eq_Inr dest: psize_fetch psize_sort_loop split: if_splits)

lemma psize_query:
  "query_f n ps = Inr (q, ps') \<Longrightarrow> psize ps' \<le> psize ps"
  "query_loop n left ps = Inr (q, ps') \<Longrightarrow> psize ps' \<le> psize ps"
  "sub_query_f n ps = Inr (q, ps') \<Longrightarrow> psize ps' \<le> psize ps"
proof (induction n ps and n left ps and n ps arbitrary: q ps' and q ps' and q ps'
    rule: query_f_query_loop_sub_query_f.induct)
  case (2 n ps)
  from "2.prems" obtain prefs ps1 l ps2 l' where "parse_prefixes [] ps = Inr (prefs, ps1)"
    "sub_query_f n ps1 = Inr (l, ps2)" "query_loop n l ps2 = Inr (l', ps')"
    by (auto simp: and_then_eq_Inr)
  with "2.IH" show ?case
    using psize_parse_prefixes [of "[]" ps prefs ps1] by fastforce
next
  case (4 n left ps)
  then show ?case
    by (force simp: and_then_eq_Inr dest: psize_parse_boolean psize_sort_query split: if_splits)
next
  case (6 n ps)
  show ?case
  proof (cases "current ps = ''(''")
    case True
    with "6.prems" obtain ps1 ps2 where "fetch_token ps = Inr ps1"
      "query_f n ps1 = Inr (q, ps2)" "fetch_token ps2 = Inr ps'"
      by (auto simp: and_then_eq_Inr split: if_splits)
    with "6.IH"(1) [OF True] show ?thesis
      using psize_fetch_le [of ps ps1] psize_fetch_le [of ps2 ps'] by fastforce
  next
    case False
    with "6.prems" obtain prefs ps1 where p: "parse_prefixes [] ps = Inr (prefs, ps1)"
      and r: "(if prefs \<noteq> [] then
                 and_then (query_f n ps1) (\<lambda>(q, ps2). Inr (add_prefixes prefs q, ps2))
               else parse_clause ps1) = Inr (q, ps')"
      by (auto simp: and_then_eq_Inr)
    show ?thesis
    proof (cases "prefs = []")
      case True
      with r psize_parse_clause psize_parse_prefixes [OF p] show ?thesis by fastforce
    next
      case nonempty: False
      with r obtain q1 where "query_f n ps1 = Inr (q1, ps')"
        by (auto simp: and_then_eq_Inr)
      with "6.IH"(2) [OF False p refl nonempty] psize_parse_prefixes [OF p] show ?thesis
        by fastforce
    qed
  qed
qed simp_all

text \<open>The lexer under the parser stays in its reachable states, so the only exceptions are
  diagnostics.\<close>

definition ps_ok :: "parser \<Rightarrow> bool" where
  "ps_ok ps \<longleftrightarrow> lx_idle (p_lexer ps) \<and> lx_token (p_lexer ps) = []"

abbreviation answers :: "cql_error + 'a \<times> parser \<Rightarrow> bool" where
  "answers \<equiv> outcome is_diagnostic (\<lambda>(x, ps). ps_ok ps)"

named_theorems answer_intros

lemma fetch_ok [answer_intros]: "ps_ok ps \<Longrightarrow> outcome is_diagnostic ps_ok (fetch_token ps)"
  unfolding fetch_token_def
  by (rule outcome_and_then [OF get_token_ok]) (auto simp: ps_ok_def)

lemma answers_and_then:
  "answers m \<Longrightarrow> (\<And>x ps. m = Inr (x, ps) \<Longrightarrow> ps_ok ps \<Longrightarrow> outcome is_diagnostic Q (f (x, ps))) \<Longrightarrow>
   outcome is_diagnostic Q (and_then m f)"
  by (erule outcome_and_then) auto

lemma fetch_and_then:
  "ps_ok ps \<Longrightarrow> (\<And>ps'. fetch_token ps = Inr ps' \<Longrightarrow> ps_ok ps' \<Longrightarrow> outcome is_diagnostic Q (f ps')) \<Longrightarrow>
   outcome is_diagnostic Q (and_then (fetch_token ps) f)"
  by (rule outcome_and_then [OF fetch_ok])

lemma split_value_ok: "outcome is_diagnostic (\<lambda>_. True) (split_value d v)"
  by (simp add: split_value_def)

lemma mk_prefixed_ok: "outcome is_diagnostic (\<lambda>_. True) (mk_prefixed d v)"
  by (simp add: mk_prefixed_def Let_def split_value_ok)

lemma mk_modifier_ok: "outcome is_diagnostic (\<lambda>_. True) (mk_modifier t c v)"
  unfolding mk_modifier_def by (rule outcome_and_then [OF mk_prefixed_ok]) simp

lemma mk_index_ok: "outcome is_diagnostic (\<lambda>_. True) (mk_index v)"
  unfolding mk_index_def by (rule outcome_and_then [OF mk_prefixed_ok]) simp

lemma mk_relation_ok: "outcome is_diagnostic (\<lambda>_. True) (mk_relation v)"
  unfolding mk_relation_def by (rule outcome_and_then [OF mk_prefixed_ok]) simp

lemma mk_term_ok: "outcome is_diagnostic (\<lambda>_. True) (mk_term v)"
  by (simp add: mk_term_def)

lemmas mk_and_then =
  outcome_and_then [OF mk_modifier_ok] outcome_and_then [OF mk_index_ok]
  outcome_and_then [OF mk_relation_ok] outcome_and_then [OF mk_term_ok]

lemma uri_loop_ok: "ps_ok ps \<Longrightarrow> answers (uri_loop ident ps)"
proof (induction ident ps rule: uri_loop.induct)
  case (1 ident ps)
  show ?case
    unfolding uri_loop.simps [of ident ps]
    using "1.IH" "1.prems" by (auto intro!: fetch_and_then)
qed

lemma prefix_decl_ok:
  assumes "ps_ok ps"
  shows "answers (prefix_decl ps)"
proof -
  have name: "answers (if upcoming ps1 = ''='' then and_then (fetch_token ps1) (\<lambda>ps2.
                and_then (fetch_token ps2) (\<lambda>ps3. Inr (current ps1, ps3))) else Inr ([], ps1))"
    if "ps_ok ps1" for ps1
    using that by (auto intro!: fetch_and_then)
  show ?thesis
    unfolding prefix_decl_def
    by (rule fetch_and_then [OF assms], rule answers_and_then [OF name], assumption,
        simp, rule fetch_and_then, assumption, rule answers_and_then [OF uri_loop_ok], assumption)
      (simp add: Let_def)
qed

lemma parse_prefixes_ok: "ps_ok ps \<Longrightarrow> answers (parse_prefixes prefs ps)"
proof (induction prefs ps rule: parse_prefixes.induct)
  case (1 prefs ps)
  show ?case
    unfolding parse_prefixes.simps [of prefs ps]
    using "1.IH" "1.prems" by (auto intro!: answers_and_then [OF prefix_decl_ok])
qed

lemma one_modifier_ok:
  assumes "ps_ok ps"
  shows "answers (one_modifier ps)"
  unfolding one_modifier_def Let_def
  using assms by (auto intro!: fetch_and_then mk_and_then)

lemma parse_modifiers_ok: "ps_ok ps \<Longrightarrow> answers (parse_modifiers mods ps)"
proof (induction mods ps rule: parse_modifiers.induct)
  case (1 mods ps)
  show ?case
    unfolding parse_modifiers.simps [of mods ps]
    using "1.IH" "1.prems" by (auto intro!: answers_and_then [OF one_modifier_ok])
qed

lemma parse_boolean_ok: "ps_ok ps \<Longrightarrow> answers (parse_boolean ps)"
  unfolding parse_boolean_def Let_def
  by (auto intro!: fetch_and_then answers_and_then [OF parse_modifiers_ok])

lemma parse_relation_ok: "ps_ok ps \<Longrightarrow> answers (parse_relation ps)"
  unfolding parse_relation_def
  by (auto intro!: fetch_and_then mk_and_then answers_and_then [OF parse_modifiers_ok])

lemma one_sort_key_ok: "ps_ok ps \<Longrightarrow> answers (one_sort_key ps)"
  unfolding one_sort_key_def
  by (auto intro!: fetch_and_then mk_and_then answers_and_then [OF parse_modifiers_ok])

lemma sort_loop_ok: "ps_ok ps \<Longrightarrow> answers (sort_loop keys ps)"
proof (induction keys ps rule: sort_loop.induct)
  case (1 keys ps)
  show ?case
    unfolding sort_loop.simps [of keys ps]
    using "1.IH" "1.prems" by (auto intro!: answers_and_then [OF one_sort_key_ok])
qed

lemma sort_query_ok: "ps_ok ps \<Longrightarrow> answers (sort_query ps)"
  unfolding sort_query_def by (auto intro!: fetch_and_then sort_loop_ok)

lemma parse_index_clause_ok: "ps_ok ps \<Longrightarrow> answers (parse_index_clause ps)"
  unfolding parse_index_clause_def
  by (auto intro!: fetch_and_then mk_and_then answers_and_then [OF parse_relation_ok])

lemma server_choice_clause_ok: "ps_ok ps \<Longrightarrow> answers (server_choice_clause ps)"
  unfolding server_choice_clause_def by (auto intro!: fetch_and_then mk_and_then)

lemma parse_clause_ok: "ps_ok ps \<Longrightarrow> answers (parse_clause ps)"
proof (induction ps rule: parse_clause.induct)
  case (1 ps)
  have pref: "answers (and_then (parse_prefixes [] ps) (\<lambda>(prefs, ps').
             and_then (parse_clause ps') (\<lambda>(q, ps''). Inr (add_prefixes prefs q, ps''))))"
    if "\<not> (\<not> is_sort (upcoming ps) \<and> \<not> is_boolean (upcoming ps) \<and> upcoming ps \<notin> set ['')'', ''('', []])"
      "\<not> (current ps \<noteq> [] \<and> (is_boolean (upcoming ps) \<or> is_sort (upcoming ps) \<or> upcoming ps \<in> set ['')'', []]))"
      "current ps = ''>''"
    by (rule answers_and_then [OF parse_prefixes_ok [OF "1.prems"]])
      (auto intro!: answers_and_then [OF "1.IH" [OF refl refl that]])
  show ?case
    unfolding parse_clause.simps [of ps] Let_def
    using parse_index_clause_ok [OF "1.prems"] server_choice_clause_ok [OF "1.prems"] pref
    by (simp split del: if_split split: if_splits)
qed

text \<open>With fuel above twice what is left to read, the two mutually recursive methods answer:
  every call of one by the other has consumed a token.\<close>

lemma query_ok:
  "ps_ok ps \<Longrightarrow> 2 * psize ps + 3 \<le> n \<Longrightarrow> answers (query_f n ps)"
  "ps_ok ps \<Longrightarrow> 2 * psize ps + 2 \<le> n \<Longrightarrow> answers (query_loop n left ps)"
  "ps_ok ps \<Longrightarrow> 2 * psize ps + 2 \<le> n \<Longrightarrow> answers (sub_query_f n ps)"
proof (induction n ps and n left ps and n ps rule: query_f_query_loop_sub_query_f.induct)
  case (2 n ps)
  show ?case
    unfolding query_f.simps
  proof (rule answers_and_then [OF parse_prefixes_ok [OF "2.prems"(1)]], unfold prod.case)
    fix prefs ps1
    assume p: "parse_prefixes [] ps = Inr (prefs, ps1)" and ok1: "ps_ok ps1"
    have le1: "psize ps1 \<le> psize ps" using psize_parse_prefixes [OF p] by simp
    have s: "answers (sub_query_f n ps1)"
      using "2.IH"(1) [OF p refl ok1] "2.prems"(2) le1 by simp
    show "answers (and_then (sub_query_f n ps1) (\<lambda>(left, ps2).
            and_then (query_loop n left ps2) (\<lambda>(left', ps3). Inr (add_prefixes prefs left', ps3))))"
    proof (rule answers_and_then [OF s], unfold prod.case)
      fix l ps2
      assume sq: "sub_query_f n ps1 = Inr (l, ps2)" and ok2: "ps_ok ps2"
      have "answers (query_loop n l ps2)"
        using "2.IH"(2) [OF p refl sq refl ok2] "2.prems"(2) le1 psize_query(3) [OF sq] by simp
      then show "answers (and_then (query_loop n l ps2) (\<lambda>(left', ps3). Inr (add_prefixes prefs left', ps3)))"
        by (rule answers_and_then) simp
    qed
  qed
next
  case (4 n left ps)
  have b: "answers (and_then (parse_boolean ps) (\<lambda>(b, ps1).
        and_then (sub_query_f n ps1) (\<lambda>(right, ps2). query_loop n (Triple left b right [] []) ps2)))"
    if c: "current ps \<noteq> []" "is_boolean (current ps)"
  proof (rule answers_and_then [OF parse_boolean_ok [OF "4.prems"(1)]], unfold prod.case)
    fix b ps1
    assume pb: "parse_boolean ps = Inr (b, ps1)" and ok1: "ps_ok ps1"
    have less: "psize ps1 < psize ps" using psize_parse_boolean [OF pb] c by simp
    have s: "answers (sub_query_f n ps1)"
      using "4.IH"(1) [OF c pb refl ok1] "4.prems"(2) less by simp
    show "answers (and_then (sub_query_f n ps1) (\<lambda>(right, ps2). query_loop n (Triple left b right [] []) ps2))"
    proof (rule answers_and_then [OF s], unfold prod.case)
      fix r ps2
      assume sq: "sub_query_f n ps1 = Inr (r, ps2)" and ok2: "ps_ok ps2"
      show "answers (query_loop n (Triple left b r [] []) ps2)"
        using "4.IH"(2) [OF c pb refl sq refl ok2] "4.prems"(2) less psize_query(3) [OF sq] by simp
    qed
  qed
  have k: "answers (and_then (sort_query ps) (\<lambda>(keys, ps1). query_loop n (set_sort_keys keys left) ps1))"
    if c: "current ps \<noteq> []" "\<not> is_boolean (current ps)" "is_sort (current ps)"
  proof (rule answers_and_then [OF sort_query_ok [OF "4.prems"(1)]], unfold prod.case)
    fix keys ps1
    assume sq: "sort_query ps = Inr (keys, ps1)" and ok1: "ps_ok ps1"
    show "answers (query_loop n (set_sort_keys keys left) ps1)"
      using "4.IH"(3) [OF c sq refl ok1] "4.prems"(2) psize_sort_query [OF sq] c(1) by simp
  qed
  show ?case
    using b k "4.prems"(1) by simp
next
  case (6 n ps)
  have paren: "answers (and_then (fetch_token ps) (\<lambda>ps1. and_then (query_f n ps1) (\<lambda>(q, ps2).
        if current ps2 = '')'' then and_then (fetch_token ps2) (\<lambda>ps3. Inr (q, ps3))
        else Inl (malformed (current ps2)))))"
    if c: "current ps = ''(''"
  proof (rule fetch_and_then [OF "6.prems"(1)])
    fix ps1
    assume f: "fetch_token ps = Inr ps1" and ok1: "ps_ok ps1"
    have "answers (query_f n ps1)"
      using "6.IH"(1) [OF c f ok1] "6.prems"(2) psize_fetch_less [OF f] c by simp
    then show "answers (and_then (query_f n ps1) (\<lambda>(q, ps2).
        if current ps2 = '')'' then and_then (fetch_token ps2) (\<lambda>ps3. Inr (q, ps3))
        else Inl (malformed (current ps2))))"
      by (rule answers_and_then) (auto intro!: fetch_and_then)
  qed
  have other: "answers (and_then (parse_prefixes [] ps) (\<lambda>(prefs, ps1).
        if prefs \<noteq> [] then and_then (query_f n ps1) (\<lambda>(q, ps2). Inr (add_prefixes prefs q, ps2))
        else parse_clause ps1))"
    if c: "current ps \<noteq> ''(''"
  proof (rule answers_and_then [OF parse_prefixes_ok [OF "6.prems"(1)]], unfold prod.case)
    fix prefs ps1
    assume p: "parse_prefixes [] ps = Inr (prefs, ps1)" and ok1: "ps_ok ps1"
    have q: "answers (query_f n ps1)" if ne: "prefs \<noteq> []"
    proof -
      from p ne have "current ps = ''>''"
        by (auto simp: parse_prefixes.simps [of "[]" ps] split: if_splits)
      then have "psize ps1 < psize ps" using psize_parse_prefixes [OF p] by simp
      then show ?thesis
        using "6.IH"(2) [OF c p refl ne ok1] "6.prems"(2) by simp
    qed
    show "answers (if prefs \<noteq> [] then and_then (query_f n ps1) (\<lambda>(q, ps2). Inr (add_prefixes prefs q, ps2))
        else parse_clause ps1)"
      using parse_clause_ok [OF ok1] by (auto intro!: answers_and_then [OF q])
  qed
  show ?case
    using paren other by simp
qed simp_all

lemma init_parser_ok: "outcome is_diagnostic ps_ok (init_parser (init_lexer s))"
proof -
  have "lx_idle (init_lexer s)"
    using lx_ok_init [of s] by (simp add: lx_idle_def init_lexer_def)
  then have "ps_ok \<lparr>current = [], upcoming = [], p_lexer = init_lexer s\<rparr>"
    by (simp add: ps_ok_def init_lexer_def)
  then show ?thesis
    unfolding init_parser_def by (intro fetch_and_then fetch_ok)
qed

lemma parse_outcome: "outcome is_diagnostic (\<lambda>q. True) (parse s)"
  unfolding parse_def
proof (rule outcome_and_then [OF init_parser_ok])
  fix ps
  assume "ps_ok ps"
  then have "answers (parse_query ps)"
    by (simp add: parse_query_def query_fuel_def query_ok(1))
  then show "outcome is_diagnostic (\<lambda>q. True) (and_then (parse_query ps) (\<lambda>(q, ps').
     if current ps' \<noteq> [] then Inl (malformed (''Unprocessed tokens remain: '' @ py_repr (current ps')))
     else Inr q))"
    by (rule answers_and_then) simp
qed

end
