(* ===== verification/CqlSearch.thy ===== *)
theory CqlSearch
  imports CqlParser
begin

text \<open>
  From the query tree to the search index: the methods \<open>to_search\<close>, \<open>get_search_sort\<close> and
  \<open>get_result_set_id\<close> of the tree's classes, \<open>_convert_sort_keys_to_search\<close>,
  \<open>_collect_unsupported_modifiers\<close>, the prefix resolution, and the tables they read, all in
  \<open>rero_ils/modules/sru/cql_parser.py\<close>. The field names of the Elasticsearch mapping that
  \<open>Explain\<close> loads at run time are the parameter \<open>mappings\<close>. A generated query string and a
  sort specification are built for the search index and not interpreted further.
\<close>

section \<open>The tables\<close>

definition RESERVED_PREFIXES :: "(string, string) dict" where
  "RESERVED_PREFIXES =
     [(''srw'', ''http://www.loc.gov/zing/cql/srw-indexes/v1.0/''),
      (''cql'', ''info:srw/cql-context-set/1/cql-v1.2''),
      (''dc'', ''http://purl.org/dc/elements/1.1/'')]"

definition SEARCH_SORT_MODIFIERS :: "(string, string) dict" where
  "SEARCH_SORT_MODIFIERS =
     [(''ascending'', ''asc''),
      (''descending'', ''desc''),
      (''sort.ascending'', ''asc''),
      (''sort.descending'', ''desc''),
      (''missinglow'', ''missinglow''),
      (''missinghigh'', ''missinghigh''),
      (''missingomit'', ''missingomit''),
      (''sort.missinglow'', ''missinglow''),
      (''sort.missinghigh'', ''missinghigh''),
      (''sort.missingomit'', ''missingomit'')]"

definition SEARCH_SORT_INDEX_MAPPINGS :: "(string, string) dict" where
  "SEARCH_SORT_INDEX_MAPPINGS =
     [(''dc.title'', ''sort_title''),
      (''dc.date'', ''provisionActivity.startDate''),
      (''dc.creator'', ''facet_contribution_en''),
      (''dc.contributor'', ''facet_contribution_en''),
      (''dc.identifier'', ''identifiedBy.value.raw''),
      (''dc.subject'', ''facet_subject_en''),
      (''dc.type'', ''type.main_type''),
      (''dc.language'', ''language.value''),
      (''_relevance'', ''_score'')]"

definition SUPPORTED_RELATION_MODIFIERS :: "(string, string) dict" where
  "SUPPORTED_RELATION_MODIFIERS =
     [(''relevant'', ''relevant''),
      (''exact'', ''exact''),
      (''word'', ''word''),
      (''ignorecase'', ''ignorecase''),
      (''string'', ''string'')]"

definition UNSUPPORTED_RELATION_MODIFIERS :: "(string, string) dict" where
  "UNSUPPORTED_RELATION_MODIFIERS =
     [(''stem'', ''Stemming not configurable per-query''),
      (''phonetic'', ''Phonetic matching not available''),
      (''fuzzy'', ''Fuzzy matching not supported''),
      (''regexp'', ''Regular expressions not supported in CQL''),
      (''respectcase'', ''Case-sensitive search not supported''),
      (''isodate'', ''ISO date parsing not supported'')]"

definition SEARCH_INDEX_MAPPINGS :: "(string, string) dict" where
  "SEARCH_INDEX_MAPPINGS =
     [(''cql.anywhere'', ''cql.serverchoice''),
      (''dc.anywhere'', ''cql.serverchoice''),
      (''dc.contributor'', ''contribution.role:(ape OR aqt OR arc OR art OR aus OR aut OR chr OR cll OR cmp ''
          @ ''OR com OR drt OR dsr OR enj OR fmk OR inv OR ive OR ivr OR lbt OR lsa OR lyr OR ''
          @ ''pht OR pra OR prg OR rsp OR scl) AND authorized_access_point''),
      (''dc.creator'', ''contribution.role:(abr OR act OR adi OR adp OR aft OR anm OR ann OR apl OR arr ''
          @ ''OR ato OR auc OR aui OR bkd OR bnd OR brd OR brl OR bsl OR cas OR clr OR clt OR ''
          @ ''cmm OR cnd OR cng OR cns OR col OR cor OR cou OR cre OR crt OR csl OR cst OR ''
          @ ''ctb OR ctg OR ctr OR cur OR cwt OR dfd OR dgg OR dgs OR dnc OR dnr OR dpt OR ''
          @ ''drm OR dst OR dte OR dto OR dub OR edm OR edt OR egr OR etr OR exp OR fac OR ''
          @ ''fds OR fmd OR fmo OR fmp OR his OR hnr OR hst OR ill OR ilu OR ins OR isb OR ''
          @ ''itr OR jud OR jug OR lgd OR ltg OR med OR mfr OR mod OR msd OR mtk OR mus OR ''
          @ ''nrt OR orm OR osp OR oth OR own OR pan OR pat OR pbd OR pbl OR plt OR ppm OR ''
          @ ''ppt OR pre OR prf OR prm OR prn OR pro OR prs OR prt OR ptf OR rcd OR rce OR ''
          @ ''rcp OR rdd OR res OR rpc OR rsr OR sds OR sgd OR sll OR sng OR spk OR spn OR ''
          @ ''srv OR stl OR tch OR tld OR tlp OR trc OR trl OR vac OR vdg OR wac OR wal OR ''
          @ ''wat OR win OR wpr OR wst) AND authorized_access_point''),
      (''dc.date'', ''provisionActivity.type:'' @ [quote_char] @ ''bf:Publication'' @ [quote_char]
          @ '' AND provisionActivity.startDate''),
      (''dc.title'', ''title.'' @ [backslash] @ ''*''),
      (''dc.description'', ''(summary.label OR note.label OR dissertation.label OR supplementaryContent)''),
      (''dc.language'', ''language.value''),
      (''dc.publisher'', ''provisionActivity.type:'' @ [quote_char] @ ''bf:Publication'' @ [quote_char]
          @ '' AND provisionActivity.statement.type:'' @ [quote_char] @ ''bf:Agent''
          @ [quote_char] @ '' AND provisionActivity.statement.label.value''),
      (''dc.type'', ''type.main_type''),
      (''dc.subtype'', ''type.subtype''),
      (''dc.identifier'', ''identifiedBy.value''),
      (''dc.relation'', ''(issuedWith.label OR otherEdition.label OR otherPhysicalFormat.label OR ''
          @ ''precededBy.label OR relatedTo.label OR succeededBy.label OR supplement.label OR ''
          @ ''supplementTo.label)''),
      (''dc.coverage'', ''(temporalCoverage.date OR temporalCoverage.start_date OR ''
          @ ''temporalCoverage.end_date OR subjects.entity.authorized_access_point_''
          @ [backslash] @ ''*)''),
      (''dc.format'', ''(extent OR dimensions OR bookFormat OR duration OR ''
          @ ''contentMediaCarrier.contentType OR contentMediaCarrier.mediaType OR ''
          @ ''contentMediaCarrier.carrierType)''),
      (''dc.rights'', ''(usageAndAccessPolicy.label OR copyrightDate)''),
      (''dc.source'', ''adminMetadata.source''),
      (''dc.subject'', ''subjects.entity.authorized_access_point_'' @ [backslash] @ ''*''),
      (''dc.organisation'', ''organisation_pid''),
      (''dc.library'', ''library_pid''),
      (''dc.location'', ''holdings.location.pid''),
      (''dc.note'', ''note.label''),
      (''dc.tableofcontents'', ''tableOfContents''),
      (''dc.abstract'', ''summary.label''),
      (''dc.dissertation'', ''dissertation.label'')]"

definition CQL_CONTEXT_SET_URIS :: "string list" where
  "CQL_CONTEXT_SET_URIS =
     [''info:srw/cql-context-set/1/cql-v1.1'', ''info:srw/cql-context-set/1/cql-v1.2'']"

definition SORT_MISSING_MAP :: "(string, string \<times> string) dict" where
  "SORT_MISSING_MAP =
     [(''missinglow'', (''_first'', ''_last'')),
      (''missinghigh'', (''_last'', ''_first'')),
      (''missingomit'', (''_last'', ''_last''))]"

section \<open>Modifiers\<close>

definition modifier_name :: "modifier \<Rightarrow> string" where
  "modifier_name m = last (split_char (CHR ''.'') (lower (str_prefixed (mtype m))))"

text \<open>\<open>_collect_unsupported_modifiers\<close>; the set of supported names comes as a list.\<close>

definition collect_unsupported_modifiers :: "modifier list \<Rightarrow> string list \<Rightarrow> string list" where
  "collect_unsupported_modifiers modifiers supported =
     concat (map (\<lambda>m.
       let mod_type = modifier_name m in
       if mod_type \<in> set supported then []
       else case dict_get UNSUPPORTED_RELATION_MODIFIERS mod_type of
           Some why \<Rightarrow> [mod_type @ '' ('' @ why @ '')'']
         | None \<Rightarrow> [mod_type]) modifiers)"

definition index_to_search :: "index \<Rightarrow> cql_error + string" where
  "index_to_search i =
     (let unsupported = collect_unsupported_modifiers (ix_modifiers i)
            (map fst SEARCH_SORT_MODIFIERS @ map fst SUPPORTED_RELATION_MODIFIERS) in
      if ix_modifiers i \<noteq> [] \<and> unsupported \<noteq> []
        then Inl (Diagnostic 21 ''Unsupported index modifier(s)'' (join '', '' unsupported))
      else Inr (str_prefixed (ix i)))"

definition relation_to_search :: "relation \<Rightarrow> cql_error + string" where
  "relation_to_search r =
     (let unsupported = collect_unsupported_modifiers (rl_modifiers r)
            (map fst SUPPORTED_RELATION_MODIFIERS) in
      if rl_modifiers r \<noteq> [] \<and> unsupported \<noteq> []
        then Inl (Diagnostic 21 ''Unsupported relation modifier(s)'' (join '', '' unsupported))
      else Inr (pvalue (rl r)))"

definition boolean_to_search :: "boolean \<Rightarrow> cql_error + string" where
  "boolean_to_search b =
     (if bool_modifiers b \<noteq> []
        then Inl (Diagnostic 21 ''Unsupported boolean modifier(s)''
               (join '', '' (map (\<lambda>m. str_prefixed (mtype m)) (bool_modifiers b))))
      else Inr (bool_value b))"

section \<open>Search strings\<close>

text \<open>The inner function \<open>index_term\<close> of \<open>SearchClause.to_search\<close>.\<close>

definition index_term :: "(string \<Rightarrow> string option) \<Rightarrow> string \<Rightarrow> string \<Rightarrow> string \<Rightarrow> string" where
  "index_term mappings index0 relation0 t =
     (let index1 = (case dict_get SEARCH_INDEX_MAPPINGS (lower index0) of Some x \<Rightarrow> x | None \<Rightarrow> index0);
          index = (case mappings index1 of Some x \<Rightarrow> x | None \<Rightarrow> index1);
          rel = (if relation0 \<in> set [''='', ''all'', ''any''] then [] else relation0) in
      if index = SERVER_CHOICE_INDEX then rel @ t
      else if startswith index ''('' \<and> endswith index '')''
        then ''('' @ join '' OR '' (map (\<lambda>f. strip f @ '':'' @ rel @ t)
                        (split_str '' OR '' [] (butlast (tl index)))) @ '')''
      else index @ '':'' @ rel @ t)"

text \<open>The words of a term under any or all: quotes go from the first piece and the end of the
  last one.\<close>

definition trim_quotes :: "string list \<Rightarrow> string list" where
  "trim_quotes texts =
     (case texts of
        [] \<Rightarrow> []
      | x # xs \<Rightarrow>
          let ys = remove_char quote_char x # xs
          in butlast ys @ [rstrip_char quote_char (last ys)])"

definition clause_to_search ::
  "(string \<Rightarrow> string option) \<Rightarrow> index \<Rightarrow> relation \<Rightarrow> string \<Rightarrow> cql_error + string" where
  "clause_to_search mappings i r t =
     and_then (index_to_search i) (\<lambda>ind.
     and_then (relation_to_search r) (\<lambda>rel.
       if rel = ''<>'' then
         (let t' = (if startswith t [quote_char] \<and> endswith t [quote_char] then t
                    else [quote_char] @ t @ [quote_char])
          in Inr (index_term mappings ind ''-'' t'))
       else if rel \<in> set ORDER then Inr (index_term mappings ind rel t)
       else
         let texts = trim_quotes (map (index_term mappings ind rel) (split_char (CHR '' '') t)) in
         if rel = ''any'' then Inr (''('' @ join '' OR '' texts @ '')'')
         else if rel = ''all'' then Inr (''('' @ join '' AND '' texts @ '')'')
         else Inl (Diagnostic 19 ''Unsupported relation'' rel)))"

text \<open>\<open>str.upper\<close> on ASCII, for the names of the booleans.\<close>

definition upper_ascii :: "string \<Rightarrow> string" where
  "upper_ascii s = map (\<lambda>c. if 97 \<le> ord c \<and> ord c \<le> 122 then char_of (ord c - 32) else c) s"

text \<open>\<open>to_search\<close> of \<open>SearchClause\<close> and \<open>Triple\<close>.\<close>

fun to_search :: "(string \<Rightarrow> string option) \<Rightarrow> query \<Rightarrow> cql_error + string" where
  "to_search mappings (SearchClause i r t ps ks) = clause_to_search mappings i r t"
| "to_search mappings (Triple l b r ps ks) =
     and_then (boolean_to_search b) (\<lambda>bool.
     if bool = ''prox'' then Inl (Diagnostic 37 ''Unsupported boolean operator'' ''prox'')
     else and_then (to_search mappings l) (\<lambda>left.
          and_then (to_search mappings r) (\<lambda>right.
          if bool = ''not'' then Inr (''('' @ left @ '' AND NOT '' @ right @ '')'')
          else Inr (''('' @ left @ '' '' @ upper_ascii bool @ '' '' @ right @ '')''))))"

section \<open>Sort specifications\<close>

text \<open>One entry of the list: the dict of the score with its order, or of a field with its order
  and the place of missing values.\<close>

datatype sort_spec = Score (order: string) | Field string (order: string) string

text \<open>The loop over a key's modifiers keeps the order and the last missing-value preference.\<close>

fun sort_modifiers :: "modifier list \<Rightarrow> string \<Rightarrow> string option \<Rightarrow> cql_error + string \<times> string option" where
  "sort_modifiers [] dir pre = Inr (dir, pre)"
| "sort_modifiers (m # ms) dir pre =
     (let mod_type = modifier_name m in
      if mod_type \<notin> set [''ascending'', ''descending'', ''missinglow'', ''missinghigh'', ''missingomit'']
        then Inl (Diagnostic 21 ''Unsupported sort modifier'' mod_type)
      else if mod_type = ''descending'' then sort_modifiers ms ''desc'' pre
      else if mod_type = ''ascending'' then sort_modifiers ms ''asc'' pre
      else sort_modifiers ms dir (Some mod_type))"

definition convert_sort_key :: "index \<Rightarrow> cql_error + sort_spec" where
  "convert_sort_key key =
     (let index_name = lower (str_prefixed (ix key));
          search_field =
            (case dict_get SEARCH_SORT_INDEX_MAPPINGS index_name of
               Some f \<Rightarrow> f
             | None \<Rightarrow>
                 (case dict_get SEARCH_SORT_INDEX_MAPPINGS (''dc.'' @ pvalue (ix key)) of
                    Some f \<Rightarrow> f
                  | None \<Rightarrow> index_name)) in
      and_then (sort_modifiers (ix_modifiers key) ''asc'' None) (\<lambda>(dir, pre).
        let missing =
          (case pre of
             None \<Rightarrow> ''_last''
           | Some p \<Rightarrow>
               (case dict_get SORT_MISSING_MAP p of
                  None \<Rightarrow> ''_last''
                | Some (asc_val, desc_val) \<Rightarrow> if dir = ''asc'' then asc_val else desc_val)) in
        if search_field = ''_score'' then Inr (Score dir)
        else Inr (Field search_field dir missing)))"

definition convert_sort_keys_to_search :: "index list \<Rightarrow> cql_error + sort_spec list" where
  "convert_sort_keys_to_search keys = map_result convert_sort_key keys"

text \<open>\<open>get_search_sort\<close>, the same in both classes.\<close>

definition get_search_sort :: "query \<Rightarrow> cql_error + sort_spec list" where
  "get_search_sort q =
     (if sort_keys q = [] then Inr [] else convert_sort_keys_to_search (sort_keys q))"

section \<open>Prefixes and result sets\<close>

text \<open>\<open>PrefixableObject.resolve_prefix\<close>. The scopes are the declarations of the object and of
  its parents, innermost first; \<open>config\<close> is never set.\<close>

fun resolve_in :: "(string, string) dict list \<Rightarrow> string \<Rightarrow> string option" where
  "resolve_in [] name = None"
| "resolve_in (ps # scopes) name =
     (case dict_get ps name of Some uri \<Rightarrow> Some uri | None \<Rightarrow> resolve_in scopes name)"

definition resolve_prefix :: "(string, string) dict list \<Rightarrow> string \<Rightarrow> string option" where
  "resolve_prefix scopes name =
     (case dict_get RESERVED_PREFIXES name of Some uri \<Rightarrow> Some uri | None \<Rightarrow> resolve_in scopes name)"

text \<open>\<open>SearchClause.get_result_set_id\<close>; the scopes are those of the clause.\<close>

definition clause_result_set_id ::
  "(string, string) dict list \<Rightarrow> index \<Rightarrow> relation \<Rightarrow> string \<Rightarrow> string" where
  "clause_result_set_id scopes i r t =
     (if pvalue (rl r) \<notin> set [''='', ''==''] then []
      else
        let uri = resolve_prefix scopes (pref (ix i)) in
        if uri \<in> set (map Some CQL_CONTEXT_SET_URIS) \<and> lower (pvalue (ix i)) = ''resultsetid''
        then (if length t \<ge> 2 \<and> is_quoted t then unquote t else t)
        else [])"

text \<open>The recursive calls of \<open>Triple.get_result_set_id\<close>: a list of ids, one per leaf. A NOT or
  PROX operand returns the empty string, and extending the list by it adds nothing.\<close>

fun result_set_leaves :: "(string, string) dict list \<Rightarrow> query \<Rightarrow> string list" where
  "result_set_leaves scopes (SearchClause i r t ps ks) = [clause_result_set_id (ps # scopes) i r t]"
| "result_set_leaves scopes (Triple l b r ps ks) =
     (if bool_value b \<in> set [''not'', ''prox''] then []
      else result_set_leaves (ps # scopes) l @ result_set_leaves (ps # scopes) r)"

text \<open>\<open>get_result_set_id\<close> of the root; \<open>rs_list[0]\<close> raises on an empty list.\<close>

definition get_result_set_id :: "query \<Rightarrow> cql_error + string" where
  "get_result_set_id q =
     (case q of
        SearchClause i r t ps ks \<Rightarrow> Inr (clause_result_set_id [ps] i r t)
      | Triple l b r ps ks \<Rightarrow>
          if bool_value b \<in> set [''not'', ''prox''] then Inr []
          else
            (case result_set_leaves [ps] l @ result_set_leaves [ps] r of
               [] \<Rightarrow> Inl IndexError
             | x # xs \<Rightarrow> if list_all (\<lambda>y. y = x) xs then Inr x else Inr []))"

end
