(* ===== verification/CqlRoundtrip.thy ===== *)
theory CqlRoundtrip
  imports CqlSearch
begin

text \<open>
  The parser against a printer. The code has no printer for CQL; \<open>print_query\<close> is the
  specification: it writes a query tree as tokens separated by blanks, every operand of a boolean
  between parentheses. The lemmas say that the lexer reads these tokens back (\<open>delivers\<close>), that
  the parser over the lexer is the parser over that token list (\<open>feeds\<close>), and that parsing the
  printed text of a tree gives the tree (\<open>parse_print\<close>).
\<close>

section \<open>Tokens the lexer reads back\<close>

definition word_char :: "char \<Rightarrow> bool" where
  "word_char c \<longleftrightarrow> (ord c > 126 \<or> c \<in> set wordchars \<or> c \<in> set quotes) \<and> c \<notin> set commenters"

definition plain_word :: "string \<Rightarrow> bool" where
  "plain_word t \<longleftrightarrow> t \<noteq> [] \<and> hd t \<in> set wordchars \<and> list_all word_char t"

definition quoted_token :: "string \<Rightarrow> bool" where
  "quoted_token t \<longleftrightarrow>
     length t \<ge> 2 \<and> hd t = quote_char \<and> last t = quote_char \<and> quote_char \<notin> set (unquote t)
     \<and> (unquote t = [] \<or> last (unquote t) \<noteq> backslash)"

definition symbol_token :: "string \<Rightarrow> bool" where
  "symbol_token t \<longleftrightarrow> t \<in> set [''('', '')'', ''='', ''/'', ''<'', ''>'', ''<='', ''>='', ''<>'']"

definition lexable :: "string \<Rightarrow> bool" where
  "lexable t \<longleftrightarrow> (plain_word t \<or> quoted_token t \<or> symbol_token t) \<and> strip_chars t = t"

lemma lexable_not_Nil: "lexable t \<Longrightarrow> t \<noteq> []"
  by (auto simp: lexable_def plain_word_def quoted_token_def symbol_token_def)

abbreviation lexing :: "string \<Rightarrow> char \<Rightarrow> string \<Rightarrow> lexer" where
  "lexing s st t \<equiv> \<lparr>instream = s, lx_state = Some st, lx_token = t, lx_next = [], pushback = []\<rparr>"

lemma init_lexer_lexing: "init_lexer s = lexing s (CHR '' '') []"
  by (simp add: init_lexer_def)

lemma char_classes:
  "CHR ''('' \<notin> set whitespace"
  "CHR ''('' \<notin> set commenters"
  "CHR ''('' \<notin> set wordchars"
  "CHR ''('' \<notin> set quotes"
  "CHR '')'' \<notin> set whitespace"
  "CHR '')'' \<notin> set commenters"
  "CHR '')'' \<notin> set wordchars"
  "CHR '')'' \<notin> set quotes"
  "CHR ''='' \<notin> set whitespace"
  "CHR ''='' \<notin> set commenters"
  "CHR ''='' \<notin> set wordchars"
  "CHR ''='' \<notin> set quotes"
  "CHR ''/'' \<notin> set whitespace"
  "CHR ''/'' \<notin> set commenters"
  "CHR ''/'' \<notin> set wordchars"
  "CHR ''/'' \<notin> set quotes"
  "CHR ''<'' \<notin> set whitespace"
  "CHR ''<'' \<notin> set commenters"
  "CHR ''<'' \<notin> set wordchars"
  "CHR ''<'' \<notin> set quotes"
  "CHR ''>'' \<notin> set whitespace"
  "CHR ''>'' \<notin> set commenters"
  "CHR ''>'' \<notin> set wordchars"
  "CHR ''>'' \<notin> set quotes"
  "quote_char \<notin> set whitespace"
  "quote_char \<notin> set commenters"
  "quote_char \<notin> set wordchars"
  "quote_char \<in> set quotes"
  "CHR '' '' \<in> set whitespace"
  "CHR '' '' \<notin> set commenters"
  "CHR '' '' \<notin> set wordchars"
  "CHR '' '' \<notin> set quotes"
  by (simp_all add: whitespace_def commenters_def wordchars_def quotes_def)

lemma letter_class: "CHR ''a'' \<notin> set quotes"
  by (simp add: quotes_def)

lemma word_char_not_whitespace: "word_char c \<Longrightarrow> c \<notin> set whitespace"
  by (auto simp: word_char_def whitespace_def wordchars_def quotes_def ord_def)

lemmas turn_simps = read_loop.simps take_pending_def lexer_turn_def Let_def

lemma read_word:
  "list_all word_char w \<Longrightarrow> t \<noteq> [] \<Longrightarrow>
   read_loop (lexing (w @ CHR '' '' # s) (CHR ''a'') t) = Inr (lexing s (CHR '' '') (t @ w))"
proof (induction w arbitrary: t)
  case Nil
  then show ?case
    by (simp add: turn_simps read_token_word_def char_classes letter_class)
next
  case (Cons c w)
  then have c: "word_char c" and w: "list_all word_char w" by auto
  from word_char_not_whitespace [OF c] c Cons.IH [OF w, of "t @ [c]"] show ?case
    by (simp add: turn_simps [of "lexing (c # w @ CHR '' '' # s) (CHR ''a'') t"]
        read_token_word_def word_char_def quotes_def)
qed

lemma read_quoted:
  "quote_char \<notin> set u \<Longrightarrow> t \<noteq> [] \<Longrightarrow> last (t @ u) \<noteq> backslash \<Longrightarrow>
   read_loop (lexing (u @ quote_char # s) quote_char t)
   = Inr (lexing s (CHR '' '') (t @ u @ [quote_char]))"
proof (induction u arbitrary: t)
  case Nil
  then have "(t @ [quote_char]) ! (length t - Suc 0) = last t"
    by (simp add: nth_append last_conv_nth)
  with Nil show ?case
    by (simp add: turn_simps read_token_quote_def quotes_def)
next
  case (Cons c u)
  then have c: "c \<noteq> quote_char" by auto
  with Cons.prems Cons.IH [of "t @ [c]"] c show ?case
    by (simp add: turn_simps [of "lexing (c # u @ quote_char # s) quote_char t"]
        read_token_quote_def quotes_def)
qed

lemma lex_plain_word:
  assumes "plain_word t"
  shows "get_token (lexing (t @ CHR '' '' # s) (CHR '' '') []) = Inr (t, lexing s (CHR '' '') [])"
proof -
  obtain c w where t: "t = c # w" and c: "c \<in> set wordchars" "word_char c" and w: "list_all word_char w"
    using assms by (cases t) (auto simp: plain_word_def)
  from c have "c \<notin> set commenters" by (simp add: word_char_def)
  with c word_char_not_whitespace [OF c(2)] read_word [OF w, of "[c]" s] show ?thesis
    by (simp add: t get_token_def read_token_def
        turn_simps [of "lexing (c # w @ CHR '' '' # s) (CHR '' '') []"] read_token_space_def)
qed

lemma lex_quoted:
  assumes "quoted_token t"
  shows "get_token (lexing (t @ s) (CHR '' '') []) = Inr (t, lexing s (CHR '' '') [])"
proof -
  from assms have len: "length t \<ge> 2" and h: "hd t = quote_char" and l: "last t = quote_char"
    by (auto simp: quoted_token_def)
  obtain c v where v: "t = c # v" "v \<noteq> []"
    using len by (cases t; cases "tl t") auto
  from v h l have t: "t = quote_char # butlast v @ [quote_char]"
    using append_butlast_last_id [of v] by simp
  define u where "u = butlast v"
  from t have tu: "t = quote_char # u @ [quote_char]" and "unquote t = u"
    by (simp_all add: u_def unquote_def)
  with assms have u: "quote_char \<notin> set u" "u = [] \<or> last u \<noteq> backslash"
    by (auto simp: quoted_token_def)
  then have "last ([quote_char] @ u) \<noteq> backslash" by auto
  from read_quoted [OF u(1) _ this, of s] show ?thesis
    by (simp add: tu get_token_def read_token_def
        turn_simps [of "lexing (quote_char # u @ quote_char # s) (CHR '' '') []"] read_token_space_def
        char_classes)
qed

lemma lex_symbol:
  assumes "symbol_token t"
  shows "\<exists>s'. (s' = s \<or> s' = CHR '' '' # s) \<and>
     get_token (lexing (t @ CHR '' '' # s) (CHR '' '') []) = Inr (t, lexing s' (CHR '' '') [])"
proof -
  note step = get_token_def read_token_def turn_simps read_token_space_def read_token_angle_def
    char_classes
  from assms consider "t = ''(''" | "t = '')''" | "t = ''=''" | "t = ''/''" | "t = ''<''"
    | "t = ''>''" | "t = ''<=''" | "t = ''>=''" | "t = ''<>''"
    by (auto simp: symbol_token_def)
  then show ?thesis
    by cases (simp_all add: step)
qed

lemma lex_blank: "get_token (lexing (CHR '' '' # s) (CHR '' '') []) = get_token (lexing s (CHR '' '') [])"
  by (simp add: get_token_def read_token_def turn_simps [of "lexing (CHR '' '' # s) (CHR '' '') []"]
      read_token_space_def char_classes)

lemma lex_token:
  assumes "lexable t"
  shows "\<exists>s'. (s' = s \<or> s' = CHR '' '' # s) \<and>
     get_token (lexing (t @ CHR '' '' # s) (CHR '' '') []) = Inr (t, lexing s' (CHR '' '') [])"
  using assms lex_plain_word [of t s] lex_quoted [of t "CHR '' '' # s"] lex_symbol [of t s]
  unfolding lexable_def by blast

section \<open>The lexer as a token list\<close>

definition at_end :: "lexer \<Rightarrow> bool" where
  "at_end lx \<longleftrightarrow> get_token lx = Inr ([], lx)"

fun delivers :: "lexer \<Rightarrow> string list \<Rightarrow> bool" where
  "delivers lx [] = (\<exists>lx'. get_token lx = Inr ([], lx') \<and> at_end lx')"
| "delivers lx (t # ts) = (t \<noteq> [] \<and> (\<exists>lx'. get_token lx = Inr (t, lx') \<and> delivers lx' ts))"

definition spaced :: "string list \<Rightarrow> string" where
  "spaced ts = concat (map (\<lambda>t. t @ '' '') ts)"

lemma delivers_blank: "delivers (lexing (CHR '' '' # s) (CHR '' '') []) ts = delivers (lexing s (CHR '' '') []) ts"
  by (cases ts) (simp_all add: lex_blank)

lemma at_end_lexing:
  "get_token (lexing [] (CHR '' '') []) = Inr ([], (lexing [] (CHR '' '') [])\<lparr>lx_state := None\<rparr>)"
  "at_end ((lexing [] (CHR '' '') [])\<lparr>lx_state := None\<rparr>)"
  by (simp_all add: at_end_def get_token_def read_token_def turn_simps read_token_space_def)

lemma delivers_spaced: "list_all lexable ts \<Longrightarrow> delivers (lexing (spaced ts) (CHR '' '') []) ts"
proof (induction ts)
  case Nil
  show ?case using at_end_lexing by (auto simp: spaced_def)
next
  case (Cons t ts)
  then have t: "lexable t" and d: "delivers (lexing (spaced ts) (CHR '' '') []) ts" by auto
  from lex_token [OF t, of "spaced ts"] obtain s' where s': "s' = spaced ts \<or> s' = CHR '' '' # spaced ts"
    and g: "get_token (lexing (t @ CHR '' '' # spaced ts) (CHR '' '') []) = Inr (t, lexing s' (CHR '' '') [])"
    by blast
  from s' d have "delivers (lexing s' (CHR '' '') []) ts"
    using delivers_blank by auto
  with g lexable_not_Nil [OF t] show ?case by (simp add: spaced_def)
qed

text \<open>No token is lost or invented: what is delivered is bounded by the input.\<close>

lemma delivers_length: "delivers lx ts \<Longrightarrow> length ts \<le> lsize lx"
proof (induction ts arbitrary: lx)
  case (Cons t ts)
  then obtain lx' where "t \<noteq> []" "get_token lx = Inr (t, lx')" "delivers lx' ts" by auto
  with Cons.IH [of lx'] lsize_get_token [of lx t lx'] show ?case by simp
qed simp

section \<open>The parser over a token list\<close>

definition tok :: "string list \<Rightarrow> string" where
  "tok ts = (case ts of [] \<Rightarrow> [] | t # _ \<Rightarrow> t)"

lemma tok_simps [simp]: "tok [] = []" "tok (t # ts) = t"
  by (simp_all add: tok_def)

definition feeds :: "parser \<Rightarrow> string list \<Rightarrow> bool" where
  "feeds ps ts \<longleftrightarrow> list_all (\<lambda>t. t \<noteq> []) ts \<and> current ps = tok ts \<and> upcoming ps = tok (tl ts)
     \<and> delivers (p_lexer ps) (drop 2 ts)"

text \<open>\<open>yields m x rest\<close>: the step \<open>m\<close> returns \<open>x\<close> and leaves a parser that feeds \<open>rest\<close>.\<close>

definition yields :: "cql_error + 'a \<times> parser \<Rightarrow> 'a \<Rightarrow> string list \<Rightarrow> bool" where
  "yields m x rest \<longleftrightarrow> (\<exists>ps'. m = Inr (x, ps') \<and> feeds ps' rest)"

lemma yields_Inr: "feeds ps rest \<Longrightarrow> yields (Inr (x, ps)) x rest"
  by (simp add: yields_def)

lemma yields_and_then:
  "yields m x rest \<Longrightarrow> (\<And>ps. feeds ps rest \<Longrightarrow> yields (f (x, ps)) y rest') \<Longrightarrow> yields (and_then m f) y rest'"
  by (auto simp: yields_def)

lemma feeds_current: "feeds ps ts \<Longrightarrow> current ps = tok ts"
  by (simp add: feeds_def)

lemma feeds_upcoming: "feeds ps ts \<Longrightarrow> upcoming ps = tok (tl ts)"
  by (simp add: feeds_def)

lemma feeds_not_Nil: "feeds ps (t # ts) \<Longrightarrow> t \<noteq> []"
  by (simp add: feeds_def)

lemma delivers_get:
  assumes "delivers lx ts"
  shows "\<exists>lx'. get_token lx = Inr (tok ts, lx') \<and> delivers lx' (tl ts)"
  using assms by (cases ts) (auto simp: at_end_def)

lemma fetch_feeds:
  assumes "feeds ps ts"
  shows "\<exists>ps'. fetch_token ps = Inr ps' \<and> feeds ps' (tl ts)"
proof -
  from assms have "delivers (p_lexer ps) (drop 2 ts)" by (simp add: feeds_def)
  from delivers_get [OF this] obtain lx' where "get_token (p_lexer ps) = Inr (tok (drop 2 ts), lx')"
    and "delivers lx' (tl (drop 2 ts))" by blast
  moreover have "list_all (\<lambda>t. t \<noteq> []) (tl ts)"
    using assms by (cases ts) (auto simp: feeds_def)
  ultimately show ?thesis
    using assms by (simp add: fetch_token_def feeds_def numeral_2_eq_2 drop_Suc tl_drop)
qed

lemma yields_fetch:
  "feeds ps ts \<Longrightarrow> (\<And>ps'. feeds ps' (tl ts) \<Longrightarrow> yields (f ps') y rest) \<Longrightarrow>
   yields (and_then (fetch_token ps) f) y rest"
  using fetch_feeds [of ps ts] by (auto simp: yields_def)

lemma feeds_psize: "feeds ps ts \<Longrightarrow> length ts \<le> psize ps"
  using delivers_length [of "p_lexer ps" "drop 2 ts"]
  by (cases ts; cases "tl ts") (auto simp: feeds_def psize_def numeral_2_eq_2)

lemma init_feeds:
  assumes "list_all lexable ts"
  shows "\<exists>ps. init_parser (init_lexer (spaced ts)) = Inr ps \<and> feeds ps ts"
proof -
  have d: "delivers (init_lexer (spaced ts)) ts"
    using delivers_spaced [OF assms] by (simp add: init_lexer_lexing)
  from delivers_get [OF d] obtain lx1 where
    1: "get_token (init_lexer (spaced ts)) = Inr (tok ts, lx1)" "delivers lx1 (tl ts)" by blast
  from delivers_get [OF 1(2)] obtain lx2 where
    2: "get_token lx1 = Inr (tok (tl ts), lx2)" "delivers lx2 (tl (tl ts))" by blast
  have "list_all (\<lambda>t. t \<noteq> []) ts"
    using assms lexable_not_Nil by (auto simp: list_all_iff)
  with 1 2 show ?thesis
    by (simp add: init_parser_def fetch_token_def feeds_def numeral_2_eq_2 drop_Suc)
qed

section \<open>The printer\<close>

definition print_modifier :: "modifier \<Rightarrow> string list" where
  "print_modifier m =
     ''/'' # str_prefixed (mtype m) # (if mcomp m = [] then [] else [mcomp m, mvalue m])"

definition print_modifiers :: "modifier list \<Rightarrow> string list" where
  "print_modifiers ms = concat (map print_modifier ms)"

definition print_prefixes :: "(string, string) dict \<Rightarrow> string list" where
  "print_prefixes ps =
     concat (map (\<lambda>(name, uri). ''>'' # (if name = [] then [] else [name, ''='']) @ [[quote_char] @ uri @ [quote_char]]) ps)"

definition print_sort_keys :: "index list \<Rightarrow> string list" where
  "print_sort_keys ks =
     (if ks = [] then []
      else SORT_WORD # concat (map (\<lambda>k. str_prefixed (ix k) # print_modifiers (ix_modifiers k)) ks))"

text \<open>A relation is printed without its prefix when that is the default one.\<close>

definition rel_token :: "relation \<Rightarrow> string" where
  "rel_token r = (if pref (rl r) = ''cql'' then pvalue (rl r) else str_prefixed (rl r))"

fun print_query :: "query \<Rightarrow> string list" where
  "print_query (SearchClause i r t ps ks) =
     print_prefixes ps @ str_prefixed (ix i) # rel_token r # print_modifiers (rl_modifiers r)
     @ t # print_sort_keys ks"
| "print_query (Triple l b r ps ks) =
     print_prefixes ps @ ''('' # print_query l @ '')'' # bool_value b # print_modifiers (bool_modifiers b)
     @ ''('' # print_query r @ '')'' # print_sort_keys ks"

text \<open>
  The trees the printer is for: their parts are what the constructors of the code make of their
  printed form (so prefixes and names are in lower case, say), and their tokens are words, quoted
  strings or comparisons of the lexer.
\<close>

definition wf_modifier :: "modifier \<Rightarrow> bool" where
  "wf_modifier m \<longleftrightarrow>
     (let ty = str_prefixed (mtype m) in
      lexable ty \<and> lower ty = ty \<and> ty \<noteq> ''/'' \<and> mk_modifier ty (mcomp m) (mvalue m) = Inr m
      \<and> (if mcomp m = [] then mvalue m = [] else mcomp m \<in> set ORDER \<and> lexable (mvalue m)))"

definition wf_prefix :: "string \<times> string \<Rightarrow> bool" where
  "wf_prefix = (\<lambda>(name, uri).
     (name = [] \<or> lexable name) \<and> lower name = name \<and> lexable ([quote_char] @ uri @ [quote_char]))"

definition wf_prefixes :: "(string, string) dict \<Rightarrow> bool" where
  "wf_prefixes ps \<longleftrightarrow> list_all wf_prefix ps \<and> distinct (map fst ps)"

definition wf_sort_key :: "index \<Rightarrow> bool" where
  "wf_sort_key k \<longleftrightarrow>
     (let t = str_prefixed (ix k) in
      lexable t \<and> t \<notin> set ['')'', ''/''] \<and> mk_index t = Inr (Index (ix k) [])
      \<and> list_all wf_modifier (ix_modifiers k))"

definition wf_clause :: "index \<Rightarrow> relation \<Rightarrow> string \<Rightarrow> bool" where
  "wf_clause i r t \<longleftrightarrow>
     (let it = str_prefixed (ix i); rt = rel_token r in
      lexable it \<and> it \<notin> set [''('', ''>'', ''/''] \<and> mk_index it = Inr i
      \<and> lexable rt \<and> rt \<notin> set ['')'', ''(''] \<and> \<not> is_boolean rt \<and> \<not> is_sort rt
      \<and> lower rt = rt \<and> mk_relation rt = Inr (Relation (rl r) [])
      \<and> list_all wf_modifier (rl_modifiers r)
      \<and> lexable t \<and> mk_term t = Inr t)"

definition wf_boolean :: "boolean \<Rightarrow> bool" where
  "wf_boolean b \<longleftrightarrow> bool_value b \<in> set BOOLEANS \<and> list_all wf_modifier (bool_modifiers b)"

fun wf_query :: "query \<Rightarrow> bool" where
  "wf_query (SearchClause i r t ps ks) =
     (wf_clause i r t \<and> wf_prefixes ps \<and> list_all wf_sort_key ks)"
| "wf_query (Triple l b r ps ks) =
     (wf_query l \<and> wf_boolean b \<and> wf_query r \<and> wf_prefixes ps \<and> list_all wf_sort_key ks)"

section \<open>Parsing what was printed\<close>

lemma yields_modifiers:
  "feeds ps (print_modifiers ms @ rest) \<Longrightarrow> list_all wf_modifier ms \<Longrightarrow>
   tok rest \<noteq> ''/'' \<Longrightarrow> tok rest \<notin> set ORDER \<Longrightarrow>
   yields (parse_modifiers acc ps) (acc @ ms) rest"
proof (induction ms arbitrary: acc ps)
  case Nil
  then show ?case
    by (simp add: print_modifiers_def parse_modifiers.simps [of acc ps] feeds_current yields_Inr)
next
  case (Cons m ms)
  define more where "more = print_modifiers ms @ rest"
  have more: "tok more \<notin> set ORDER"
    using Cons.prems(4) by (cases ms) (auto simp: more_def print_modifiers_def print_modifier_def ORDER_def)
  from Cons.prems(2) have wf: "wf_modifier m" "list_all wf_modifier ms" by auto
  let ?ty = "str_prefixed (mtype m)"
  from wf(1) have ty: "lower ?ty = ?ty" "?ty \<noteq> ''/''" "mk_modifier ?ty (mcomp m) (mvalue m) = Inr m"
    by (simp_all add: wf_modifier_def Let_def)
  have fd: "feeds ps (''/'' # ?ty # (if mcomp m = [] then [] else [mcomp m, mvalue m]) @ more)"
    using Cons.prems(1) by (simp add: print_modifiers_def print_modifier_def more_def)
  have one: "yields (one_modifier ps) m more"
  proof (cases "mcomp m = []")
    case True
    with wf(1) have "mvalue m = []" by (simp add: wf_modifier_def Let_def)
    with True fd ty more show ?thesis
      unfolding one_modifier_def Let_def
      by (auto intro!: yields_fetch [OF fd] yields_fetch yields_Inr simp: feeds_current)
  next
    case False
    with wf(1) have "mcomp m \<in> set ORDER" by (simp add: wf_modifier_def Let_def)
    with False fd ty show ?thesis
      unfolding one_modifier_def Let_def
      by (intro yields_fetch [OF fd])
        (auto intro!: yields_fetch yields_Inr simp: feeds_current)
  qed
  have "yields (and_then (one_modifier ps) (\<lambda>(m, ps'). parse_modifiers (acc @ [m]) ps')) (acc @ m # ms) rest"
    using Cons.IH [OF _ wf(2) Cons.prems(3,4), of _ "acc @ [m]"]
    by (intro yields_and_then [OF one]) (auto simp: more_def)
  then show ?case
    using feeds_current [OF fd] by (simp add: parse_modifiers.simps [of acc ps])
qed

lemma yields_relation:
  assumes fd: "feeds ps (rel_token r # print_modifiers (rl_modifiers r) @ rest)"
    and "lower (rel_token r) = rel_token r"
    and "mk_relation (rel_token r) = Inr (Relation (rl r) [])"
    and "list_all wf_modifier (rl_modifiers r)"
    and "tok rest \<noteq> ''/''" "tok rest \<notin> set ORDER"
  shows "yields (parse_relation ps) r rest"
proof -
  have "yields (and_then (parse_modifiers [] ps1) (\<lambda>(mods, ps2). Inr (Relation (rl r) mods, ps2))) r rest"
    if "feeds ps1 (print_modifiers (rl_modifiers r) @ rest)" for ps1
    using yields_modifiers [OF that assms(4-6), of "[]"]
    by (rule yields_and_then) (simp add: yields_Inr)
  then show ?thesis
    using assms(2,3) feeds_current [OF fd] unfolding parse_relation_def
    by (auto intro!: yields_fetch [OF fd])
qed

lemma yields_boolean:
  assumes fd: "feeds ps (bool_value b # print_modifiers (bool_modifiers b) @ rest)"
    and b: "wf_boolean b" and rest: "tok rest \<noteq> ''/''" "tok rest \<notin> set ORDER"
  shows "yields (parse_boolean ps) b rest"
proof -
  from b have mods: "list_all wf_modifier (bool_modifiers b)" and v: "bool_value b \<in> set BOOLEANS"
    by (simp_all add: wf_boolean_def)
  have low: "lower (bool_value b) = bool_value b"
    using v by (auto simp: BOOLEANS_def lower_def lower_char_def ord_def)
  have "yields (and_then (parse_modifiers [] ps1) (\<lambda>(mods, ps2). Inr (Boolean (bool_value b) mods, ps2))) b rest"
    if "feeds ps1 (print_modifiers (bool_modifiers b) @ rest)" for ps1
    using yields_modifiers [OF that mods rest, of "[]"]
    by (rule yields_and_then) (simp add: yields_Inr)
  then show ?thesis
    using low v feeds_current [OF fd] unfolding parse_boolean_def Let_def
    by (auto intro!: yields_fetch [OF fd])
qed

text \<open>What may follow the sort keys: the end of the query or a closing parenthesis.\<close>

abbreviation closes :: "string list \<Rightarrow> bool" where
  "closes rest \<equiv> tok rest = [] \<or> tok rest = '')''"

lemma closes_token: "closes rest \<Longrightarrow> tok rest \<noteq> ''/'' \<and> tok rest \<notin> set ORDER \<and> \<not> is_boolean (tok rest) \<and> \<not> is_sort (tok rest)"
  by (auto simp: ORDER_def is_boolean_def is_sort_def BOOLEANS_def SORT_WORD_def lower_def lower_char_def ord_def)

definition sort_tokens :: "index list \<Rightarrow> string list" where
  "sort_tokens ks = concat (map (\<lambda>k. str_prefixed (ix k) # print_modifiers (ix_modifiers k)) ks)"

lemma mk_index_order: "list_all (\<lambda>t. mk_index t = Inl (Diagnostic 10 ''Invalid characters in index name'' t)) ORDER"
  by (simp add: ORDER_def mk_index_def mk_prefixed_def split_value_def Let_def is_quoted_def
      lower_def lower_char_def ord_def)

lemma mk_index_not_order: "mk_index t = Inr i \<Longrightarrow> t \<notin> set ORDER"
  using mk_index_order by (auto simp: list_all_iff)

lemma sort_tokens_tok:
  assumes "list_all wf_sort_key ks" and "closes rest"
  shows "tok (sort_tokens ks @ rest) \<noteq> ''/'' \<and> tok (sort_tokens ks @ rest) \<notin> set ORDER"
proof (cases ks)
  case Nil
  with closes_token [OF assms(2)] show ?thesis by (simp add: sort_tokens_def)
next
  case (Cons k ks')
  let ?t = "str_prefixed (ix k)"
  from Cons assms(1) have k: "?t \<noteq> ''/''" and i: "mk_index ?t = Inr (Index (ix k) [])"
    by (auto simp: wf_sort_key_def Let_def)
  have "?t \<notin> set ORDER" using mk_index_not_order [OF i] .
  with k Cons show ?thesis by (simp add: sort_tokens_def)
qed

lemma yields_sort_loop:
  "feeds ps (sort_tokens ks @ rest) \<Longrightarrow> list_all wf_sort_key ks \<Longrightarrow> closes rest \<Longrightarrow>
   yields (sort_loop acc ps) (acc @ ks) rest"
proof (induction ks arbitrary: acc ps)
  case Nil
  then show ?case
    by (auto simp: sort_tokens_def sort_loop.simps [of acc ps] feeds_current yields_Inr)
next
  case (Cons k ks)
  from Cons.prems(2) have k: "wf_sort_key k" and ks: "list_all wf_sort_key ks" by auto
  from k have i: "mk_index (str_prefixed (ix k)) = Inr (Index (ix k) [])"
    and t: "str_prefixed (ix k) \<noteq> '')''" and mods: "list_all wf_modifier (ix_modifiers k)"
    by (auto simp: wf_sort_key_def Let_def)
  have fd: "feeds ps (str_prefixed (ix k) # print_modifiers (ix_modifiers k) @ sort_tokens ks @ rest)"
    using Cons.prems(1) by (simp add: sort_tokens_def)
  note more = sort_tokens_tok [OF ks Cons.prems(3)]
  have m: "yields (and_then (parse_modifiers [] ps1) (\<lambda>(mods, ps2). Inr (Index (ix k) mods, ps2))) k
      (sort_tokens ks @ rest)"
    if "feeds ps1 (print_modifiers (ix_modifiers k) @ sort_tokens ks @ rest)" for ps1
    using yields_modifiers [OF that mods, of "[]"] more
    by (intro yields_and_then) (auto simp: yields_Inr)
  have one: "yields (one_sort_key ps) k (sort_tokens ks @ rest)"
    using m i feeds_current [OF fd] unfolding one_sort_key_def
    by (auto intro!: yields_fetch [OF fd])
  have "yields (and_then (one_sort_key ps) (\<lambda>(i, ps'). sort_loop (acc @ [i]) ps')) (acc @ k # ks) rest"
    using Cons.IH [OF _ ks Cons.prems(3), of _ "acc @ [k]"]
    by (intro yields_and_then [OF one]) auto
  then show ?case
    using feeds_current [OF fd] feeds_not_Nil [OF fd] t by (simp add: sort_loop.simps [of acc ps])
qed

lemma yields_sort_query:
  assumes fd: "feeds ps (print_sort_keys ks @ rest)" and "ks \<noteq> []" and "list_all wf_sort_key ks" and "closes rest"
  shows "yields (sort_query ps) ks rest"
proof -
  have fd': "feeds ps (SORT_WORD # sort_tokens ks @ rest)"
    using fd assms(2) by (simp add: print_sort_keys_def sort_tokens_def)
  have "yields (if current ps1 = [] then Inl (Diagnostic 10 ''No sort keys supplied'' []) else sort_loop [] ps1) ks rest"
    if "feeds ps1 (sort_tokens ks @ rest)" for ps1
  proof -
    obtain k ks' where k: "ks = k # ks'" using assms(2) by (cases ks) auto
    then have "current ps1 \<noteq> []"
      using that feeds_not_Nil [of ps1] feeds_current [OF that] by (auto simp: sort_tokens_def)
    with yields_sort_loop [OF that assms(3,4), of "[]"] show ?thesis by simp
  qed
  then show ?thesis
    unfolding sort_query_def by (intro yields_fetch [OF fd']) simp
qed

lemma dict_set_new: "k \<notin> fst ` set d \<Longrightarrow> dict_set k v d = d @ [(k, v)]"
  unfolding dict_set_def by (induction d) auto

lemma uri_loop_stop:
  "feeds ps rest \<Longrightarrow> tok rest \<noteq> ''/'' \<Longrightarrow> u \<noteq> ''/'' \<Longrightarrow> yields (uri_loop [u] ps) [u] rest"
  by (simp add: uri_loop.simps [of "[u]"] feeds_current yields_Inr)

lemma yields_prefix_decl:
  assumes fd: "feeds ps (''>'' # (if name = [] then [] else [name, ''='']) @ ([quote_char] @ uri @ [quote_char]) # rest)"
    and wf: "wf_prefix (name, uri)" and rest: "tok rest \<noteq> ''/''" "tok rest \<noteq> ''=''"
  shows "yields (prefix_decl ps) (name, uri) rest"
proof -
  let ?u = "[quote_char] @ uri @ [quote_char]"
  from wf have low: "lower name = name" by (simp add: wf_prefix_def)
  have u: "?u \<noteq> ''/''" "is_quoted ?u" "unquote ?u = uri"
    by (simp_all add: is_quoted_def unquote_def)
  have tail: "yields (and_then (fetch_token ps4) (\<lambda>ps5. and_then (uri_loop [current ps4] ps5) (\<lambda>(identifier, ps6).
       let uri = concat identifier;
           uri' = (if length uri > 1 \<and> is_quoted uri then unquote uri else uri)
       in Inr ((lower name, uri'), ps6)))) (name, uri) rest"
    if fd4: "feeds ps4 (?u # rest)" for ps4
  proof (rule yields_fetch [OF fd4], unfold list.sel)
    fix ps5 assume "feeds ps5 rest"
    from uri_loop_stop [OF this rest(1) u(1)]
    show "yields (and_then (uri_loop [current ps4] ps5) (\<lambda>(identifier, ps6).
       let uri = concat identifier;
           uri' = (if length uri > 1 \<and> is_quoted uri then unquote uri else uri)
       in Inr ((lower name, uri'), ps6))) (name, uri) rest"
      unfolding feeds_current [OF fd4] tok_simps
      by (rule yields_and_then) (use u low in \<open>simp add: Let_def yields_Inr\<close>)
  qed
  show ?thesis
  proof (cases "name = []")
    case True
    with fd have fd: "feeds ps (''>'' # ?u # rest)" by simp
    show ?thesis unfolding prefix_decl_def
      by (rule yields_fetch [OF fd])
        (use tail True rest in \<open>simp add: feeds_upcoming\<close>)
  next
    case False
    with fd have fd: "feeds ps (''>'' # name # ''='' # ?u # rest)" by simp
    show ?thesis unfolding prefix_decl_def
    proof (rule yields_fetch [OF fd], unfold list.sel)
      fix ps1 assume f1: "feeds ps1 (name # ''='' # ?u # rest)"
      have "yields (and_then (fetch_token ps1) (\<lambda>ps2. and_then (fetch_token ps2) (\<lambda>ps3. Inr (current ps1, ps3))))
          name (?u # rest)"
        by (rule yields_fetch [OF f1], rule yields_fetch, assumption)
          (simp add: feeds_current [OF f1] yields_Inr)
      with f1 have "yields (if upcoming ps1 = ''='' then and_then (fetch_token ps1) (\<lambda>ps2.
          and_then (fetch_token ps2) (\<lambda>ps3. Inr (current ps1, ps3))) else Inr ([], ps1)) name (?u # rest)"
        by (simp add: feeds_upcoming)
      then show "yields (and_then (if upcoming ps1 = ''=''
               then and_then (fetch_token ps1) (\<lambda>ps2. and_then (fetch_token ps2) (\<lambda>ps3. Inr (current ps1, ps3)))
               else Inr ([], ps1)) (\<lambda>(name, ps4).
     and_then (fetch_token ps4) (\<lambda>ps5.
     and_then (uri_loop [current ps4] ps5) (\<lambda>(identifier, ps6).
       let uri = concat identifier;
           uri' = (if length uri > 1 \<and> is_quoted uri then unquote uri else uri)
       in Inr ((lower name, uri'), ps6))))) (name, uri) rest"
        by (rule yields_and_then) (use tail in simp)
    qed
  qed
qed

lemma yields_prefixes:
  "feeds ps (print_prefixes pfs @ rest) \<Longrightarrow> list_all wf_prefix pfs \<Longrightarrow> distinct (map fst (acc @ pfs)) \<Longrightarrow>
   tok rest \<notin> set [''>'', ''/'', ''=''] \<Longrightarrow> yields (parse_prefixes acc ps) (acc @ pfs) rest"
proof (induction pfs arbitrary: acc ps)
  case Nil
  then show ?case
    by (simp add: print_prefixes_def parse_prefixes.simps [of acc ps] feeds_current yields_Inr)
next
  case (Cons p pfs)
  obtain name uri where p: "p = (name, uri)" by (cases p)
  have fd: "feeds ps (''>'' # (if name = [] then [] else [name, ''='']) @ ([quote_char] @ uri @ [quote_char])
      # (print_prefixes pfs @ rest))"
    using Cons.prems(1) by (simp add: print_prefixes_def p split: if_splits)
  have t: "tok (print_prefixes pfs @ rest) \<noteq> ''/''" "tok (print_prefixes pfs @ rest) \<noteq> ''=''"
    using Cons.prems(4) by (cases pfs; auto simp: print_prefixes_def)+
  have one: "yields (prefix_decl ps) (name, uri) (print_prefixes pfs @ rest)"
    using Cons.prems(2) p by (intro yields_prefix_decl [OF fd _ t]) simp
  have "dict_set name uri acc = acc @ [p]"
    using Cons.prems(3) p by (intro dict_set_new [of name acc uri, folded p]) auto
  then have "yields (and_then (prefix_decl ps) (\<lambda>(kv, ps'). parse_prefixes (dict_set (fst kv) (snd kv) acc) ps'))
      (acc @ p # pfs) rest"
    using Cons.IH [of _ "acc @ [p]"] Cons.prems
    by (intro yields_and_then [OF one]) simp
  then show ?case
    using feeds_current [OF fd] by (simp add: parse_prefixes.simps [of acc ps])
qed

lemma add_prefixes_clause:
  "distinct (map fst (ps @ pfs)) \<Longrightarrow>
   add_prefixes pfs (SearchClause i r t ps ks) = SearchClause i r t (ps @ pfs) ks"
  by (induction pfs arbitrary: ps) (auto simp: add_prefixes_def add_prefix_def dict_set_new)

lemma add_prefixes_triple:
  "distinct (map fst (ps @ pfs)) \<Longrightarrow>
   add_prefixes pfs (Triple l b r ps ks) = Triple l b r (ps @ pfs) ks"
  by (induction pfs arbitrary: ps) (auto simp: add_prefixes_def add_prefix_def dict_set_new)

section \<open>Clauses and queries\<close>

lemma mk_term_next: "mk_term t = Inr t \<Longrightarrow> t \<noteq> ''/'' \<and> t \<notin> set ORDER \<or> t = []"
  by (auto simp: mk_term_def ORDER_def split: if_splits)

lemma yields_clause:
  assumes fd: "feeds ps (str_prefixed (ix i) # rel_token r # print_modifiers (rl_modifiers r) @ t # rest)"
    and wf: "wf_clause i r t"
  shows "yields (parse_clause ps) (SearchClause i r t [] []) rest"
proof -
  note w = wf [unfolded wf_clause_def Let_def]
  have t: "t \<noteq> []" "t \<noteq> ''/''" "t \<notin> set ORDER" "mk_term t = Inr t"
    using w mk_term_next [of t] lexable_not_Nil [of t] by auto
  have rt: "rel_token r \<noteq> []" using w lexable_not_Nil by blast
  have body: "yields (and_then (mk_term (current ps2)) (\<lambda>t.
          and_then (fetch_token ps2) (\<lambda>ps3. Inr (SearchClause i r t [] [], ps3))))
        (SearchClause i r t [] []) rest" if f2: "feeds ps2 (t # rest)" for ps2
    using t by (simp add: feeds_current [OF f2]) (rule yields_fetch [OF f2], simp add: yields_Inr)
  have "yields (parse_index_clause ps) (SearchClause i r t [] []) rest"
    unfolding parse_index_clause_def feeds_current [OF fd] tok_simps
  proof (simp add: w, rule yields_fetch [OF fd], unfold list.sel)
    fix ps1 assume f1: "feeds ps1 (rel_token r # print_modifiers (rl_modifiers r) @ t # rest)"
    have "yields (parse_relation ps1) r (t # rest)"
      by (rule yields_relation [OF f1]) (use w t in auto)
    then show "yields (and_then (parse_relation ps1) (\<lambda>(r, ps2).
       if current ps2 = [] then Inl (malformed ''Expected Term, got end of query.'')
       else and_then (mk_term (current ps2)) (\<lambda>t.
          and_then (fetch_token ps2) (\<lambda>ps3. Inr (SearchClause i r t [] [], ps3)))))
        (SearchClause i r t [] []) rest"
      by (rule yields_and_then) (use t body in \<open>simp add: feeds_current\<close>)
  qed
  then show ?thesis
    using w rt feeds_upcoming [OF fd] by (simp add: parse_clause.simps [of ps] Let_def)
qed

lemma set_no_sort_keys: "sort_keys q = [] \<Longrightarrow> set_sort_keys [] q = q"
  by (cases q) (auto simp: set_sort_keys_def)

lemma loop_stops: "feeds ps rest \<Longrightarrow> closes rest \<Longrightarrow> 0 < n \<Longrightarrow> yields (query_loop n q ps) q rest"
  using closes_token [of rest] by (cases n) (auto simp: feeds_current yields_Inr)

lemma is_boolean_sort: "\<not> is_boolean SORT_WORD" "is_sort SORT_WORD" "SORT_WORD \<noteq> []"
  by (simp_all add: is_boolean_def is_sort_def SORT_WORD_def BOOLEANS_def lower_def lower_char_def ord_def)

lemma yields_loop_sort:
  assumes fd: "feeds ps (print_sort_keys ks @ rest)" and ks: "list_all wf_sort_key ks"
    and rest: "closes rest" and n: "2 \<le> n" and q: "sort_keys q = []"
  shows "yields (query_loop n q ps) (set_sort_keys ks q) rest"
proof (cases "ks = []")
  case True
  with fd rest n loop_stops [of ps rest n q] set_no_sort_keys [OF q] show ?thesis
    by (simp add: print_sort_keys_def)
next
  case False
  from n obtain m where m: "n = Suc m" "0 < m" by (cases n) auto
  have "current ps = SORT_WORD"
    using fd False by (simp add: feeds_def print_sort_keys_def)
  moreover have "yields (and_then (sort_query ps) (\<lambda>(keys, ps1). query_loop m (set_sort_keys keys q) ps1))
      (set_sort_keys ks q) rest"
    using loop_stops rest m by (intro yields_and_then [OF yields_sort_query [OF fd False ks rest]]) simp
  ultimately show ?thesis
    using is_boolean_sort m by simp
qed

lemma yields_paren:
  assumes fd: "feeds ps (''('' # ts @ '')'' # rest)"
    and q: "\<And>ps1. feeds ps1 (ts @ '')'' # rest) \<Longrightarrow> yields (query_f n ps1) q ('')'' # rest)"
  shows "yields (sub_query_f (Suc n) ps) q rest"
proof -
  have close: "yields (if current ps2 = '')'' then and_then (fetch_token ps2) (\<lambda>ps3. Inr (q, ps3))
      else Inl (malformed (current ps2))) q rest" if f2: "feeds ps2 ('')'' # rest)" for ps2
    using feeds_current [OF f2] by simp (rule yields_fetch [OF f2], simp add: yields_Inr)
  have "yields (and_then (query_f n ps1) (\<lambda>(q, ps2).
      if current ps2 = '')'' then and_then (fetch_token ps2) (\<lambda>ps3. Inr (q, ps3))
      else Inl (malformed (current ps2)))) q rest" if f1: "feeds ps1 (ts @ '')'' # rest)" for ps1
    by (rule yields_and_then [OF q [OF f1]]) (use close in simp)
  then show ?thesis
    using feeds_current [OF fd] by simp (rule yields_fetch [OF fd], simp)
qed

lemma yields_prefixed_query:
  assumes fd: "feeds ps (print_prefixes pfs @ ts)" and pfs: "wf_prefixes pfs"
    and ts: "tok ts \<notin> set [''>'', ''/'', ''='']"
    and left: "\<And>ps1. feeds ps1 ts \<Longrightarrow> yields (sub_query_f n ps1) l suffix"
    and loop: "\<And>ps2. feeds ps2 suffix \<Longrightarrow> yields (query_loop n l ps2) q rest"
  shows "yields (query_f (Suc n) ps) (add_prefixes pfs q) rest"
proof -
  have p: "yields (parse_prefixes [] ps) pfs ts"
    using yields_prefixes [OF fd _ _ ts, of "[]"] pfs by (simp add: wf_prefixes_def)
  have l: "yields (and_then (query_loop n l ps2) (\<lambda>(left', ps3). Inr (add_prefixes pfs left', ps3)))
      (add_prefixes pfs q) rest" if "feeds ps2 suffix" for ps2
    by (rule yields_and_then [OF loop [OF that]]) (simp add: yields_Inr)
  have "yields (and_then (sub_query_f n ps1) (\<lambda>(left, ps2). and_then (query_loop n left ps2)
      (\<lambda>(left', ps3). Inr (add_prefixes pfs left', ps3)))) (add_prefixes pfs q) rest" if "feeds ps1 ts" for ps1
    by (rule yields_and_then [OF left [OF that]]) (use l in simp)
  then show ?thesis
    unfolding query_f.simps by (intro yields_and_then [OF p]) simp
qed

lemma clause_starts:
  assumes "wf_clause i r t"
  shows "str_prefixed (ix i) \<notin> set [''('', ''>'', ''/'', ''='']"
  using assms mk_index_not_order [of "str_prefixed (ix i)" i]
  by (auto simp: wf_clause_def Let_def ORDER_def)

lemma yields_query:
  "feeds ps (print_query q @ rest) \<Longrightarrow> wf_query q \<Longrightarrow> closes rest \<Longrightarrow> length (print_query q) \<le> n \<Longrightarrow>
   yields (query_f n ps) q rest"
proof (induction q arbitrary: ps rest n)
  case (SearchClause i r t pfs ks)
  from SearchClause.prems(4) obtain n' where n: "n = Suc n'" "2 \<le> n'" by (cases n) auto
  then obtain n'' where n': "n' = Suc n''" by (cases n') auto
  from SearchClause.prems(2) have wf: "wf_clause i r t" "wf_prefixes pfs" "list_all wf_sort_key ks" by auto
  define ts where "ts = str_prefixed (ix i) # rel_token r # print_modifiers (rl_modifiers r)
      @ t # print_sort_keys ks @ rest"
  have fd: "feeds ps (print_prefixes pfs @ ts)"
    using SearchClause.prems(1) by (simp add: ts_def)
  have start: "tok ts \<notin> set [''('', ''>'', ''/'', ''='']"
    using clause_starts [OF wf(1)] by (simp add: ts_def)
  have left: "yields (sub_query_f n' ps1) (SearchClause i r t [] []) (print_sort_keys ks @ rest)"
    if f: "feeds ps1 ts" for ps1
    using yields_clause [OF f [unfolded ts_def] wf(1)] feeds_current [OF f] start
    by (simp add: n' parse_prefixes.simps [of "[]" ps1])
  have loop: "yields (query_loop n' (SearchClause i r t [] []) ps2) (SearchClause i r t [] ks) rest"
    if f: "feeds ps2 (print_sort_keys ks @ rest)" for ps2
    using yields_loop_sort [OF f wf(3) SearchClause.prems(3) n(2), of "SearchClause i r t [] []"]
    by (simp add: set_sort_keys_def)
  have "yields (query_f n ps) (add_prefixes pfs (SearchClause i r t [] ks)) rest"
    unfolding n(1) by (rule yields_prefixed_query [OF fd wf(2) _ left loop]) (use start in auto)
  then show ?case
    using wf(2) by (simp add: add_prefixes_clause wf_prefixes_def)
next
  case (Triple l b r pfs ks)
  from Triple.prems(4) obtain n' where n: "n = Suc n'"
    "length (print_query l) + length (print_query r) + 4 \<le> n'" by (cases n) auto
  then obtain n'' where n': "n' = Suc n''" "length (print_query l) \<le> n''"
    "length (print_query r) \<le> n'' - 1" "3 \<le> n''"
    by (cases n') auto
  from Triple.prems(2) have wf: "wf_query l" "wf_boolean b" "wf_query r" "wf_prefixes pfs"
    "list_all wf_sort_key ks" by auto
  define after where "after = print_sort_keys ks @ rest"
  define suffix where "suffix = bool_value b # print_modifiers (bool_modifiers b) @ ''('' # print_query r @ '')'' # after"
  have fd: "feeds ps (print_prefixes pfs @ ''('' # print_query l @ '')'' # suffix)"
    using Triple.prems(1) by (simp add: suffix_def after_def)
  have left: "yields (sub_query_f n' ps1) l suffix" if "feeds ps1 (''('' # print_query l @ '')'' # suffix)" for ps1
    unfolding n'(1) by (rule yields_paren [OF that]) (use Triple.IH(1) wf(1) n'(2) in auto)
  have loop: "yields (query_loop n' l ps2) (Triple l b r [] ks) rest" if f: "feeds ps2 suffix" for ps2
  proof -
    have b: "yields (parse_boolean ps2) b (''('' # print_query r @ '')'' # after)"
      by (rule yields_boolean [OF f [unfolded suffix_def] wf(2)]) (simp_all add: ORDER_def)
    have right: "yields (sub_query_f n'' ps3) r after"
      if "feeds ps3 (''('' # print_query r @ '')'' # after)" for ps3
      using yields_paren [OF that, of "n'' - 1" r] Triple.IH(2) wf(3) n'(3,4) by (cases n'') auto
    have sort: "yields (query_loop n'' (Triple l b r [] []) ps4) (Triple l b r [] ks) rest"
      if "feeds ps4 after" for ps4
      using yields_loop_sort [OF that [unfolded after_def] wf(5) Triple.prems(3), of n'' "Triple l b r [] []"] n'(4)
      by (simp add: set_sort_keys_def)
    have step: "yields (and_then (sub_query_f n'' ps3) (\<lambda>(right, ps4). query_loop n'' (Triple l b right [] []) ps4))
        (Triple l b r [] ks) rest" if "feeds ps3 (''('' # print_query r @ '')'' # after)" for ps3
      by (rule yields_and_then [OF right [OF that]]) (use sort in simp)
    have "yields (and_then (parse_boolean ps2) (\<lambda>(b, ps3). and_then (sub_query_f n'' ps3)
        (\<lambda>(right, ps4). query_loop n'' (Triple l b right [] []) ps4))) (Triple l b r [] ks) rest"
      by (rule yields_and_then [OF b]) (use step in simp)
    moreover have "current ps2 \<noteq> []" "is_boolean (current ps2)"
      using feeds_current [OF f] feeds_not_Nil [OF f [unfolded suffix_def]] wf(2)
      by (auto simp: suffix_def wf_boolean_def is_boolean_def BOOLEANS_def lower_def lower_char_def ord_def)
    ultimately show ?thesis by (simp add: n'(1))
  qed
  have "yields (query_f n ps) (add_prefixes pfs (Triple l b r [] ks)) rest"
    unfolding n(1) by (rule yields_prefixed_query [OF fd wf(4) _ left loop]) auto
  then show ?case
    using wf(4) by (simp add: add_prefixes_triple wf_prefixes_def)
qed

section \<open>The whole text\<close>

lemma lexable_symbols: "list_all lexable (''('' # '')'' # ''/'' # ORDER)"
  by (simp add: ORDER_def lexable_def symbol_token_def strip_chars_def ord_def)

lemma lexable_order: "t \<in> set ORDER \<Longrightarrow> lexable t"
  using lexable_symbols by (auto simp: list_all_iff)

lemma lexable_printed_modifier: "wf_modifier m \<Longrightarrow> list_all lexable (print_modifier m)"
  using lexable_symbols
  by (cases "mcomp m = []") (simp_all add: wf_modifier_def print_modifier_def Let_def lexable_order)

lemma lexable_printed_modifiers: "list_all wf_modifier ms \<Longrightarrow> list_all lexable (print_modifiers ms)"
  by (induction ms) (auto simp: print_modifiers_def lexable_printed_modifier)

lemma letters: "set ''abcdefghijklmnopqrstuvwxyz.'' \<subseteq> set wordchars - set commenters"
  unfolding wordchars_def commenters_def by simp

lemma lexable_letters:
  assumes "t \<noteq> []" and "set t \<subseteq> set ''abcdefghijklmnopqrstuvwxyz.''"
  shows "lexable t"
proof -
  have "hd t \<in> set wordchars" "list_all word_char t"
    using assms letters hd_in_set [OF assms(1)] unfolding list_all_iff word_char_def by blast+
  moreover have "strip_chars t = t"
    unfolding strip_chars_def
  proof (rule filter_True, rule ballI)
    fix c assume "c \<in> set t"
    then have "c \<in> set ''abcdefghijklmnopqrstuvwxyz.''" using assms by blast
    then show "\<not> (ord c \<le> 8 \<or> ord c \<in> {11, 12} \<or> (14 \<le> ord c \<and> ord c \<le> 31) \<or> ord c = 127)"
      by (auto simp: ord_def)
  qed
  ultimately show ?thesis
    using assms(1) by (simp add: lexable_def plain_word_def)
qed

lemma lexable_words: "list_all lexable (SORT_WORD # BOOLEANS)"
  by (simp add: SORT_WORD_def BOOLEANS_def lexable_letters)

lemma lexable_printed_sort_keys: "list_all wf_sort_key ks \<Longrightarrow> list_all lexable (print_sort_keys ks)"
proof -
  assume ks: "list_all wf_sort_key ks"
  then have "list_all lexable (sort_tokens ks)"
    by (induction ks) (auto simp: sort_tokens_def wf_sort_key_def Let_def lexable_printed_modifiers)
  then show ?thesis
    using lexable_words by (simp add: print_sort_keys_def sort_tokens_def)
qed

lemma lexable_printed_prefixes: "wf_prefixes ps \<Longrightarrow> list_all lexable (print_prefixes ps)"
proof -
  assume "wf_prefixes ps"
  then have "list_all wf_prefix ps" by (simp add: wf_prefixes_def)
  then show ?thesis
    using lexable_order [of "''>''"] lexable_order [of "''=''"]
    by (induction ps) (auto simp: print_prefixes_def wf_prefix_def ORDER_def)
qed

lemma lexable_printed: "wf_query q \<Longrightarrow> list_all lexable (print_query q)"
proof (induction q)
  case (SearchClause i r t pfs ks)
  then show ?case
    using lexable_printed_prefixes [of pfs] lexable_printed_sort_keys [of ks]
      lexable_printed_modifiers [of "rl_modifiers r"]
    by (simp add: wf_clause_def Let_def)
next
  case (Triple l b r pfs ks)
  then have "lexable (bool_value b)"
    using lexable_words by (auto simp: wf_boolean_def list_all_iff)
  with Triple show ?case
    using lexable_printed_prefixes [of pfs] lexable_printed_sort_keys [of ks] lexable_symbols
      lexable_printed_modifiers [of "bool_modifiers b"]
    by (simp add: wf_boolean_def)
qed

lemma strip_spaced: "list_all lexable ts \<Longrightarrow> strip_chars (spaced ts) = spaced ts"
  by (induction ts) (auto simp: spaced_def lexable_def strip_chars_def ord_def)

lemma parse_spaced:
  assumes "wf_query q"
  shows "parse (spaced (print_query q)) = Inr q"
proof -
  note lex = lexable_printed [OF assms]
  obtain ps where i: "init_parser (init_lexer (spaced (print_query q))) = Inr ps"
    and fd: "feeds ps (print_query q)"
    using init_feeds [OF lex] by blast
  have "yields (parse_query ps) q []"
    unfolding parse_query_def query_fuel_def
    using yields_query [of ps q "[]"] fd feeds_psize [OF fd] assms by simp
  then obtain ps' where "parse_query ps = Inr (q, ps')" "feeds ps' []"
    by (auto simp: yields_def)
  then show ?thesis
    using i feeds_current [of ps' "[]"] by (simp add: parse_def strip_spaced [OF lex])
qed

end
