(* ===== verification/CqlProperties.thy ===== *)
theory CqlProperties
  imports CqlRoundtrip
begin

text \<open>
  What the SRU query path guarantees, as properties over the definitions of \<open>CqlLexer\<close>,
  \<open>CqlParser\<close> and \<open>CqlSearch\<close>: the parser answers every text, reads back every printed tree,
  the search string is well bracketed and exists exactly for the supported trees, the sort keys
  are converted one to one, and the result-set id is what its doc says, with the one case where
  it is not. The helper lemmas come first, then the properties.
\<close>

section \<open>Brackets of a search string\<close>

definition parens :: "string \<Rightarrow> string" where
  "parens s = filter (\<lambda>c. c \<in> {CHR ''('', CHR '')''}) s"

fun depth :: "nat \<Rightarrow> string \<Rightarrow> nat option" where
  "depth n [] = Some n"
| "depth n (c # cs) =
     (if c = CHR ''('' then depth (Suc n) cs
      else if c = CHR '')'' then (case n of 0 \<Rightarrow> None | Suc m \<Rightarrow> depth m cs)
      else depth n cs)"

definition balanced :: "string \<Rightarrow> bool" where
  "balanced s \<longleftrightarrow> depth 0 s = Some 0"

lemma depth_parens: "depth n (parens s) = depth n s"
  by (induction s arbitrary: n) (auto simp: parens_def split: nat.split)

lemma depth_append: "depth n s = Some m \<Longrightarrow> depth n (s @ t) = depth m t"
  by (induction s arbitrary: n) (auto split: nat.splits)

lemma depth_shift: "depth n s = Some m \<Longrightarrow> depth (n + k) s = Some (m + k)"
proof (induction s arbitrary: n)
  case (Cons c cs)
  then show ?case
    using Cons.IH [of "Suc n"] Cons.IH [of n] Cons.IH [of "n - 1"] by (cases n) (auto split: if_splits)
qed simp

lemma depth_balanced: "balanced s \<Longrightarrow> depth n (s @ t) = depth n t"
  using depth_append [of n s n t] depth_shift [of 0 s 0 n] by (simp add: balanced_def)

lemma parens_append [simp]: "parens (s @ t) = parens s @ parens t"
  by (simp add: parens_def)

lemma parens_Cons [simp]:
  "parens (c # s) = (if c = CHR ''('' \<or> c = CHR '')'' then c # parens s else parens s)"
  by (simp add: parens_def)

lemma parens_Nil [simp]: "parens [] = []"
  by (simp add: parens_def)

lemma balanced_parens: "balanced (parens s) = balanced s"
  by (simp add: balanced_def depth_parens)

lemma balanced_Nil [simp]: "balanced []"
  by (simp add: balanced_def)

lemma balanced_append: "balanced s \<Longrightarrow> balanced t \<Longrightarrow> balanced (s @ t)"
  using depth_balanced [of s 0 t] by (simp add: balanced_def)

lemma balanced_wrap: "balanced s \<Longrightarrow> balanced (''('' @ s @ '')'')"
  using depth_balanced [of s 1 "'')''"] by (simp add: balanced_def)

lemma parens_free: "set s \<inter> {CHR ''('', CHR '')''} = {} \<Longrightarrow> parens s = []"
  by (auto simp: parens_def filter_empty_conv)

lemma parens_join: "parens sep = [] \<Longrightarrow> parens (join sep ps) = concat (map parens ps)"
  by (induction ps) (auto simp: join_Cons)

lemma parens_dropWhile_space: "parens (dropWhile is_space s) = parens s"
proof (induction s)
  case (Cons c cs)
  then show ?case by (auto simp: parens_def is_space_def ord_def)
qed simp

lemma parens_rev: "parens (rev s) = rev (parens s)"
  by (simp add: parens_def rev_filter)

lemma parens_strip [simp]: "parens (strip s) = parens s"
  by (simp add: strip_def parens_rev parens_dropWhile_space)

lemma parens_remove_quote [simp]: "parens (remove_char quote_char s) = parens s"
  by (auto simp: parens_def remove_char_def intro: filter_cong)

lemma parens_rstrip_quote [simp]: "parens (rstrip_char quote_char s) = parens s"
proof -
  have "parens (dropWhile (\<lambda>x. x = quote_char) t) = parens t" for t
    by (induction t) (auto simp: parens_def)
  then show ?thesis by (simp add: rstrip_char_def parens_rev)
qed

lemma parens_split_str:
  "sep \<noteq> [] \<Longrightarrow> parens sep = [] \<Longrightarrow> concat (map parens (split_str sep acc s)) = parens (acc @ s)"
proof (induction sep acc s rule: split_str.induct)
  case (1 sep acc s)
  show ?case
  proof (cases "sep = [] \<or> s = []")
    case True
    with 1(3) 1(4) show ?thesis
      by (simp add: split_str.simps [of sep acc "[]"])
  next
    case False
    show ?thesis
    proof (cases "startswith s sep")
      case True
      then have "s = sep @ drop (length sep) s"
        by (metis append_take_drop_id startswith_def)
      then have "parens s = parens (drop (length sep) s)"
        using 1(4) parens_append by (metis append_Nil)
      with False True 1(1) [OF False True 1(3,4)] show ?thesis
        by (simp add: split_str.simps [of sep acc s])
    next
      case nostart: False
      have "parens s = parens [hd s] @ parens (tl s)"
        using False by (metis append_Cons append_Nil list.collapse parens_append)
      with False nostart 1(2) [OF False nostart 1(3,4)] show ?thesis
        by (simp add: split_str.simps [of sep acc s])
    qed
  qed
qed

lemma wrapped:
  assumes "startswith s [a]" and "endswith s [b]" and "a \<noteq> b"
  shows "s = [a] @ butlast (tl s) @ [b]"
proof -
  obtain u where u: "s = a # u"
    using assms(1) by (cases s) (auto simp: startswith_def)
  have "take (length s - 1) s @ [b] = s"
    using assms(2) append_take_drop_id [of "length s - 1" s] by (simp add: endswith_def)
  then obtain v where v: "s = v @ [b]" by metis
  from u v assms(3) obtain w where "v = a # w" by (cases v) auto
  with v show ?thesis by simp
qed

text \<open>A split field list keeps the brackets it was written with: every piece is prefixed by
  nothing and followed by the relation and the term, which have none.\<close>

lemma parens_index_term:
  assumes "parens t = []" and "parens relation0 = []"
  shows "parens (index_term mappings index0 relation0 t)
    = (let index1 = (case dict_get SEARCH_INDEX_MAPPINGS (lower index0) of Some x \<Rightarrow> x | None \<Rightarrow> index0);
           index = (case mappings index1 of Some x \<Rightarrow> x | None \<Rightarrow> index1)
       in parens index)"
proof -
  define index1 where "index1 = (case dict_get SEARCH_INDEX_MAPPINGS (lower index0) of Some x \<Rightarrow> x | None \<Rightarrow> index0)"
  define index where "index = (case mappings index1 of Some x \<Rightarrow> x | None \<Rightarrow> index1)"
  define rel where "rel = (if relation0 \<in> set [''='', ''all'', ''any''] then [] else relation0)"
  have rel: "parens rel = []" using assms(2) by (simp add: rel_def)
  have body: "index_term mappings index0 relation0 t =
     (if index = SERVER_CHOICE_INDEX then rel @ t
      else if startswith index ''('' \<and> endswith index '')''
        then ''('' @ join '' OR '' (map (\<lambda>f. strip f @ '':'' @ rel @ t)
                        (split_str '' OR '' [] (butlast (tl index)))) @ '')''
      else index @ '':'' @ rel @ t)"
    unfolding index_term_def Let_def index1_def index_def rel_def ..
  have sep: "parens '' OR '' = []" "parens '':'' = []" by (simp_all add: parens_def)
  have sc: "parens SERVER_CHOICE_INDEX = []" by (simp add: parens_def SERVER_CHOICE_INDEX_def)
  show ?thesis
  proof (cases "index = SERVER_CHOICE_INDEX")
    case True
    then show ?thesis
      using rel assms(1) sc unfolding body by (simp add: Let_def index1_def [symmetric] index_def [symmetric])
  next
    case nsc: False
    show ?thesis
    proof (cases "startswith index ''('' \<and> endswith index '')''")
      case True
      define inner where "inner = butlast (tl index)"
      have index: "index = ''('' @ inner @ '')''"
        unfolding inner_def using True by (intro wrapped) simp_all
      have "concat (map (\<lambda>f. parens (strip f @ '':'' @ rel @ t)) (split_str '' OR '' [] inner)) = parens inner"
        using parens_split_str [OF _ sep(1), of "[]" inner] rel assms(1) sep by simp
      then have "parens (index_term mappings index0 relation0 t) = parens index"
        using nsc True unfolding body inner_def [symmetric]
        by (simp add: parens_join [OF sep(1)] o_def index)
      then show ?thesis by (simp add: Let_def index1_def [symmetric] index_def [symmetric])
    next
      case False
      have "index_term mappings index0 relation0 t = index @ '':'' @ rel @ t"
        unfolding body if_not_P [OF nsc] if_not_P [OF False] ..
      then have "parens (index_term mappings index0 relation0 t) = parens index"
        using rel assms(1) by simp
      then show ?thesis by (simp add: Let_def index1_def [symmetric] index_def [symmetric])
    qed
  qed
qed

text \<open>The long entries of the table are checked piece by piece.\<close>

lemma balanced_mapping_table: "list_all (\<lambda>(k, v). balanced (parens v)) SEARCH_INDEX_MAPPINGS"
  unfolding SEARCH_INDEX_MAPPINGS_def list.pred_inject prod.case parens_append
  by (simp add: balanced_def)

lemma balanced_index_term:
  assumes "parens t = []" and "parens relation0 = []" and "parens index0 = []"
    and m: "\<And>x y. mappings x = Some y \<Longrightarrow> balanced y"
  shows "balanced (index_term mappings index0 relation0 t)"
proof -
  have "balanced y" if "dict_get SEARCH_INDEX_MAPPINGS x = Some y" for x y
    using that balanced_mapping_table
    by (auto simp: dict_get_def list_all_iff balanced_parens dest!: map_of_SomeD)
  moreover have "balanced index0"
    using assms(3) balanced_parens [of index0] by simp
  ultimately have "balanced (parens (index_term mappings index0 relation0 t))"
    using m unfolding parens_index_term [OF assms(1,2)] Let_def balanced_parens
    by (simp split: option.split)
  then show ?thesis by (simp add: balanced_parens)
qed

lemma parens_trim_quotes: "concat (map parens (trim_quotes ts)) = concat (map parens ts)"
proof (cases ts)
  case (Cons x xs)
  let ?ys = "remove_char quote_char x # xs"
  have "concat (map parens (butlast ?ys @ [rstrip_char quote_char (last ?ys)]))
      = concat (map parens (butlast ?ys @ [last ?ys]))"
    by simp
  also have "\<dots> = concat (map parens ?ys)" by (subst append_butlast_last_id) simp_all
  finally show ?thesis by (simp add: trim_quotes_def Cons Let_def)
qed (simp add: trim_quotes_def)

lemma balanced_concat: "list_all balanced ss \<Longrightarrow> balanced (concat ss)"
  by (induction ss) (simp_all add: balanced_append)

lemma parens_order: "r \<in> set ORDER \<Longrightarrow> parens r = []"
  by (auto simp: ORDER_def)

lemma parens_split_char: "parens s = [] \<Longrightarrow> p \<in> set (split_char c s) \<Longrightarrow> parens p = []"
proof (induction s arbitrary: p)
  case (Cons x xs)
  then show ?case
    by (cases "split_char c xs") (auto split: if_splits)
qed simp

lemma balanced_words:
  assumes "parens t = []" and "parens rel = []" and "parens ind = []"
    and "\<And>x y. mappings x = Some y \<Longrightarrow> balanced y" and "parens sep = []"
  shows "balanced (''('' @ join sep (trim_quotes (map (index_term mappings ind rel) (split_char c t))) @ '')'')"
proof (rule balanced_wrap)
  have "list_all balanced (map (parens \<circ> index_term mappings ind rel) (split_char c t))"
    using assms parens_split_char [OF assms(1)]
    by (auto simp: list_all_iff balanced_parens intro!: balanced_index_term)
  from balanced_concat [OF this]
  have "balanced (concat (map parens (trim_quotes (map (index_term mappings ind rel) (split_char c t)))))"
    by (simp add: parens_trim_quotes)
  then show "balanced (join sep (trim_quotes (map (index_term mappings ind rel) (split_char c t))))"
    using parens_join [OF assms(5)] balanced_parens by metis
qed

fun bracket_free :: "query \<Rightarrow> bool" where
  "bracket_free (SearchClause i r t ps ks) = (parens (str_prefixed (ix i)) = [] \<and> parens t = [])"
| "bracket_free (Triple l b r ps ks) = (bracket_free l \<and> bracket_free r)"

lemma balanced_clause:
  assumes "clause_to_search mappings i r t = Inr s" and "parens (str_prefixed (ix i)) = []"
    and "parens t = []" and m: "\<And>x y. mappings x = Some y \<Longrightarrow> balanced y"
  shows "balanced s"
proof -
  from assms(1) obtain ind rel where ind: "index_to_search i = Inr ind" and rel: "relation_to_search r = Inr rel"
    and s: "(if rel = ''<>'' then
         (let t' = (if startswith t [quote_char] \<and> endswith t [quote_char] then t
                    else [quote_char] @ t @ [quote_char])
          in Inr (index_term mappings ind ''-'' t'))
       else if rel \<in> set ORDER then Inr (index_term mappings ind rel t)
       else
         let texts = trim_quotes (map (index_term mappings ind rel) (split_char (CHR '' '') t)) in
         if rel = ''any'' then Inr (''('' @ join '' OR '' texts @ '')'')
         else if rel = ''all'' then Inr (''('' @ join '' AND '' texts @ '')'')
         else Inl (Diagnostic 19 ''Unsupported relation'' rel)) = Inr s"
    by (auto simp: clause_to_search_def and_then_eq_Inr)
  from ind have i: "parens ind = []"
    using assms(2) by (auto simp: index_to_search_def Let_def split: if_splits)
  consider "rel = ''<>''" | "rel \<noteq> ''<>''" "rel \<in> set ORDER" | "rel = ''any''" | "rel = ''all''"
    | "rel \<notin> set ORDER" "rel \<noteq> ''any''" "rel \<noteq> ''all''" by blast
  then show ?thesis
  proof cases
    case 1
    with s i assms(3) m show ?thesis by (auto simp: Let_def intro!: balanced_index_term split: if_splits)
  next
    case 2
    with s i assms(3) m parens_order show ?thesis by (auto intro!: balanced_index_term)
  next
    case 3
    with s balanced_words [where t = t and rel = "''any''" and ind = ind and mappings = mappings and sep = "'' OR ''"
        and c = "CHR '' ''"] i assms(3) m show ?thesis
      by (simp add: ORDER_def Let_def)
  next
    case 4
    with s balanced_words [where t = t and rel = "''all''" and ind = ind and mappings = mappings and sep = "'' AND ''"
        and c = "CHR '' ''"] i assms(3) m show ?thesis
      by (simp add: ORDER_def Let_def)
  next
    case 5
    with s show ?thesis by (auto simp: ORDER_def Let_def split: if_splits)
  qed
qed

lemma ord_inject: "ord c = ord d \<longleftrightarrow> c = d"
  by (simp add: ord_def)

lemma bracket_ord: "c = CHR ''('' \<longleftrightarrow> ord c = 40" "c = CHR '')'' \<longleftrightarrow> ord c = 41"
  using ord_inject [of c "CHR ''(''"] ord_inject [of c "CHR '')''"] by (auto simp: ord_def)

lemma parens_upper: "parens (upper_ascii s) = parens s"
proof (induction s)
  case (Cons c s)
  define d where "d = (if 97 \<le> ord c \<and> ord c \<le> 122 then char_of (ord c - 32) else c)"
  have "d = c \<or> (d \<noteq> CHR ''('' \<and> d \<noteq> CHR '')'' \<and> c \<noteq> CHR ''('' \<and> c \<noteq> CHR '')'')"
  proof (cases "97 \<le> ord c \<and> ord c \<le> 122")
    case True
    then have "ord c - 32 < 256" by linarith
    with True have "ord d = ord c - 32" using ord_char_of [of "ord c - 32"] by (simp add: d_def)
    with True have "ord d \<ge> 65" "ord c \<ge> 97" by linarith+
    then show ?thesis by (simp add: bracket_ord)
  qed (auto simp: d_def)
  then have "parens [d] = parens [c]" by auto
  moreover have "parens (upper_ascii (c # s)) = parens [d] @ parens (upper_ascii s)"
    unfolding parens_append [symmetric] by (simp add: upper_ascii_def d_def)
  moreover have "parens (c # s) = parens [c] @ parens s" unfolding parens_append [symmetric] by simp
  ultimately show ?case using Cons by simp
qed (simp add: upper_ascii_def)

lemma parens_upper_bool: "b \<in> set BOOLEANS \<Longrightarrow> parens (upper_ascii b) = []"
  by (auto simp: parens_upper BOOLEANS_def)

fun known_booleans :: "query \<Rightarrow> bool" where
  "known_booleans (SearchClause i r t ps ks) = True"
| "known_booleans (Triple l b r ps ks) =
     (bool_value b \<in> set BOOLEANS \<and> known_booleans l \<and> known_booleans r)"

section \<open>Which trees have a search string\<close>

definition only_modifiers :: "string list \<Rightarrow> modifier list \<Rightarrow> bool" where
  "only_modifiers names ms \<longleftrightarrow> list_all (\<lambda>m. modifier_name m \<in> set names) ms"

fun searchable :: "query \<Rightarrow> bool" where
  "searchable (SearchClause i r t ps ks) =
     (only_modifiers (map fst SEARCH_SORT_MODIFIERS @ map fst SUPPORTED_RELATION_MODIFIERS) (ix_modifiers i)
      \<and> only_modifiers (map fst SUPPORTED_RELATION_MODIFIERS) (rl_modifiers r)
      \<and> pvalue (rl r) \<in> set (ORDER @ [''any'', ''all'']))"
| "searchable (Triple l b r ps ks) =
     (bool_modifiers b = [] \<and> bool_value b \<noteq> ''prox'' \<and> searchable l \<and> searchable r)"

lemma collect_none: "collect_unsupported_modifiers ms names = [] \<longleftrightarrow> only_modifiers names ms"
  by (induction ms) (simp_all add: collect_unsupported_modifiers_def only_modifiers_def Let_def split: option.split)

lemma index_to_search_Inr:
  "index_to_search i = Inr x \<longleftrightarrow> x = str_prefixed (ix i) \<and>
     only_modifiers (map fst SEARCH_SORT_MODIFIERS @ map fst SUPPORTED_RELATION_MODIFIERS) (ix_modifiers i)"
  by (cases "ix_modifiers i") (auto simp: index_to_search_def Let_def collect_none only_modifiers_def [of _ "[]"])

lemma relation_to_search_Inr:
  "relation_to_search r = Inr x \<longleftrightarrow> x = pvalue (rl r) \<and>
     only_modifiers (map fst SUPPORTED_RELATION_MODIFIERS) (rl_modifiers r)"
  by (cases "rl_modifiers r") (auto simp: relation_to_search_def Let_def collect_none only_modifiers_def [of _ "[]"])

lemma clause_searchable:
  "(\<exists>s. clause_to_search mappings i r t = Inr s) \<longleftrightarrow> searchable (SearchClause i r t ps ks)"
  by (auto simp: clause_to_search_def and_then_eq_Inr index_to_search_Inr relation_to_search_Inr Let_def
      ORDER_def split: if_splits)

lemma searchable_search:
  "(\<exists>s. to_search mappings q = Inr s) \<longleftrightarrow> searchable q"
proof (induction q)
  case (SearchClause i r t ps ks)
  show ?case using clause_searchable [of mappings i r t ps ks] by (simp only: to_search.simps)
next
  case (Triple l b r ps ks)
  then show ?case
    by (cases "bool_value b = ''not''") (auto simp: and_then_eq_Inr boolean_to_search_def)
qed

lemma search_errors: "to_search mappings q = Inl e \<Longrightarrow> \<exists>c m d. e = Diagnostic c m d \<and> c \<in> {19, 21, 37}"
proof (induction q)
  case (SearchClause i r t ps ks)
  then show ?case
    by (auto simp: clause_to_search_def and_then_eq_Inl index_to_search_def relation_to_search_def Let_def
        split: if_splits)
next
  case (Triple l b r ps ks)
  then show ?case
    by (auto simp: and_then_eq_Inl boolean_to_search_def split: if_splits)
qed

lemma balanced_search:
  assumes m: "\<And>x y. mappings x = Some y \<Longrightarrow> balanced y"
  shows "to_search mappings q = Inr s \<Longrightarrow> bracket_free q \<Longrightarrow> known_booleans q \<Longrightarrow> balanced s"
proof (induction q arbitrary: s)
  case (SearchClause i r t ps ks)
  then show ?case using balanced_clause [OF _ _ _ m] by simp
next
  case (Triple l b r ps ks)
  then obtain left right where l: "to_search mappings l = Inr left" "balanced left"
    and r: "to_search mappings r = Inr right" "balanced right"
    and s: "s = ''('' @ (left @ '' AND NOT '' @ right) @ '')''
      \<or> s = ''('' @ (left @ '' '' @ upper_ascii (bool_value b) @ '' '' @ right) @ '')''"
    by (auto simp: and_then_eq_Inr boolean_to_search_def split: if_splits)
  have up: "parens (upper_ascii (bool_value b)) = []"
    using Triple.prems by (simp add: parens_upper_bool)
  have "balanced (left @ '' AND NOT '' @ right)"
    using l r by (intro balanced_append) (simp_all add: balanced_def)
  moreover have "balanced (left @ '' '' @ upper_ascii (bool_value b) @ '' '' @ right)"
    using l r up balanced_parens [of "upper_ascii (bool_value b)"]
    by (intro balanced_append) (simp_all add: balanced_def)
  ultimately show ?case using s balanced_wrap by blast
qed

section \<open>The booleans of a parsed tree\<close>

lemma known_add_prefixes [simp]: "known_booleans (add_prefixes ps q) = known_booleans q"
proof -
  have "known_booleans (add_prefix k v q') = known_booleans q'" for k v q'
    by (cases q') (simp_all add: add_prefix_def)
  then show ?thesis
    unfolding add_prefixes_def by (induction ps arbitrary: q) auto
qed

lemma known_set_sort_keys [simp]: "known_booleans (set_sort_keys ks q) = known_booleans q"
  by (cases q) (simp_all add: set_sort_keys_def)

lemma parse_boolean_known: "parse_boolean ps = Inr (b, ps') \<Longrightarrow> bool_value b \<in> set BOOLEANS"
  by (auto simp: parse_boolean_def Let_def and_then_eq_Inr split: if_splits)

lemma parse_clause_known: "parse_clause ps = Inr (q, ps') \<Longrightarrow> known_booleans q"
proof (induction ps arbitrary: q ps' rule: parse_clause.induct)
  case (1 ps)
  let ?b = "is_boolean (upcoming ps)" and ?s = "is_sort (upcoming ps)"
  let ?c1 = "\<not> ?s \<and> \<not> ?b \<and> upcoming ps \<notin> set ['')'', ''('', []]"
  let ?c2 = "current ps \<noteq> [] \<and> (?b \<or> ?s \<or> upcoming ps \<in> set ['')'', []])"
  consider (index) "parse_index_clause ps = Inr (q, ps')"
    | (choice) "server_choice_clause ps = Inr (q, ps')"
    | (pref) "\<not> ?c1" "\<not> ?c2" "current ps = ''>''"
      "and_then (parse_prefixes [] ps) (\<lambda>(prefs, ps').
             and_then (parse_clause ps') (\<lambda>(q, ps''). Inr (add_prefixes prefs q, ps''))) = Inr (q, ps')"
    using "1.prems" unfolding parse_clause.simps [of ps] Let_def
    by (simp split del: if_split split: if_splits)
  then show ?case
  proof cases
    case pref
    from pref(4) obtain prefs ps1 q1 ps2 where p: "parse_prefixes [] ps = Inr (prefs, ps1)"
      and c: "parse_clause ps1 = Inr (q1, ps2)" and e: "q = add_prefixes prefs q1"
      by (auto simp: and_then_eq_Inr)
    from "1.IH" [OF refl refl pref(1-3) p refl c] e show ?thesis by simp
  qed (auto simp: parse_index_clause_def server_choice_clause_def and_then_eq_Inr split: if_splits)
qed

lemma query_known:
  "query_f n ps = Inr (q, ps') \<Longrightarrow> known_booleans q"
  "query_loop n left ps = Inr (q, ps') \<Longrightarrow> known_booleans left \<Longrightarrow> known_booleans q"
  "sub_query_f n ps = Inr (q, ps') \<Longrightarrow> known_booleans q"
proof (induction n ps and n left ps and n ps arbitrary: q ps' and q ps' and q ps'
    rule: query_f_query_loop_sub_query_f.induct)
  case (2 n ps)
  from "2.prems" obtain prefs ps1 l ps2 l' where "parse_prefixes [] ps = Inr (prefs, ps1)"
    "sub_query_f n ps1 = Inr (l, ps2)" "query_loop n l ps2 = Inr (l', ps')" "q = add_prefixes prefs l'"
    by (auto simp: and_then_eq_Inr)
  with "2.IH" show ?case by fastforce
next
  case (4 n left ps)
  from "4.prems"(1) consider "q = left"
    | b ps1 r ps2 where "current ps \<noteq> []" "is_boolean (current ps)" "parse_boolean ps = Inr (b, ps1)"
        "sub_query_f n ps1 = Inr (r, ps2)" "query_loop n (Triple left b r [] []) ps2 = Inr (q, ps')"
    | ks ps1 where "current ps \<noteq> []" "\<not> is_boolean (current ps)" "is_sort (current ps)"
        "sort_query ps = Inr (ks, ps1)" "query_loop n (set_sort_keys ks left) ps1 = Inr (q, ps')"
    by (auto simp: and_then_eq_Inr split: if_splits)
  then show ?case
  proof cases
    case 2
    from "4.IH"(1) [OF 2(1,2,3) refl 2(4)] "4.IH"(2) [OF 2(1,2,3) refl 2(4) refl 2(5)] "4.prems"(2)
      parse_boolean_known [OF 2(3)] show ?thesis by simp
  next
    case 3
    from "4.IH"(3) [OF 3(1-4) refl 3(5)] "4.prems"(2) show ?thesis by simp
  qed (use "4.prems"(2) in simp)
next
  case (6 n ps)
  show ?case
  proof (cases "current ps = ''(''")
    case True
    with "6.prems" obtain ps1 ps2 where "fetch_token ps = Inr ps1" "query_f n ps1 = Inr (q, ps2)"
      by (auto simp: and_then_eq_Inr split: if_splits)
    with "6.IH"(1) [OF True] show ?thesis by blast
  next
    case False
    with "6.prems" obtain prefs ps1 where p: "parse_prefixes [] ps = Inr (prefs, ps1)"
      and r: "(if prefs \<noteq> [] then
                 and_then (query_f n ps1) (\<lambda>(q, ps2). Inr (add_prefixes prefs q, ps2))
               else parse_clause ps1) = Inr (q, ps')"
      by (auto simp: and_then_eq_Inr)
    show ?thesis
    proof (cases "prefs = []")
      case True
      with r parse_clause_known show ?thesis by auto
    next
      case nonempty: False
      with r obtain q1 where "query_f n ps1 = Inr (q1, ps')" "q = add_prefixes prefs q1"
        by (auto simp: and_then_eq_Inr)
      with "6.IH"(2) [OF False p refl nonempty] show ?thesis by simp
    qed
  qed
qed simp_all

lemma parse_known: "parse s = Inr q \<Longrightarrow> known_booleans q"
  by (auto simp: parse_def parse_query_def and_then_eq_Inr split: if_splits dest: query_known(1))

section \<open>Result sets\<close>

text \<open>The id every leaf of the tree refers to, whatever the booleans between them.\<close>

fun leaf_ids :: "(string, string) dict list \<Rightarrow> query \<Rightarrow> string list" where
  "leaf_ids scopes (SearchClause i r t ps ks) = [clause_result_set_id (ps # scopes) i r t]"
| "leaf_ids scopes (Triple l b r ps ks) = leaf_ids (ps # scopes) l @ leaf_ids (ps # scopes) r"

fun and_or_only :: "query \<Rightarrow> bool" where
  "and_or_only (SearchClause i r t ps ks) = True"
| "and_or_only (Triple l b r ps ks) =
     (bool_value b \<notin> set [''not'', ''prox''] \<and> and_or_only l \<and> and_or_only r)"

lemma leaf_ids_not_Nil: "leaf_ids scopes q \<noteq> []"
  by (induction q arbitrary: scopes) auto

lemma result_set_leaves_and_or: "and_or_only q \<Longrightarrow> result_set_leaves scopes q = leaf_ids scopes q"
  by (induction q arbitrary: scopes) auto

text \<open>Every leaf lies below a NOT or a PROX.\<close>

fun all_excluded :: "query \<Rightarrow> bool" where
  "all_excluded (SearchClause i r t ps ks) = False"
| "all_excluded (Triple l b r ps ks) =
     (bool_value b \<in> set [''not'', ''prox''] \<or> (all_excluded l \<and> all_excluded r))"

lemma result_set_leaves_Nil: "result_set_leaves scopes q = [] \<longleftrightarrow> all_excluded q"
  by (induction q arbitrary: scopes) auto

fun root_excludes :: "query \<Rightarrow> bool" where
  "root_excludes (SearchClause i r t ps ks) = False"
| "root_excludes (Triple l b r ps ks) = (bool_value b \<in> set [''not'', ''prox''])"

section \<open>Sort keys\<close>

definition sort_words :: "string list" where
  "sort_words = [''ascending'', ''descending'', ''missinglow'', ''missinghigh'', ''missingomit'']"

text \<open>The order a key asks for: the last of its direction modifiers, ascending without one.\<close>

definition asked_order :: "modifier list \<Rightarrow> string" where
  "asked_order ms =
     (let ds = filter (\<lambda>w. w \<in> {''ascending'', ''descending''}) (map modifier_name ms)
      in if ds \<noteq> [] \<and> last ds = ''descending'' then ''desc'' else ''asc'')"

lemma sort_modifiers_Inl:
  "sort_modifiers ms dir pre = Inl e \<Longrightarrow> \<exists>w. e = Diagnostic 21 ''Unsupported sort modifier'' w \<and> w \<notin> set sort_words"
  by (induction ms dir pre rule: sort_modifiers.induct)
    (auto simp: Let_def sort_words_def split: if_splits)

lemma sort_modifiers_total:
  "(\<exists>r. sort_modifiers ms dir pre = Inr r) \<longleftrightarrow> only_modifiers sort_words ms"
  by (induction ms dir pre rule: sort_modifiers.induct)
    (auto simp: Let_def sort_words_def only_modifiers_def)

lemma sort_modifiers_order:
  "sort_modifiers ms dir pre = Inr (d, p) \<Longrightarrow>
   d = (let ds = filter (\<lambda>w. w \<in> {''ascending'', ''descending''}) (map modifier_name ms)
        in if ds = [] then dir else if last ds = ''descending'' then ''desc'' else ''asc'')"
proof (induction ms dir pre rule: sort_modifiers.induct)
  case (2 m ms dir pre)
  then show ?case by (simp add: Let_def split: if_splits)
qed simp

lemma convert_sort_key_order:
  assumes "convert_sort_key k = Inr s"
  shows "order s = asked_order (ix_modifiers k)"
proof -
  obtain d p where "sort_modifiers (ix_modifiers k) ''asc'' None = Inr (d, p)" and "order s = d"
    using assms by (auto simp: convert_sort_key_def and_then_eq_Inr Let_def split: if_splits)
  with sort_modifiers_order [of "ix_modifiers k" "''asc''" None d p] show ?thesis
    by (auto simp: asked_order_def Let_def)
qed

lemma convert_sort_key_total: "(\<exists>s. convert_sort_key k = Inr s) \<longleftrightarrow> only_modifiers sort_words (ix_modifiers k)"
proof -
  have "(\<exists>s. convert_sort_key k = Inr s) \<longleftrightarrow> (\<exists>r. sort_modifiers (ix_modifiers k) ''asc'' None = Inr r)"
    by (cases "sort_modifiers (ix_modifiers k) ''asc'' None")
      (simp_all add: convert_sort_key_def Let_def split: prod.split if_split)
  with sort_modifiers_total [of "ix_modifiers k" "''asc''" None] show ?thesis by (simp only:)
qed

lemma map_result_total: "(\<exists>ys. map_result f xs = Inr ys) \<longleftrightarrow> list_all (\<lambda>x. \<exists>y. f x = Inr y) xs"
  by (induction xs) (auto simp: and_then_eq_Inr)

section \<open>Comments\<close>

lemma dropWhile_line: "newline \<notin> set s \<Longrightarrow> dropWhile (\<lambda>c. c \<noteq> newline) s = []"
  by auto

lemma read_word_comment:
  "list_all word_char w \<Longrightarrow> t \<noteq> [] \<Longrightarrow> newline \<notin> set s \<Longrightarrow>
   read_loop (lexing (w @ CHR ''#'' # s) (CHR ''a'') t) = read_loop (lexing w (CHR ''a'') t)"
proof (induction w arbitrary: t)
  case Nil
  have h: "CHR ''#'' \<notin> set whitespace" "CHR ''#'' \<in> set commenters" "CHR ''a'' \<noteq> CHR ''<''"
    by (simp_all add: whitespace_def commenters_def)
  have "read_loop (lexing (CHR ''#'' # s) (CHR ''a'') t) = read_loop (lexing [] (CHR ''a'') t)"
    using Nil(2) h
    by (simp add: dropWhile_line [OF Nil(3)] turn_simps [of "lexing (CHR ''#'' # s) (CHR ''a'') t"] read_token_word_def letter_class readline_def)
  then show ?case by simp
next
  case (Cons c w)
  then have c: "word_char c" and w: "list_all word_char w" by auto
  from word_char_not_whitespace [OF c] c Cons.IH [OF w, of "t @ [c]"] Cons.prems show ?case
    by (simp add: turn_simps [of "lexing (c # w @ CHR ''#'' # s) (CHR ''a'') t"]
        turn_simps [of "lexing (c # w) (CHR ''a'') t"] read_token_word_def word_char_def quotes_def)
qed

section \<open>The properties\<close>

text \<open>
  C1. Every text is answered: \<open>parse\<close> ends on every string, with a tree whose booleans are and,
  or, not or prox, or with a \<open>Diagnostic\<close>; it never raises another exception (no \<open>IndexError\<close>
  of the lexer) and no loop of lexer or parser runs for ever (\<open>NoReturn\<close> is no diagnostic).
\<close>

theorem every_query_is_answered: "outcome is_diagnostic known_booleans (parse s)"
  using parse_outcome [of s] parse_known [of s] by (cases "parse s") auto

text \<open>
  C2. Round trip: a tree written out as CQL text (prefix declarations, indexes, relations with
  modifiers, terms, booleans with modifiers between bracketed operands, sort keys) is parsed
  back to exactly that tree, with the fuel the model gives to \<open>query\<close>.
\<close>

theorem parse_print:
  assumes "wf_query q"
  shows "parse (spaced (print_query q)) = Inr q"
  by (rule parse_spaced [OF assms])

definition sample_query :: "query" where
  "sample_query =
     Triple
       (SearchClause (Index \<lparr>pref = ''dc'', pvalue = ''title''\<rparr> []) (Relation \<lparr>pref = ''cql'', pvalue = ''any''\<rparr> [])
          ''fish'' [(''dc'', ''info:dc'')] [])
       (Boolean ''not'' [])
       (SearchClause (Index \<lparr>pref = ''dc'', pvalue = ''date''\<rparr> []) (Relation \<lparr>pref = ''cql'', pvalue = ''>=''\<rparr> [])
          ''year'' [] [])
       []
       [Index \<lparr>pref = ''dc'', pvalue = ''date''\<rparr>
          [ModifierClause \<lparr>pref = ''cql'', pvalue = ''descending''\<rparr> [] []]]"

theorem parse_print_witness: "parse (spaced (print_query sample_query)) = Inr sample_query"
proof (rule parse_print)
  show "wf_query sample_query" unfolding sample_query_def by code_simp
qed

text \<open>
  C3. Which trees have a search string: exactly those whose booleans have no modifiers and are
  not prox, and whose clauses use a supported relation and supported modifiers. All the others
  get a diagnostic with one of the codes 19 (relation), 21 (modifier) or 37 (boolean).
\<close>

theorem search_string_exists:
  "outcome (\<lambda>e. \<exists>c m d. e = Diagnostic c m d \<and> c \<in> {19, 21, 37}) (\<lambda>t. True) (to_search mappings q)
   \<and> ((\<exists>t. to_search mappings q = Inr t) \<longleftrightarrow> searchable q)"
  using search_errors [of mappings q] searchable_search [of mappings q]
  by (cases "to_search mappings q") auto

text \<open>
  The search string of a tree is well bracketed: with terms and index names free of
  parentheses and well bracketed field mappings, every opening parenthesis that the nesting of
  booleans, the field lists and the any/all expansions write is closed.
\<close>

theorem search_brackets:
  assumes "to_search mappings q = Inr s" and "known_booleans q" and "bracket_free q"
    and "\<And>x y. mappings x = Some y \<Longrightarrow> balanced y"
  shows "balanced s"
  by (rule balanced_search [OF assms(4) assms(1,3,2)])

theorem search_brackets_witness:
  "balanced ''(language.value:fish AND NOT provisionActivity.type:bf AND provisionActivity.startDate:>=year)''"
proof (rule search_brackets [where mappings = "\<lambda>x. if x = ''bib.date'' then Some ''provisionActivity.type:bf AND provisionActivity.startDate'' else None"
      and q = "Triple
       (SearchClause (Index \<lparr>pref = ''dc'', pvalue = ''language''\<rparr> []) (Relation \<lparr>pref = ''cql'', pvalue = ''=''\<rparr> [])
          ''fish'' [] [])
       (Boolean ''not'' [])
       (SearchClause (Index \<lparr>pref = ''bib'', pvalue = ''date''\<rparr> []) (Relation \<lparr>pref = ''cql'', pvalue = ''>=''\<rparr> [])
          ''year'' [] []) [] []"])
qed (code_simp, code_simp, code_simp, auto simp: balanced_def split: if_splits)

text \<open>
  Sort keys: a list of sort keys is converted exactly when all their modifiers are known
  sort modifiers (after a prefix), and then each key gives one entry, in order, whose direction
  is the one its last ascending or descending modifier asks for, ascending by default.
\<close>

theorem sort_keys_converted:
  "((\<exists>specs. convert_sort_keys_to_search keys = Inr specs)
      \<longleftrightarrow> list_all (\<lambda>k. only_modifiers sort_words (ix_modifiers k)) keys)
   \<and> outcome (\<lambda>e. True) (\<lambda>specs. map order specs = map (\<lambda>k. asked_order (ix_modifiers k)) keys)
        (convert_sort_keys_to_search keys)"
proof -
  have "map order specs = map (\<lambda>k. asked_order (ix_modifiers k)) keys"
    if "convert_sort_keys_to_search keys = Inr specs" for specs
    using map_result_all [of convert_sort_key keys specs] that
    by (induction keys arbitrary: specs)
      (auto simp: convert_sort_keys_to_search_def convert_sort_key_order list_all2_Cons1 and_then_eq_Inr)
  then show ?thesis
    by (auto simp: outcome_def convert_sort_keys_to_search_def map_result_total convert_sort_key_total
        split: sum.split)
qed

text \<open>
  The result set a query refers to: in a tree of clauses, AND and OR, the id all leaves
  agree on, and the empty id when two leaves differ.
\<close>

theorem result_set_of_and_or:
  assumes "and_or_only q"
  shows "get_result_set_id q = Inr
     (let ids = leaf_ids [] q in if list_all (\<lambda>x. x = hd ids) ids then hd ids else [])"
proof (cases q)
  case (Triple l b r ps ks)
  then have "result_set_leaves [ps] l @ result_set_leaves [ps] r = leaf_ids [] q" and "leaf_ids [] q \<noteq> []"
    using assms result_set_leaves_and_or leaf_ids_not_Nil by auto
  then show ?thesis
    using Triple assms by (cases "leaf_ids [] q") (simp_all add: get_result_set_id_def Let_def)
qed (simp add: get_result_set_id_def)

theorem result_set_of_and_or_witness:
  "get_result_set_id
     (Triple (SearchClause (Index \<lparr>pref = ''cql'', pvalue = ''resultSetId''\<rparr> []) (Relation \<lparr>pref = ''cql'', pvalue = ''=''\<rparr> []) ''a1'' [] [])
        (Boolean ''or'' [])
        (SearchClause (Index \<lparr>pref = ''cql'', pvalue = ''resultsetid''\<rparr> []) (Relation \<lparr>pref = ''cql'', pvalue = ''=''\<rparr> []) ''a1'' [] []) [] [])
   = Inr ''a1''"
  by (subst result_set_of_and_or) code_simp+

text \<open>
  The exception of \<open>get_result_set_id\<close>: it raises an \<open>IndexError\<close> exactly for the trees whose
  root is AND or OR while all their leaves lie below a NOT or a PROX, as in
  "(a not b) and (c not d)". The view that calls it only catches diagnostics.
\<close>

theorem result_set_raises:
  "get_result_set_id q = Inl e \<longleftrightarrow> e = IndexError \<and> all_excluded q \<and> \<not> root_excludes q"
proof (cases q)
  case (Triple l b r ps ks)
  then show ?thesis
    using result_set_leaves_Nil [of "[ps]" l] result_set_leaves_Nil [of "[ps]" r]
    by (cases "result_set_leaves [ps] l @ result_set_leaves [ps] r")
      (auto simp: get_result_set_id_def)
qed (simp add: get_result_set_id_def)

text \<open>
  The hash sign starts a comment: the lexer reads a word, a hash sign and the rest of the line
  as if the text ended with the word, whatever the class attribute \<open>commenters\<close> says.
\<close>

lemma hash_starts_comment:
  assumes "plain_word w" and "newline \<notin> set s"
  shows "get_token (init_lexer (w @ ''#'' @ s)) = get_token (init_lexer w)"
proof -
  obtain c v where w: "w = c # v" and c: "c \<in> set wordchars" "word_char c" and v: "list_all word_char v"
    using assms(1) by (cases w) (auto simp: plain_word_def)
  from c have "c \<notin> set commenters" by (simp add: word_char_def)
  with c word_char_not_whitespace [OF c(2)] read_word_comment [OF v, of "[c]" s] assms(2) show ?thesis
    by (simp add: w get_token_def read_token_def init_lexer_lexing
        turn_simps [of "lexing (c # v @ CHR ''#'' # s) (CHR '' '') []"]
        turn_simps [of "lexing (c # v) (CHR '' '') []"] read_token_space_def)
qed

lemma hash_starts_comment_witness:
  "get_token (init_lexer (''c'' @ ''#'' @ '' programming'')) = get_token (init_lexer ''c'')"
  by (rule hash_starts_comment) code_simp+

end
