(* ===== verification/Records.thy ===== *)
theory Records
  imports Base
begin

text \<open>
  The prelude of the record modules (circulation policies, libraries, loans, items, patron types,
  holdings, acquisition): the exceptions their methods raise, numbers that may be infinite, and
  lemmas on sorted lists. A record of the program is a JSON document behind a Python class; the
  theories model the fields a component reads and writes as a HOL record, an optional field as an
  \<open>option\<close>, and a reference to another record as the pid it resolves to. What a method gets from
  the search index or from another record is an argument of its model.
\<close>

section \<open>Exceptions\<close>

datatype py_error =
    TypeError
  | AttributeError
  | KeyError string
  | ValueError string
  | OverflowError
  | LibraryNeverOpen
  | ValidationError string
  | NoCirculationAction string
  | NoCirculationActionIsPermitted string
  | MissingRequiredParameterError string
  | CirculationException string
  | NoValidTransitionAvailableError
  | ItemNotAvailableError string
  | StopIteration
  | NotFoundError
  | IndexError
  | RegularReceiveNotAllowed
  | NotDeleted
  | RolloverError string
  | RecursionError
  | PidAlreadyUsed
  | PidChange
  | NoFuel

text \<open>\<open>NoFuel\<close> is not an exception of the program: it is the answer of a model whose fuel is used
  up.\<close>

section \<open>Permissions\<close>

text \<open>The pair of a boolean and the reasons that the \<open>can_*\<close> methods return.\<close>

type_synonym verdict = "bool \<times> (string \<times> string) list"

abbreviation granted :: verdict where
  "granted \<equiv> (True, [])"

section \<open>Sorted lists\<close>

lemma sorted_key_le:
  "sorted (map f xs) \<Longrightarrow> i \<le> j \<Longrightarrow> j < length xs \<Longrightarrow> f (xs ! i) \<le> f (xs ! j)"
  using sorted_nth_mono [of "map f xs" i j] by simp

lemma hd_sort_key_le: "x \<in> set xs \<Longrightarrow> f (hd (sort_key f xs)) \<le> f x"
proof -
  assume x: "x \<in> set xs"
  then obtain i where i: "i < length (sort_key f xs)" "sort_key f xs ! i = x"
    by (metis in_set_conv_nth set_sort)
  then have "sort_key f xs \<noteq> []" by (metis length_0_conv less_nat_zero_code)
  then have "hd (sort_key f xs) = sort_key f xs ! 0" by (simp add: hd_conv_nth)
  with i sorted_key_le [of f "sort_key f xs" 0 i] show ?thesis by simp
qed

lemma sort_key_Nil [simp]: "sort_key f xs = [] \<longleftrightarrow> xs = []"
  by (metis length_0_conv length_sort)

lemma hd_sort_key_in: "xs \<noteq> [] \<Longrightarrow> hd (sort_key f xs) \<in> set xs"
  using hd_in_set [of "sort_key f xs"] by simp

lemma hd_sort_key_Min:
  fixes f :: "'a \<Rightarrow> 'b::linorder"
  shows "xs \<noteq> [] \<Longrightarrow> f (hd (sort_key f xs)) = Min (f ` set xs)"
  by (rule sym, rule Min_eqI) (auto simp: hd_sort_key_in hd_sort_key_le)

lemma find_filter: "find P xs = Some x \<Longrightarrow> \<exists>ys. filter P xs = x # ys"
  by (induction xs) (auto split: if_splits)

lemma find_Some_in: "find P xs = Some x \<Longrightarrow> x \<in> set xs \<and> P x"
  by (auto simp: find_Some_iff)

end
