(* ===== verification/Calendar.thy ===== *)
theory Calendar
  imports Records
begin

text \<open>
  The opening calendar of a library: the methods \<open>is_open\<close>, \<open>next_open\<close>, \<open>get_open_days\<close>,
  \<open>count_open\<close> and \<open>in_working_days\<close> of class \<open>Library\<close> in \<open>rero_ils/modules/libraries/api.py\<close>.

  An aware \<open>datetime\<close> is a \<open>stamp\<close>: the day as Python's proleptic ordinal (day 1 is Monday the
  first of January of year 1) and the microseconds since midnight. Dates that the code reads
  from strings are given as stamps. Two things come from libraries the code calls and are arguments:
  \<open>localize\<close>, the conversion of a date to the time zone of the library (\<open>astimezone\<close> with the
  zone data), and \<open>rrule\<close> of dateutil, which lists the recurrences of an exception up to a
  bound. Dates outside the years 1 to 9999 raise an \<open>OverflowError\<close>, so that the search for the
  next open day always ends.
\<close>

section \<open>Dates and times\<close>

record stamp =
  day :: int
  us :: int

definition us_per_day :: int where
  "us_per_day = 86400000000"

definition max_day :: int where
  "max_day = 3652059"

type_synonym clock = "nat \<times> nat"

text \<open>\<open>strtotime\<close>, on the hour and minute of the string.\<close>

definition clock_us :: "clock \<Rightarrow> int" where
  "clock_us t = (int (fst t) * 60 + int (snd t)) * 60000000"

definition in_range :: "stamp \<Rightarrow> bool" where
  "in_range d \<longleftrightarrow> 1 \<le> day d \<and> day d \<le> max_day"

text \<open>\<open>date + timedelta(days=n)\<close>.\<close>

definition add_days :: "int \<Rightarrow> stamp \<Rightarrow> stamp" where
  "add_days n d = d\<lparr>day := day d + n\<rparr>"

text \<open>\<open>(e - s).days\<close>, rounded down as Python does.\<close>

definition days_between :: "stamp \<Rightarrow> stamp \<Rightarrow> int" where
  "days_between s e = ((day e - day s) * us_per_day + (us e - us s)) div us_per_day"

definition earlier :: "stamp \<Rightarrow> stamp \<Rightarrow> bool" where
  "earlier a b \<longleftrightarrow> day a < day b \<or> (day a = day b \<and> us a < us b)"

text \<open>\<open>hour == minute == second == 0\<close>.\<close>

definition at_midnight :: "int \<Rightarrow> bool" where
  "at_midnight t \<longleftrightarrow> t div 1000000 = 0"

datatype weekday = Monday | Tuesday | Wednesday | Thursday | Friday | Saturday | Sunday

definition day_name :: "stamp \<Rightarrow> weekday" where
  "day_name d =
     [Sunday, Monday, Tuesday, Wednesday, Thursday, Friday, Saturday] ! nat (day d mod 7)"

section \<open>The record\<close>

record times =
  start_time :: clock
  end_time :: clock

record opening_hour =
  oh_day :: weekday
  oh_is_open :: bool
  oh_times :: "times list"

datatype frequency = Yearly | Monthly | Weekly | Daily

record exception_date =
  ex_is_open :: bool
  ex_start :: stamp
  ex_end :: "stamp option"
  ex_times :: "times list"
  ex_repeat :: "(frequency \<times> nat) option"

record calendar =
  opening_hours :: "opening_hour list"
  exception_dates :: "exception_date list"

text \<open>The recurrences from a start up to a bound, in order.\<close>

type_synonym rrule = "frequency \<Rightarrow> nat \<Rightarrow> stamp \<Rightarrow> stamp \<Rightarrow> stamp list"

definition calendar_validation :: "calendar \<Rightarrow> string option" where
  "calendar_validation c =
     (if list_ex (\<lambda>e. ex_is_open e \<and> ex_times e = []) (exception_dates c)
      then Some ''Opening times must be specified for an open exception date.'' else None)"

section \<open>Is the library open\<close>

definition is_betweentimes :: "int \<Rightarrow> times list \<Rightarrow> bool" where
  "is_betweentimes t ts =
     fold (\<lambda>tg times_open.
        let s = clock_us (start_time tg); e = clock_us (end_time tg) in
        if at_midnight t then times_open \<or> e > s
        else times_open \<or> (t \<ge> s \<and> t \<le> e)) ts False"

definition has_is_open :: "stamp \<Rightarrow> calendar \<Rightarrow> bool" where
  "has_is_open now c \<longleftrightarrow>
     list_ex oh_is_open (opening_hours c)
     \<or> list_ex (\<lambda>e. earlier now (ex_start e)) (filter ex_is_open (exception_dates c))"

text \<open>The dates an exception covers, seen from the date to check: of a repeated one the last
  recurrence before the end of that day.\<close>

definition exception_span :: "rrule \<Rightarrow> exception_date \<Rightarrow> stamp \<Rightarrow> stamp \<times> stamp" where
  "exception_span rrule e d =
     (let s = ex_start e;
          end0 = (case ex_end e of None \<Rightarrow> s | Some x \<Rightarrow> x);
          gap = (case ex_end e of None \<Rightarrow> 0 | Some x \<Rightarrow> days_between s x) in
      case ex_repeat e of
        None \<Rightarrow> (s, end0)
      | Some (period, interval) \<Rightarrow>
          let until = d\<lparr>us := us_per_day - 1\<rparr>;
              dates = rrule period interval s until;
              s' = (if dates = [] then s else last dates)
          in (s', add_days gap s'))"

definition exception_matches :: "rrule \<Rightarrow> stamp \<Rightarrow> bool \<Rightarrow> exception_date \<Rightarrow> bool" where
  "exception_matches rrule d day_only e =
     (let (s, t) = exception_span rrule e d in
      day s \<le> day d \<and> day d \<le> day t
      \<and> (if ex_times e \<noteq> [] \<and> \<not> day_only then is_betweentimes (us d) (ex_times e) else True))"

definition get_exceptions_matching_date ::
  "rrule \<Rightarrow> calendar \<Rightarrow> stamp \<Rightarrow> bool \<Rightarrow> exception_date list" where
  "get_exceptions_matching_date rrule c d day_only =
     filter (exception_matches rrule d day_only) (exception_dates c)"

text \<open>The regular rule: the first one of the weekday counts.\<close>

definition regular_open :: "calendar \<Rightarrow> stamp \<Rightarrow> bool \<Rightarrow> bool" where
  "regular_open c d day_only =
     (case filter (\<lambda>r. oh_day r = day_name d) (opening_hours c) of
        [] \<Rightarrow> False
      | r # _ \<Rightarrow> oh_is_open r \<and> (day_only \<or> is_betweentimes (us d) (oh_times r)))"

definition is_open ::
  "(stamp \<Rightarrow> stamp) \<Rightarrow> rrule \<Rightarrow> calendar \<Rightarrow> stamp \<Rightarrow> bool \<Rightarrow> bool \<Rightarrow> bool" where
  "is_open localize rrule c date day_only date_only =
     (let date_only_query = date_only \<or> at_midnight (us date);
          d0 = localize date;
          d = (if date_only_query then d0\<lparr>us := 0\<rparr> else d0) in
      fold (\<lambda>e opened. if opened \<noteq> ex_is_open e then \<not> opened else opened)
        (get_exceptions_matching_date rrule c d day_only)
        (regular_open c d day_only))"

section \<open>Searching open days\<close>

text \<open>The loop of \<open>next_open\<close>, over any test of a day. It stops at the first day that passes the
  test, or when the date leaves the range of Python's dates.\<close>

function seek :: "(stamp \<Rightarrow> bool) \<Rightarrow> bool \<Rightarrow> stamp \<Rightarrow> py_error + stamp" where
  "seek opened previous d =
     (if \<not> in_range d then Inl OverflowError
      else if opened d then Inr d
      else seek opened previous (add_days (if previous then -1 else 1) d))"
  by pat_completeness auto
termination
  by (relation "measure (\<lambda>(opened, previous, d). nat (if previous then day d else max_day + 1 - day d))")
    (auto simp: in_range_def add_days_def)

declare seek.simps [simp del]

definition get_opening_hour_by_day :: "calendar \<Rightarrow> weekday \<Rightarrow> clock option" where
  "get_opening_hour_by_day c name =
     (case filter (\<lambda>r. oh_day r = name \<and> oh_is_open r) (opening_hours c) of
        [] \<Rightarrow> None
      | r # _ \<Rightarrow> (case oh_times r of [] \<Rightarrow> None | t # _ \<Rightarrow> Some (start_time t)))"

definition next_open ::
  "(stamp \<Rightarrow> stamp) \<Rightarrow> rrule \<Rightarrow> stamp \<Rightarrow> calendar \<Rightarrow> stamp \<Rightarrow> bool \<Rightarrow> bool \<Rightarrow> py_error + stamp" where
  "next_open localize rrule now c date previous ensure =
     (if \<not> has_is_open now c then Inl LibraryNeverOpen
      else and_then (seek (\<lambda>d. is_open localize rrule c d True True) previous
                       (add_days (if previous then -1 else 1) date)) (\<lambda>d.
        if \<not> ensure then Inr d
        else case get_opening_hour_by_day c (day_name d) of
            None \<Rightarrow> Inl AttributeError
          | Some t \<Rightarrow> Inr (d\<lparr>us := clock_us t\<rparr>)))"

text \<open>\<open>get_open_days\<close>: the loop goes up to the day after the end. The dates compared are in the same
  time zone.\<close>

function open_days_loop :: "(stamp \<Rightarrow> bool) \<Rightarrow> stamp \<Rightarrow> stamp \<Rightarrow> py_error + stamp list" where
  "open_days_loop opened start end_date =
     (if earlier start end_date
      then (if \<not> in_range (add_days 1 start) then Inl OverflowError
            else and_then (open_days_loop opened (add_days 1 start) end_date) (\<lambda>ds.
                   Inr ((if opened start then [start] else []) @ ds)))
      else Inr [])"
  by pat_completeness auto
termination
  by (relation "measure (\<lambda>(opened, s, e). nat (day e + 1 - day s))")
    (auto simp: earlier_def add_days_def)

declare open_days_loop.simps [simp del]

definition get_open_days ::
  "(stamp \<Rightarrow> stamp) \<Rightarrow> rrule \<Rightarrow> calendar \<Rightarrow> stamp \<Rightarrow> stamp \<Rightarrow> py_error + stamp list" where
  "get_open_days localize rrule c start end_date =
     (let stop = add_days 1 end_date in
      if \<not> in_range stop then Inl OverflowError
      else open_days_loop (\<lambda>d. is_open localize rrule c d True True) start stop)"

definition count_open ::
  "(stamp \<Rightarrow> stamp) \<Rightarrow> rrule \<Rightarrow> calendar \<Rightarrow> stamp \<Rightarrow> stamp \<Rightarrow> py_error + nat" where
  "count_open localize rrule c start end_date =
     and_then (get_open_days localize rrule c start end_date) (\<lambda>ds. Inr (length ds))"

text \<open>\<open>in_working_days\<close> takes the next open day \<open>count\<close> times.\<close>

fun in_working_days ::
  "(stamp \<Rightarrow> stamp) \<Rightarrow> rrule \<Rightarrow> stamp \<Rightarrow> calendar \<Rightarrow> nat \<Rightarrow> stamp \<Rightarrow> py_error + stamp" where
  "in_working_days localize rrule now c 0 date = Inr date"
| "in_working_days localize rrule now c (Suc n) date =
     and_then (next_open localize rrule now c date False False)
       (in_working_days localize rrule now c n)"

section \<open>The task on calendar changes\<close>

text \<open>\<open>calendar_changes_update_loans\<close> of \<open>rero_ils/modules/libraries/tasks.py\<close>: the due dates of the
  active loans after a change of the calendar, with the number of loans seen and changed. The
  test has no \<open>day_only\<close>: it looks at the time of the due date too.\<close>

definition end_of_day :: "stamp \<Rightarrow> stamp" where
  "end_of_day d = d\<lparr>us := (23 * 60 + 59) * 60000000\<rparr>"

definition update_due_date ::
  "(stamp \<Rightarrow> stamp) \<Rightarrow> rrule \<Rightarrow> stamp \<Rightarrow> calendar \<Rightarrow> stamp \<Rightarrow> py_error + stamp \<times> bool" where
  "update_due_date localize rrule now c due =
     (if is_open localize rrule c due False False then Inr (due, False)
      else case next_open localize rrule now c due False False of
          Inl LibraryNeverOpen \<Rightarrow> Inr (due, False)
        | Inl e \<Rightarrow> Inl e
        | Inr d \<Rightarrow> Inr (end_of_day (localize d), True))"

definition calendar_changes_update_loans ::
  "(stamp \<Rightarrow> stamp) \<Rightarrow> rrule \<Rightarrow> stamp \<Rightarrow> calendar \<Rightarrow> stamp list \<Rightarrow> py_error + stamp list \<times> nat \<times> nat" where
  "calendar_changes_update_loans localize rrule now c dues =
     and_then (map_result (update_due_date localize rrule now c) dues) (\<lambda>rs.
       Inr (map fst rs, length rs, length (filter snd rs)))"

section \<open>Lemmas on the search\<close>

lemma add_days_add [simp]: "add_days a (add_days b d) = add_days (b + a) d"
  by (simp add: add_days_def)

lemma add_days_0 [simp]: "add_days 0 d = d"
  by (simp add: add_days_def)

lemma add_days_sel [simp]: "day (add_days n d) = day d + n" "us (add_days n d) = us d"
  by (simp_all add: add_days_def)

lemma flips_last:
  "fold (\<lambda>e opened. if opened \<noteq> f e then \<not> opened else opened) es b = (if es = [] then b else f (last es))"
  by (induction es rule: rev_induct) auto

abbreviation stride :: "bool \<Rightarrow> int" where
  "stride previous \<equiv> (if previous then -1 else 1)"

lemma seek_found:
  "seek P previous d = Inr r \<Longrightarrow>
   P r \<and> in_range r \<and> (\<exists>k\<ge>0. r = add_days (stride previous * k) d
     \<and> (\<forall>j. 0 \<le> j \<and> j < k \<longrightarrow> \<not> P (add_days (stride previous * j) d)))"
proof (induction P previous d rule: seek.induct)
  case (1 P previous d)
  consider "in_range d" "P d" "r = d" | "in_range d" "\<not> P d" "seek P previous (add_days (stride previous) d) = Inr r"
    using "1.prems" by (auto simp: seek.simps [of P previous d] split: if_splits)
  then show ?case
  proof cases
    case 1
    then show ?thesis by (intro conjI exI [of _ 0]) auto
  next
    case 2
    then obtain k where r: "P r" "in_range r" and k: "0 \<le> k" "r = add_days (stride previous * (1 + k)) d"
      and j: "\<And>j. 0 \<le> j \<Longrightarrow> j < k \<Longrightarrow> \<not> P (add_days (stride previous * (1 + j)) d)"
      using "1.IH" by (auto simp: algebra_simps)
    have "\<not> P (add_days (stride previous * j) d)" if "0 \<le> j" "j < 1 + k" for j
      using that 2(2) j [of "j - 1"] by (cases "j = 0") auto
    with r k show ?thesis by (intro conjI exI [of _ "1 + k"]) auto
  qed
qed

lemma seek_overflow:
  "seek P previous d = Inl e \<Longrightarrow> in_range d \<Longrightarrow>
   e = OverflowError \<and> (\<forall>k\<ge>0. in_range (add_days (stride previous * k) d) \<longrightarrow> \<not> P (add_days (stride previous * k) d))"
proof (induction P previous d rule: seek.induct)
  case (1 P previous d)
  then have d: "\<not> P d" "seek P previous (add_days (stride previous) d) = Inl e"
    by (auto simp: seek.simps [of P previous d] split: if_splits)
  show ?case
  proof (cases "in_range (add_days (stride previous) d)")
    case True
    with "1.IH" "1.prems" d have e: "e = OverflowError"
      and k: "\<And>k. 0 \<le> k \<Longrightarrow> in_range (add_days (stride previous * (1 + k)) d) \<Longrightarrow> \<not> P (add_days (stride previous * (1 + k)) d)"
      by (auto simp: algebra_simps)
    have "\<not> P (add_days (stride previous * j) d)" if "0 \<le> j" "in_range (add_days (stride previous * j) d)" for j
      using that d(1) k [of "j - 1"] by (cases "j = 0") auto
    with e show ?thesis by blast
  next
    case False
    with d have e: "e = OverflowError" by (simp add: seek.simps [of P previous "add_days (stride previous) d"])
    have "\<not> P (add_days (stride previous * j) d)" if "0 \<le> j" "in_range (add_days (stride previous * j) d)" for j
    proof (cases "j = 0")
      case False
      with that \<open>\<not> in_range (add_days (stride previous) d)\<close> "1.prems"(2) show ?thesis
        by (auto simp: in_range_def split: if_splits)
    qed (use d in simp)
    with e show ?thesis by blast
  qed
qed

lemma seek_answers: "in_range d \<Longrightarrow> P (add_days (stride previous * k) d) \<Longrightarrow> 0 \<le> k \<Longrightarrow>
  in_range (add_days (stride previous * k) d) \<Longrightarrow> \<exists>r. seek P previous d = Inr r"
  using seek_overflow [of P previous d] by (cases "seek P previous d") auto

lemma add_days_record: "add_days k d = \<lparr>day = day d + k, us = us d\<rparr>"
  by (cases d) (simp add: add_days_def)

definition day_open :: "(stamp \<Rightarrow> stamp) \<Rightarrow> rrule \<Rightarrow> calendar \<Rightarrow> int \<Rightarrow> int \<Rightarrow> bool" where
  "day_open localize rrule c t x = is_open localize rrule c \<lparr>day = x, us = t\<rparr> True True"

lemma is_open_day: "is_open localize rrule c (add_days k d) True True = day_open localize rrule c (us d) (day d + k)"
  by (simp add: day_open_def add_days_record)

lemma next_open_found:
  assumes "next_open localize rrule now c d False False = Inr r"
  shows "day d < day r \<and> us r = us d \<and> day_open localize rrule c (us d) (day r)
     \<and> (\<forall>x. day d < x \<and> x < day r \<longrightarrow> \<not> day_open localize rrule c (us d) x)"
proof -
  from assms have "seek (\<lambda>d. is_open localize rrule c d True True) False (add_days 1 d) = Inr r"
    by (auto simp: next_open_def and_then_eq_Inr split: if_splits)
  from seek_found [OF this] obtain k where k: "0 \<le> k" "r = add_days (1 + k) d"
    and o: "day_open localize rrule c (us d) (day d + (1 + k))"
    and c: "\<And>j. 0 \<le> j \<Longrightarrow> j < k \<Longrightarrow> \<not> day_open localize rrule c (us d) (day d + (1 + j))"
    by (auto simp: is_open_day)
  have "\<not> day_open localize rrule c (us d) x" if "day d < x" "x < day r" for x
    using that k c [of "x - day d - 1"] by simp
  with k o show ?thesis by simp
qed

lemma next_open_overflow:
  assumes "next_open localize rrule now c d False False = Inl e" and "1 \<le> day d"
  shows "e = LibraryNeverOpen \<and> \<not> has_is_open now c
    \<or> e = OverflowError \<and> has_is_open now c \<and> (\<forall>x. day d < x \<and> x \<le> max_day \<longrightarrow> \<not> day_open localize rrule c (us d) x)"
proof (cases "has_is_open now c")
  case True
  with assms(1) have s: "seek (\<lambda>d. is_open localize rrule c d True True) False (add_days 1 d) = Inl e"
    by (auto simp: next_open_def and_then_eq_Inl split: if_splits)
  show ?thesis
  proof (cases "in_range (add_days 1 d)")
    case r: True
    from seek_overflow [OF s r] have e: "e = OverflowError"
      and c: "\<And>k. 0 \<le> k \<Longrightarrow> in_range (add_days (1 + k) d) \<Longrightarrow> \<not> day_open localize rrule c (us d) (day d + (1 + k))"
      by (auto simp: is_open_day)
    have "\<not> day_open localize rrule c (us d) x" if "day d < x" "x \<le> max_day" for x
      using that c [of "x - day d - 1"] assms(2) by (simp add: in_range_def)
    with e True show ?thesis by blast
  next
    case False
    with s have "e = OverflowError" by (simp add: seek.simps [of _ _ "add_days 1 d"])
    with False True assms(2) show ?thesis by (auto simp: in_range_def)
  qed
next
  case False
  with assms(1) show ?thesis by (simp add: next_open_def)
qed

lemma seek_error: "seek P previous d = Inl e \<Longrightarrow> e = OverflowError"
proof (induction P previous d rule: seek.induct)
  case (1 P previous d)
  then show ?case by (auto simp: seek.simps [of P previous d] split: if_splits)
qed

lemma never_open_means:
  "next_open localize rrule now c d previous False = Inl LibraryNeverOpen \<longleftrightarrow> \<not> has_is_open now c"
  by (auto simp: next_open_def and_then_eq_Inl dest: seek_error)

text \<open>The callers that fall back on another date when the library never opens.\<close>

definition unless_never_open :: "py_error + stamp \<Rightarrow> stamp \<Rightarrow> py_error + stamp" where
  "unless_never_open r fallback = (if r = Inl LibraryNeverOpen then Inr fallback else r)"

lemma unless_never_open_Inr:
  "unless_never_open r d = Inr x \<longleftrightarrow> r = Inr x \<or> (r = Inl LibraryNeverOpen \<and> x = d)"
  by (auto simp: unless_never_open_def)

section \<open>The interface: a search for the next open day\<close>

text \<open>What a client of \<open>next_open\<close> relies on: the day found is later, it is open, and no open day
  is skipped. Days are numbers; the time of day stays the same.\<close>

locale day_search =
  fixes nxt :: "int \<Rightarrow> py_error + int" and opened :: "int \<Rightarrow> bool"
  assumes later: "nxt d = Inr e \<Longrightarrow> d < e"
    and lands: "nxt d = Inr e \<Longrightarrow> opened e"
    and no_skip: "nxt d = Inr e \<Longrightarrow> d < x \<Longrightarrow> x < e \<Longrightarrow> \<not> opened x"

fun iterate :: "(int \<Rightarrow> 'e + int) \<Rightarrow> nat \<Rightarrow> int \<Rightarrow> 'e + int" where
  "iterate f 0 d = Inr d"
| "iterate f (Suc n) d = and_then (f d) (iterate f n)"

context day_search begin

lemma step_days: "nxt d = Inr e \<Longrightarrow> {x. d < x \<and> x \<le> e \<and> opened x} = {e}"
  using later [of d e] lands [of d e] no_skip [of d e] by force

lemma iterate_counts:
  "iterate nxt n d = Inr e \<Longrightarrow>
   d \<le> e \<and> card {x. d < x \<and> x \<le> e \<and> opened x} = n \<and> (0 < n \<longrightarrow> opened e)"
proof (induction n arbitrary: d)
  case (Suc n)
  then obtain m where m: "nxt d = Inr m" and r: "iterate nxt n m = Inr e"
    by (auto simp: and_then_eq_Inr)
  note ih = Suc.IH [OF r]
  let ?A = "{x. d < x \<and> x \<le> m \<and> opened x}" and ?B = "{x. m < x \<and> x \<le> e \<and> opened x}"
  have "{x. d < x \<and> x \<le> e \<and> opened x} = ?A \<union> ?B"
    using ih later [OF m] by force
  moreover have "finite ?B" by (rule finite_subset [of _ "{m<..e}"]) auto
  moreover have "?A \<inter> ?B = {}" by auto
  ultimately have "card {x. d < x \<and> x \<le> e \<and> opened x} = card ?A + card ?B"
    using step_days [OF m] by (simp add: card_Un_disjoint)
  with ih step_days [OF m] later [OF m] lands [OF m] r show ?case
    by (cases n) auto
next
  case 0
  then show ?case by (auto simp: card_eq_0_iff)
qed

end

definition next_day :: "(stamp \<Rightarrow> stamp) \<Rightarrow> rrule \<Rightarrow> stamp \<Rightarrow> calendar \<Rightarrow> int \<Rightarrow> int \<Rightarrow> py_error + int" where
  "next_day localize rrule now c t x =
     and_then (next_open localize rrule now c \<lparr>day = x, us = t\<rparr> False False) (\<lambda>r. Inr (day r))"

interpretation library: day_search "next_day localize rrule now c t" "day_open localize rrule c t"
  for localize rrule now c t
proof
  fix d e x
  assume "next_day localize rrule now c t d = Inr e"
  then obtain r where "next_open localize rrule now c \<lparr>day = d, us = t\<rparr> False False = Inr r" and e: "e = day r"
    by (auto simp: next_day_def and_then_eq_Inr)
  from next_open_found [OF this(1)] show "d < e" and "day_open localize rrule c t e"
    and "d < x \<Longrightarrow> x < e \<Longrightarrow> \<not> day_open localize rrule c t x"
    by (simp_all add: e)
qed

lemma in_working_days_iterate:
  "in_working_days localize rrule now c n d = Inr r \<Longrightarrow>
   us r = us d \<and> iterate (next_day localize rrule now c (us d)) n (day d) = Inr (day r)"
proof (induction n arbitrary: d)
  case (Suc n)
  then obtain m where m: "next_open localize rrule now c d False False = Inr m"
    and r: "in_working_days localize rrule now c n m = Inr r"
    by (auto simp: and_then_eq_Inr)
  from next_open_found [OF m] Suc.IH [OF r] m show ?case
    by (cases d) (simp add: next_day_def)
qed simp

section \<open>The list of open days\<close>

lemma open_days_loop_spec:
  "open_days_loop P s e = Inr ds \<Longrightarrow>
   \<exists>n. ds = filter P (map (\<lambda>k. add_days (int k) s) [0..<n])
     \<and> (\<forall>k. k < n \<longleftrightarrow> earlier (add_days (int k) s) e)"
proof (induction P s e arbitrary: ds rule: open_days_loop.induct)
  case (1 P s e)
  show ?case
  proof (cases "earlier s e")
    case True
    with "1.prems" obtain ds' where r: "in_range (add_days 1 s)" "open_days_loop P (add_days 1 s) e = Inr ds'"
      and ds: "ds = (if P s then [s] else []) @ ds'"
      by (auto simp: open_days_loop.simps [of P s e] and_then_eq_Inr split: if_splits)
    from "1.IH" [OF True _ r(2)] r(1) obtain n where
      n: "ds' = filter P (map (\<lambda>k. add_days (1 + int k) s) [0..<n])"
      "\<And>k. k < n \<longleftrightarrow> earlier (add_days (1 + int k) s) e" by auto
    have "map (\<lambda>k. add_days (int k) s) [0..<Suc n] = s # map (\<lambda>k. add_days (1 + int k) s) [0..<n]"
      by (simp add: upt_conv_Cons map_Suc_upt [symmetric] del: upt_Suc)
    with n(1) ds have "ds = filter P (map (\<lambda>k. add_days (int k) s) [0..<Suc n])" by simp
    moreover have "k < Suc n \<longleftrightarrow> earlier (add_days (int k) s) e" for k
      using n(2) [of "k - 1"] True by (cases k) auto
    ultimately show ?thesis by blast
  next
    case False
    have "\<not> earlier (add_days (int k) s) e" for k
      using False by (auto simp: earlier_def)
    with False "1.prems" show ?thesis
      by (intro exI [of _ 0]) (simp add: open_days_loop.simps [of P s e])
  qed
qed

section \<open>A regular week\<close>

lemma weekday_within_week: "\<exists>k. 1 \<le> k \<and> k \<le> 7 \<and> day_name (add_days k d) = w"
proof -
  define n where "n = (case w of Sunday \<Rightarrow> 0 | Monday \<Rightarrow> 1 | Tuesday \<Rightarrow> 2 | Wednesday \<Rightarrow> 3
    | Thursday \<Rightarrow> 4 | Friday \<Rightarrow> 5 | Saturday \<Rightarrow> (6::int))"
  define k where "k = (n - day d - 1) mod 7 + 1"
  have "0 \<le> n" "n < 7" by (cases w; simp add: n_def)+
  then have "(day d + k) mod 7 = n" unfolding k_def
    by (metis (no_types, opaque_lifting) add.commute add_diff_cancel_left' diff_add_cancel mod_add_right_eq mod_pos_pos_trivial)
  then have "day_name (add_days k d) = w"
    by (cases w) (simp_all add: day_name_def n_def)
  moreover have "1 \<le> k" "k \<le> 7" using pos_mod_bound [of 7 "n - day d - 1"] by (simp_all add: k_def)
  ultimately show ?thesis by blast
qed

definition sample_week :: calendar where
  "sample_week =
     \<lparr>opening_hours = [\<lparr>oh_day = Monday, oh_is_open = True, oh_times = [\<lparr>start_time = (8, 0), end_time = (16, 0)\<rparr>]\<rparr>,
                       \<lparr>oh_day = Tuesday, oh_is_open = False, oh_times = []\<rparr>],
      exception_dates = [\<lparr>ex_is_open = False, ex_start = \<lparr>day = 737997, us = 0\<rparr>, ex_end = None,
                          ex_times = [], ex_repeat = None\<rparr>]\<rparr>"

lemma is_open_last:
  "is_open localize rrule c date True True =
     (let d = (localize date)\<lparr>us := 0\<rparr>; es = filter (exception_matches rrule d True) (exception_dates c)
      in if es = [] then regular_open c d True else ex_is_open (last es))"
  unfolding is_open_def get_exceptions_matching_date_def Let_def flips_last by simp

text \<open>A library whose only open day to come lies before the searched date passes the test of
  \<open>_has_is_open\<close>, and the search runs to the end of the calendar.\<close>

lemma search_past_last_exception:
  assumes "opening_hours c = []" and "exception_dates c = [e]" and "ex_is_open e"
    and "ex_repeat e = None" and "ex_end e = None" and "earlier now (ex_start e)"
    and "day (ex_start e) \<le> day date" and "\<And>d. localize d = d" and "1 \<le> day date"
  shows "next_open localize rrule now c date False False = Inl OverflowError"
proof -
  have h: "has_is_open now c" using assms by (simp add: has_is_open_def)
  have closed: "\<not> day_open localize rrule c (us date) x" if "day date < x" for x
    using assms that by (simp add: day_open_def is_open_last Let_def exception_matches_def exception_span_def regular_open_def)
  show ?thesis
  proof (cases "next_open localize rrule now c date False False")
    case (Inl e')
    from next_open_overflow [OF this assms(9)] h Inl show ?thesis by simp
  next
    case (Inr r)
    with next_open_found [OF Inr] closed show ?thesis by blast
  qed
qed

text \<open>With \<open>ensure\<close>, a day that only an exception opens has no opening hour to return.\<close>

lemma ensure_needs_regular_hours:
  assumes "next_open localize rrule now c date previous False = Inr d"
    and "get_opening_hour_by_day c (day_name d) = None"
  shows "next_open localize rrule now c date previous True = Inl AttributeError"
  using assms by (auto simp: next_open_def and_then_eq_Inr split: if_splits)

section \<open>The properties\<close>

text \<open>
  Is the library open: the last exception that matches the day (and the time, unless
  \<open>day_only\<close>) decides, and the first regular rule of the weekday when no exception matches. With
  \<open>date_only\<close>, or at midnight, the answer does not depend on the time of the local day.
\<close>

theorem is_open_rule:
  "is_open localize rrule c date day_only date_only =
     (let d0 = localize date;
          d = (if date_only \<or> at_midnight (us date) then d0\<lparr>us := 0\<rparr> else d0);
          es = filter (exception_matches rrule d day_only) (exception_dates c)
      in if es = [] then regular_open c d day_only else ex_is_open (last es))"
  unfolding is_open_def get_exceptions_matching_date_def Let_def flips_last by (rule refl)

text \<open>
  C6. The next open day: \<open>next_open\<close> returns the first open day after the date, at the same time
  of day, and skips no open day. It raises \<open>LibraryNeverOpen\<close> exactly when the calendar names no
  open day to come, and an \<open>OverflowError\<close> when none is left up to the year 9999: it always ends.
\<close>

theorem next_open_first:
  assumes "1 \<le> day date"
  shows "case next_open localize rrule now c date False False of
      Inr r \<Rightarrow> has_is_open now c \<and> day date < day r \<and> us r = us date \<and> day_open localize rrule c (us date) (day r)
        \<and> \<not> (\<exists>x. day date < x \<and> x < day r \<and> day_open localize rrule c (us date) x)
    | Inl e \<Rightarrow> e = LibraryNeverOpen \<and> \<not> has_is_open now c
        \<or> e = OverflowError \<and> has_is_open now c
           \<and> \<not> (\<exists>x. day date < x \<and> x \<le> max_day \<and> day_open localize rrule c (us date) x)"
proof (cases "next_open localize rrule now c date False False")
  case (Inl e)
  from next_open_overflow [OF this assms] Inl show ?thesis by auto
next
  case (Inr r)
  then have "has_is_open now c" by (auto simp: next_open_def split: if_splits)
  with next_open_found [OF Inr] Inr show ?thesis by auto
qed

theorem next_open_first_witness:
  "next_open (\<lambda>d. d) (\<lambda>p n s u. []) \<lparr>day = 737000, us = 0\<rparr> sample_week \<lparr>day = 737995, us = 5\<rparr> False False
     = Inr \<lparr>day = 738004, us = 5\<rparr>
   \<and> \<not> (\<exists>x. 737995 < x \<and> x < 738004 \<and> day_open (\<lambda>d. d) (\<lambda>p n s u. []) sample_week 5 x)"
proof -
  have r: "next_open (\<lambda>d. d) (\<lambda>p n s u. []) \<lparr>day = 737000, us = 0\<rparr> sample_week \<lparr>day = 737995, us = 5\<rparr> False False
     = Inr \<lparr>day = 738004, us = 5\<rparr>"
    by code_simp
  with next_open_first [where date = "\<lparr>day = 737995, us = 5\<rparr>" and localize = "\<lambda>d. d"
      and rrule = "\<lambda>p n s u. []" and now = "\<lparr>day = 737000, us = 0\<rparr>" and c = sample_week]
  show ?thesis by simp
qed

text \<open>
  A library with a regular open day and no exceptions reopens within a week: \<open>next_open\<close> gives
  a day at most seven days later.
\<close>

theorem next_open_within_week:
  assumes "find (\<lambda>r. oh_day r = w) (opening_hours c) = Some rule" and "oh_is_open rule"
    and "exception_dates c = []" and "\<And>d. localize d = d"
    and "1 \<le> day date" and "day date + 7 \<le> max_day"
  shows "\<exists>k. 1 \<le> k \<and> k \<le> 7 \<and> next_open localize rrule now c date False False = Inr (add_days k date)"
proof -
  obtain k where k: "1 \<le> k" "k \<le> 7" "day_name (add_days k date) = w"
    using weekday_within_week by blast
  have "\<exists>rs. filter (\<lambda>r. oh_day r = w) (opening_hours c) = rule # rs"
    by (rule find_filter [OF assms(1)])
  then have "regular_open c (add_days k date\<lparr>us := 0\<rparr>) True"
    using assms(2) k(3) by (auto simp: regular_open_def day_name_def)
  then have o: "is_open localize rrule c (add_days k date) True True"
    using assms(3,4) by (simp add: is_open_rule)
  have "rule \<in> set (opening_hours c)" using find_Some_in [OF assms(1)] by simp
  with assms(2) have h: "has_is_open now c" by (auto simp: has_is_open_def list_ex_iff)
  have "\<exists>r. seek (\<lambda>d. is_open localize rrule c d True True) False (add_days 1 date) = Inr r"
    using seek_answers [of "add_days 1 date" "\<lambda>d. is_open localize rrule c d True True" False "k - 1"] o k assms(5,6)
    by (simp add: in_range_def)
  then obtain r where r: "next_open localize rrule now c date False False = Inr r"
    using h by (auto simp: next_open_def)
  from next_open_found [OF r] o k(1) have "day date < day r" "day r \<le> day date + k" "us r = us date"
    by (auto simp: is_open_day not_less [symmetric])
  then have "1 \<le> day r - day date" "day r - day date \<le> 7" "r = add_days (day r - day date) date"
    using k by (auto simp: add_days_record)
  with r show ?thesis by metis
qed

theorem next_open_within_week_witness:
  "\<exists>k. 1 \<le> k \<and> k \<le> 7
     \<and> next_open (\<lambda>d. d) (\<lambda>p n s u. []) \<lparr>day = 1, us = 0\<rparr> (sample_week\<lparr>exception_dates := []\<rparr>) \<lparr>day = 738000, us = 0\<rparr> False False
         = Inr (add_days k \<lparr>day = 738000, us = 0\<rparr>)"
  by (rule next_open_within_week [where w = Monday
        and rule = "\<lparr>oh_day = Monday, oh_is_open = True, oh_times = [\<lparr>start_time = (8, 0), end_time = (16, 0)\<rparr>]\<rparr>"])
    (simp_all add: sample_week_def max_day_def)

text \<open>
  Working days: \<open>in_working_days\<close> with a count goes on to the day such that exactly that many
  open days lie after the start date and up to it; the day reached is itself open.
\<close>

theorem in_working_days_counts:
  assumes "in_working_days localize rrule now c n date = Inr r"
  shows "card {x. day date < x \<and> x \<le> day r \<and> day_open localize rrule c (us date) x} = n
     \<and> us r = us date \<and> (n = 0 \<or> day_open localize rrule c (us date) (day r))"
  using library.iterate_counts [of localize rrule now c "us date" n "day date" "day r"]
    in_working_days_iterate [OF assms]
  by auto

theorem in_working_days_counts_witness:
  "card {x. 738000 < x \<and> x \<le> 738011 \<and> day_open (\<lambda>d. d) (\<lambda>p n s u. []) sample_week 5 x} = 2"
proof -
  have "in_working_days (\<lambda>d. d) (\<lambda>p n s u. []) \<lparr>day = 1, us = 0\<rparr> sample_week 2 \<lparr>day = 738000, us = 5\<rparr>
      = Inr \<lparr>day = 738011, us = 5\<rparr>"
    by code_simp
  from in_working_days_counts [OF this] show ?thesis by simp
qed

text \<open>
  The open days of an interval: \<open>get_open_days\<close> lists, in order and without repetition, the
  days from the start date on that begin before the day after the end date and are open.
\<close>

theorem open_days_listed:
  assumes "get_open_days localize rrule c s e = Inr ds"
  shows "sorted_wrt (\<lambda>a b. day a < day b) ds
     \<and> set ds = {d. \<exists>k. d = add_days (int k) s \<and> earlier d (add_days 1 e) \<and> is_open localize rrule c d True True}"
proof -
  from assms have "open_days_loop (\<lambda>d. is_open localize rrule c d True True) s (add_days 1 e) = Inr ds"
    by (auto simp: get_open_days_def Let_def split: if_splits)
  from open_days_loop_spec [OF this] obtain n where
    n: "ds = filter (\<lambda>d. is_open localize rrule c d True True) (map (\<lambda>k. add_days (int k) s) [0..<n])"
    "\<And>k. k < n \<longleftrightarrow> earlier (add_days (int k) s) (add_days 1 e)" by blast
  have "sorted_wrt (\<lambda>a b. day a < day b) (map (\<lambda>k. add_days (int k) s) [0..<n])"
    by (simp add: sorted_wrt_map)
  then have "sorted_wrt (\<lambda>a b. day a < day b) ds"
    unfolding n(1) by (rule sorted_wrt_filter)
  moreover have "d \<in> set ds \<longleftrightarrow> (\<exists>k. d = add_days (int k) s \<and> earlier d (add_days 1 e) \<and> is_open localize rrule c d True True)" for d
  proof -
    have "d \<in> set ds \<longleftrightarrow> (\<exists>k. d = add_days (int k) s \<and> k < n) \<and> is_open localize rrule c d True True"
      unfolding n(1) by auto
    then show ?thesis unfolding n(2) by blast
  qed
  ultimately show ?thesis by blast
qed

theorem open_days_listed_witness:
  "sorted_wrt (\<lambda>a b. day a < day b) [\<lparr>day = 738004, us = 5\<rparr>, \<lparr>day = 738011, us = 5\<rparr>]"
proof -
  have "get_open_days (\<lambda>d. d) (\<lambda>p n s u. []) sample_week \<lparr>day = 737991, us = 5\<rparr> \<lparr>day = 738011, us = 0\<rparr>
      = Inr [\<lparr>day = 738004, us = 5\<rparr>, \<lparr>day = 738011, us = 5\<rparr>]"
    by code_simp
  from open_days_listed [OF this] show ?thesis by (rule conjunct1)
qed

text \<open>
  A change of the calendar moves due dates that fall on open days: when the due date lies
  outside every period of its day (loans end at 23:59), the task finds the library closed, and
  the loan gets a new due date although the library is open on that day.
\<close>

lemma calendar_change_moves_due_date:
  assumes "\<not> is_betweentimes (us (localize due)) ts"
    and "filter (\<lambda>r. oh_day r = day_name (localize due)) (opening_hours c) = [\<lparr>oh_day = w, oh_is_open = True, oh_times = ts\<rparr>]"
    and "exception_dates c = []" and "\<not> at_midnight (us due)"
    and "next_open localize rrule now c due False False = Inr d"
  shows "is_open localize rrule c due True True
     \<and> update_due_date localize rrule now c due = Inr (end_of_day (localize d), True)"
proof -
  have "is_open localize rrule c due True True"
    using assms(2,3) by (simp add: is_open_rule Let_def regular_open_def day_name_def)
  moreover have "\<not> is_open localize rrule c due False False"
    using assms by (simp add: is_open_rule Let_def regular_open_def)
  ultimately show ?thesis using assms(5) by (simp add: update_due_date_def)
qed

lemma calendar_change_moves_due_date_witness:
  "is_open (\<lambda>d. d) (\<lambda>p n s u. []) (sample_week\<lparr>exception_dates := []\<rparr>) (end_of_day \<lparr>day = 738004, us = 0\<rparr>) True True
   \<and> update_due_date (\<lambda>d. d) (\<lambda>p n s u. []) \<lparr>day = 1, us = 0\<rparr> (sample_week\<lparr>exception_dates := []\<rparr>)
       (end_of_day \<lparr>day = 738004, us = 0\<rparr>) = Inr (end_of_day \<lparr>day = 738011, us = 0\<rparr>, True)"
  using calendar_change_moves_due_date [where localize = "\<lambda>d. d" and rrule = "\<lambda>p n s u. []"
      and now = "\<lparr>day = 1, us = 0\<rparr>" and c = "sample_week\<lparr>exception_dates := []\<rparr>"
      and due = "end_of_day \<lparr>day = 738004, us = 0\<rparr>" and ts = "[\<lparr>start_time = (8, 0), end_time = (16, 0)\<rparr>]"
      and w = Monday and d = "end_of_day \<lparr>day = 738011, us = 0\<rparr>"]
  by (simp add: sample_week_def) code_simp

end
