(* ===== verification/CircPolicy.thy ===== *)
theory CircPolicy
  imports Records
begin

text \<open>
  Circulation policies: class \<open>CircPolicy\<close> of \<open>rero_ils/modules/circ_policies/api.py\<close> and
  \<open>CircPolicyFieldsExtension\<close> of \<open>extensions.py\<close>. The record \<open>cipo\<close> has the fields the code
  reads. The search index is the list of the indexed policies, in the order a scan yields them.
  Amounts of money are integers, in the smallest unit of the currency.
\<close>

section \<open>The record\<close>

datatype reminder_type = Due_soon | Overdue

text \<open>\<open>NotificationChannel\<close> of \<open>notifications/models.py\<close>.\<close>

datatype channel = Mail | Email | Patron_setting

record reminder =
  r_type :: reminder_type
  days_delay :: int
  r_fee :: "int option"
  r_channel :: channel
  r_template :: string

text \<open>The upper limit of an interval of days: the key is absent, a number of days, or the float
  infinity that \<open>get_overdue_intervals\<close> writes.\<close>

datatype limit = Missing | Upto int | Infinite

record interval =
  i_from :: int
  i_to :: limit
  i_fee :: int

record overdue_fees =
  intervals :: "interval list"
  maximum_total_amount :: "int option"

text \<open>A reference to a library: the pid it resolves to, and the key \<open>pid\<close> of the reference
  itself, which only a resolved reference has.\<close>

record lib_ref =
  lib_pid :: string
  shown_pid :: "string option"

record setting =
  s_patron_type :: string
  s_item_type :: string

record cipo =
  cipo_pid :: string
  cipo_org :: string
  is_default :: bool
  policy_library_level :: bool
  allow_requests :: bool
  checkout_duration :: "int option"
  pickup_hold_duration :: "int option"
  number_renewals :: "int option"
  renewal_duration :: "int option"
  automatic_renewal :: bool
  reminders :: "reminder list"
  overdue :: "overdue_fees option"
  libs :: "lib_ref list"
  settings :: "setting list"

abbreviation raw_intervals :: "cipo \<Rightarrow> interval list" where
  "raw_intervals c \<equiv> (case overdue c of None \<Rightarrow> [] | Some f \<Rightarrow> intervals f)"

section \<open>Finding the policy of a loan\<close>

definition has_setting :: "string \<Rightarrow> string \<Rightarrow> cipo \<Rightarrow> bool" where
  "has_setting ptty itty c \<longleftrightarrow> list_ex (\<lambda>s. s_patron_type s = ptty \<and> s_item_type s = itty) (settings c)"

definition get_circ_policy_by_LPI :: "cipo list \<Rightarrow> string \<Rightarrow> string \<Rightarrow> string \<Rightarrow> string \<Rightarrow> cipo option" where
  "get_circ_policy_by_LPI index org lib ptty itty =
     find (\<lambda>c. policy_library_level c \<and> cipo_org c = org \<and> lib \<in> set (map lib_pid (libs c))
               \<and> has_setting ptty itty c) index"

definition get_circ_policy_by_OPI :: "cipo list \<Rightarrow> string \<Rightarrow> string \<Rightarrow> string \<Rightarrow> cipo option" where
  "get_circ_policy_by_OPI index org ptty itty =
     find (\<lambda>c. \<not> policy_library_level c \<and> cipo_org c = org \<and> has_setting ptty itty c) index"

definition get_default_circ_policy :: "cipo list \<Rightarrow> string \<Rightarrow> cipo option" where
  "get_default_circ_policy index org = find (\<lambda>c. cipo_org c = org \<and> is_default c) index"

definition provide_circ_policy :: "cipo list \<Rightarrow> string \<Rightarrow> string \<Rightarrow> string \<Rightarrow> string \<Rightarrow> cipo option" where
  "provide_circ_policy index org lib ptty itty =
     (case get_circ_policy_by_LPI index org lib ptty itty of
        Some c \<Rightarrow> Some c
      | None \<Rightarrow>
          (case get_circ_policy_by_OPI index org ptty itty of
             Some c \<Rightarrow> Some c
           | None \<Rightarrow> get_default_circ_policy index org))"

section \<open>Reminders and overdue intervals\<close>

definition can_checkout :: "cipo \<Rightarrow> bool" where
  "can_checkout c \<longleftrightarrow> checkout_duration c \<noteq> None"

definition due_soon_interval_days :: "cipo \<Rightarrow> int" where
  "due_soon_interval_days c =
     (case filter (\<lambda>r. r_type r = Due_soon) (reminders c) of
        [] \<Rightarrow> 1
      | r # _ \<Rightarrow> days_delay r)"

text \<open>\<open>get_overdue_intervals\<close> sorts the intervals by their lower limit (stably) and closes the last
  one at infinity when it has no upper limit.\<close>

definition close_last :: "interval list \<Rightarrow> interval list" where
  "close_last is =
     (if is = [] then []
      else if i_to (last is) = Missing then butlast is @ [(last is)\<lparr>i_to := Infinite\<rparr>]
      else is)"

definition get_overdue_intervals :: "cipo \<Rightarrow> interval list" where
  "get_overdue_intervals c = close_last (sort_key i_from (raw_intervals c))"

definition get_reminders :: "cipo \<Rightarrow> reminder_type \<Rightarrow> int option \<Rightarrow> reminder list" where
  "get_reminders c ty lim =
     (let rs = filter (\<lambda>r. r_type r = ty \<and> (case lim of None \<Rightarrow> True | Some n \<Rightarrow> days_delay r \<le> n)) (reminders c)
      in if ty = Overdue then sort_key days_delay rs else rs)"

text \<open>The index is a counter of the callers and not negative.\<close>

definition get_reminder :: "cipo \<Rightarrow> reminder_type \<Rightarrow> nat \<Rightarrow> reminder option" where
  "get_reminder c ty idx =
     (let rs = get_reminders c ty None in
      if rs \<noteq> [] \<and> idx < length rs then Some (rs ! idx) else None)"

definition maxsize :: int where
  "maxsize = 9223372036854775807"

definition initial_overdue_days :: "cipo \<Rightarrow> int option" where
  "initial_overdue_days c =
     (let is = get_overdue_intervals c; r = get_reminder c Overdue 0 in
      if is \<noteq> [] \<or> r \<noteq> None
      then Some (min (if is \<noteq> [] then i_from (hd is) else maxsize)
                     (case r of Some x \<Rightarrow> days_delay x | None \<Rightarrow> maxsize))
      else None)"

section \<open>Validation\<close>

text \<open>
  The loop over the sorted intervals. The test for the last interval compares dicts by value;
  comparing a number with the absent limit of the interval before raises a \<open>TypeError\<close>. The
  answer is the message, \<open>None\<close> when the loop passes.
\<close>

fun limit_str :: "(int \<Rightarrow> string) \<Rightarrow> limit \<Rightarrow> string" where
  "limit_str show_int Missing = ''None''"
| "limit_str show_int (Upto n) = show_int n"
| "limit_str show_int Infinite = ''inf''"

text \<open>\<open>str(int)\<close>.\<close>

fun digits :: "nat \<Rightarrow> string" where
  "digits n = (if n < 10 then [char_of (48 + n)] else digits (n div 10) @ [char_of (48 + n mod 10)])"

declare digits.simps [simp del]

definition show_int :: "int \<Rightarrow> string" where
  "show_int n = (if n < 0 then ''-'' @ digits (nat (- n)) else digits (nat n))"

fun check_intervals :: "interval \<Rightarrow> int \<Rightarrow> limit \<Rightarrow> interval list \<Rightarrow> py_error + string option" where
  "check_intervals final last_lower last_upper [] = Inr None"
| "check_intervals final last_lower last_upper (iv # rest) =
     (let lower_limit = i_from iv; upper_limit = i_to iv;
          range = ''['' @ show_int lower_limit @ ''-'' @ limit_str show_int upper_limit @ '']'' in
      if upper_limit = Missing \<and> iv \<noteq> final
        then Inr (Some ''Only the last interval can omit the upper limit.'')
      else case last_upper of
          Missing \<Rightarrow> Inl TypeError
        | Infinite \<Rightarrow> Inr (Some (''Another interval covers this lower limit interval :: '' @ range))
        | Upto n \<Rightarrow>
            if lower_limit \<le> n
              then Inr (Some (''Another interval covers this lower limit interval :: '' @ range))
            else if (case upper_limit of Upto m \<Rightarrow> m \<noteq> 0 \<and> m \<le> last_lower | _ \<Rightarrow> False)
              then Inr (Some (''Another interval covers this upper limit interval :: '' @ range))
            else check_intervals final lower_limit upper_limit rest)"

definition validate_intervals :: "interval list \<Rightarrow> py_error + string option" where
  "validate_intervals is =
     (let sorted = sort_key i_from is in
      if sorted = [] then Inr None else check_intervals (last sorted) (-1) (Upto 0) sorted)"

definition validate_reminders :: "reminder list \<Rightarrow> string option" where
  "validate_reminders rs =
     (let due_soon = filter (\<lambda>r. r_type r = Due_soon) rs;
          delays = map days_delay (filter (\<lambda>r. r_type r = Overdue) rs) in
      if length due_soon > 1
        then Some (''Only one '' @ [quote_char] @ ''due soon'' @ [quote_char] @ '' reminder can be defined by CircPolicy'')
      else if length (remdups delays) \<noteq> length delays
        then Some (''Delay for '' @ [quote_char] @ ''overdue'' @ [quote_char] @ '' reminder should be unique.'')
      else None)"

text \<open>The settings are looked up one after the other; a patron type or item type that is not found
  is \<open>None\<close> and has no method \<open>get\<close>.\<close>

fun validate_settings ::
  "(string \<Rightarrow> string option) \<Rightarrow> (string \<Rightarrow> string option) \<Rightarrow> string \<Rightarrow> setting list \<Rightarrow> py_error + string option" where
  "validate_settings patron_type_org item_type_org org [] = Inr None"
| "validate_settings patron_type_org item_type_org org (s # ss) =
     (case patron_type_org (s_patron_type s) of
        None \<Rightarrow> Inl AttributeError
      | Some po \<Rightarrow>
          (case item_type_org (s_item_type s) of
             None \<Rightarrow> Inl AttributeError
           | Some io \<Rightarrow>
               if po \<noteq> org \<or> io \<noteq> org then Inr (Some ''CircPolicy: PatronType ItemType Org diff'')
               else validate_settings patron_type_org item_type_org org ss))"

definition validate_libraries :: "(string \<Rightarrow> bool) \<Rightarrow> lib_ref list \<Rightarrow> string option" where
  "validate_libraries library_exists ls =
     (case find (\<lambda>l. \<not> library_exists (lib_pid l)) ls of
        None \<Rightarrow> None
      | Some l \<Rightarrow> Some (''CircPolicy: no library: ''
                     @ (case shown_pid l of None \<Rightarrow> ''None'' | Some p \<Rightarrow> p)))"

text \<open>A check that gives a message ends the validation.\<close>

definition or_else :: "'e + 'm option \<Rightarrow> 'e + 'm option \<Rightarrow> 'e + 'm option" where
  "or_else a b = and_then a (\<lambda>m. if m = None then b else Inr m)"

text \<open>Numbers that are absent or zero are false.\<close>

definition truthy :: "int option \<Rightarrow> bool" where
  "truthy x = (case x of None \<Rightarrow> False | Some n \<Rightarrow> n \<noteq> 0)"

definition extended_validation ::
  "cipo list \<Rightarrow> (string \<Rightarrow> bool) \<Rightarrow> (string \<Rightarrow> string option) \<Rightarrow> (string \<Rightarrow> string option) \<Rightarrow> cipo \<Rightarrow> py_error + string option" where
  "extended_validation index library_exists patron_type_org item_type_org c =
     or_else (Inr (if is_default c
                   then (case get_default_circ_policy index (cipo_org c) of
                           None \<Rightarrow> None
                         | Some d \<Rightarrow> if cipo_pid d \<noteq> cipo_pid c
                             then Some ''CircPolicy: already a default policy for this org'' else None)
                   else None))
     (or_else (Inr (validate_libraries library_exists (libs c)))
     (or_else (validate_settings patron_type_org item_type_org (cipo_org c) (settings c))
     (or_else (Inr (validate_reminders (reminders c)))
     (or_else (validate_intervals (raw_intervals c))
     (Inr (if truthy (number_renewals c) \<and> \<not> truthy (renewal_duration c)
           then Some ''A renewal duration is required if renewals are enabled.'' else None))))))"

text \<open>\<open>CircPolicyFieldsExtension\<close>, before a policy is created or committed.\<close>

definition pickup_hold_duration_check :: "cipo \<Rightarrow> cipo" where
  "pickup_hold_duration_check c = (if allow_requests c then c else c\<lparr>pickup_hold_duration := None\<rparr>)"

section \<open>Deleting a policy\<close>

definition reasons_to_keep :: "cipo \<Rightarrow> (string \<times> bool) list" where
  "reasons_to_keep c = (if is_default c then [(''is_default'', True)] else [])"

text \<open>The two keys of the dict \<open>reasons_not_to_delete\<close> returns; the links to the record come from
  the search index.\<close>

definition reasons_not_to_delete :: "cipo \<Rightarrow> 'l list \<Rightarrow> (string \<times> bool) list option \<times> 'l list option" where
  "reasons_not_to_delete c links =
     (let others = reasons_to_keep c in
      (if others \<noteq> [] then Some others else None, if links \<noteq> [] then Some links else None))"

section \<open>May the patron request or check out\<close>

record borrower =
  is_patron :: bool
  patron_type :: string

text \<open>What a policy looks at in the record that is requested.\<close>

datatype resource =
    Item_res (res_org: string) (res_lib: string) (res_category: string)
  | Holding_res (res_org: string) (res_lib: string) (res_category: string)
  | Other_res (res_org: string) (res_lib: string) string

definition no_patron_role :: verdict where
  "no_patron_role = (False, [(''circulation_policy_no_patron_role'', ''Patron doesn't have the correct role'')])"

definition policy_disallows :: verdict where
  "policy_disallows = (False, [(''circulation_policy_disallows'', ''Circulation policy disallows the operation.'')])"

definition can_request :: "cipo list \<Rightarrow> resource \<Rightarrow> borrower option \<Rightarrow> string option \<Rightarrow> py_error + verdict" where
  "can_request index res patron library =
     (case patron of
        None \<Rightarrow> Inr granted
      | Some p \<Rightarrow>
          if \<not> is_patron p then Inr no_patron_role
          else
            let lib = (case library of Some l \<Rightarrow> l | None \<Rightarrow> res_lib res) in
            case res of
              Other_res _ _ name \<Rightarrow> Inl (CirculationException (''This resource cannot be                 requested : '' @ name))
            | _ \<Rightarrow>
                (case provide_circ_policy index (res_org res) lib (patron_type p) (res_category res) of
                   None \<Rightarrow> Inl AttributeError
                 | Some c \<Rightarrow> Inr (if allow_requests c then granted else policy_disallows)))"

definition allow_checkout :: "cipo list \<Rightarrow> resource \<Rightarrow> borrower option \<Rightarrow> string option \<Rightarrow> py_error + verdict" where
  "allow_checkout index item patron library =
     (case patron of
        None \<Rightarrow> Inr granted
      | Some p \<Rightarrow>
          if \<not> is_patron p then Inr no_patron_role
          else
            let lib = (case library of Some l \<Rightarrow> l | None \<Rightarrow> res_lib item) in
            case provide_circ_policy index (res_org item) lib (patron_type p) (res_category item) of
              None \<Rightarrow> Inl AttributeError
            | Some c \<Rightarrow> Inr (if can_checkout c then granted else policy_disallows))"

section \<open>The best policy\<close>

text \<open>How closely a policy fits a loan: 3 for the library, 2 for the organisation, 1 for the default
  policy, 0 when it does not apply.\<close>

definition specificity :: "string \<Rightarrow> string \<Rightarrow> string \<Rightarrow> string \<Rightarrow> cipo \<Rightarrow> nat" where
  "specificity org lib ptty itty c =
     (if cipo_org c \<noteq> org then 0
      else if policy_library_level c \<and> lib \<in> set (map lib_pid (libs c)) \<and> has_setting ptty itty c then 3
      else if \<not> policy_library_level c \<and> has_setting ptty itty c then 2
      else if is_default c then 1 else 0)"

lemma LPI_None:
  "get_circ_policy_by_LPI index org lib ptty itty = None \<Longrightarrow> list_all (\<lambda>c. specificity org lib ptty itty c \<le> 2) index"
  by (auto simp: get_circ_policy_by_LPI_def find_None_iff list_all_iff specificity_def)

lemma OPI_None:
  "get_circ_policy_by_LPI index org lib ptty itty = None \<Longrightarrow> get_circ_policy_by_OPI index org ptty itty = None \<Longrightarrow>
   list_all (\<lambda>c. specificity org lib ptty itty c \<le> 1) index"
  by (auto simp: get_circ_policy_by_LPI_def get_circ_policy_by_OPI_def find_None_iff list_all_iff specificity_def)

section \<open>What the validation ensures\<close>

lemma or_else_None: "or_else a b = Inr None \<longleftrightarrow> a = Inr None \<and> b = Inr None"
  by (cases a) (auto simp: or_else_def)

definition before :: "interval \<Rightarrow> interval \<Rightarrow> bool" where
  "before a b \<longleftrightarrow> (case i_to a of Upto n \<Rightarrow> n < i_from b | _ \<Rightarrow> False)"

lemma check_intervals_step:
  "check_intervals final lo up (iv # rest) = Inr None \<Longrightarrow>
   (\<exists>n. up = Upto n \<and> n < i_from iv) \<and> check_intervals final (i_from iv) (i_to iv) rest = Inr None"
  by (cases up) (auto simp: Let_def split: if_splits)

lemma check_intervals_chain:
  "check_intervals final lo up is = Inr None \<Longrightarrow>
   successively before is \<and> (is \<noteq> [] \<longrightarrow> (\<exists>n. up = Upto n \<and> n < i_from (hd is)))"
proof (induction "is" arbitrary: lo up)
  case (Cons iv rest)
  from check_intervals_step [OF Cons.prems] have s: "\<exists>n. up = Upto n \<and> n < i_from iv"
    and "check_intervals final (i_from iv) (i_to iv) rest = Inr None" by auto
  from Cons.IH [OF this(2)] s show ?case
    by (cases rest) (auto simp: before_def)
qed simp

lemma chain_sorted_wrt:
  "successively before is \<Longrightarrow> sorted (map i_from is) \<Longrightarrow> sorted_wrt before is"
proof (induction "is")
  case (Cons a "is")
  show ?case
  proof (cases "is")
    case (Cons b bs)
    with Cons.prems have ab: "before a b" and ch: "successively before is" "sorted (map i_from is)" by auto
    have "before a c" if "c \<in> set is" for c
    proof -
      from Cons.prems(2) Cons that have "i_from b \<le> i_from c" by auto
      with ab show ?thesis by (auto simp: before_def split: limit.splits)
    qed
    with Cons.IH [OF ch] show ?thesis by simp
  qed simp
qed simp

lemma validated_sorted:
  assumes "validate_intervals is = Inr None"
  shows "sorted_wrt before (sort_key i_from is)" and "list_all (\<lambda>iv. 0 < i_from iv) is"
proof -
  let ?s = "sort_key i_from is"
  show *: "sorted_wrt before ?s"
    using assms check_intervals_chain [of "last ?s" "-1" "Upto 0" ?s] chain_sorted_wrt [of ?s]
    by (auto simp: validate_intervals_def Let_def split: if_splits)
  have "0 < i_from iv" if iv: "iv \<in> set is" for iv
  proof -
    have "?s \<noteq> []" using iv by (metis set_sort empty_iff empty_set)
    then have "0 < i_from (hd ?s)"
      using assms check_intervals_chain [of "last ?s" "-1" "Upto 0" ?s]
      by (auto simp: validate_intervals_def Let_def)
    with hd_sort_key_le [OF iv, of i_from] show ?thesis by simp
  qed
  then show "list_all (\<lambda>iv. 0 < i_from iv) is" by (simp add: list_all_iff)
qed

definition covers :: "int \<Rightarrow> interval \<Rightarrow> bool" where
  "covers d iv \<longleftrightarrow> i_from iv \<le> d \<and> (case i_to iv of Upto n \<Rightarrow> d \<le> n | _ \<Rightarrow> True)"

lemma before_covers: "before a b \<Longrightarrow> \<not> (covers d a \<and> covers d b)"
  by (auto simp: before_def covers_def split: limit.splits)

lemma sorted_wrt_covers: "sorted_wrt before is \<Longrightarrow> length (filter (covers d) is) \<le> 1"
proof (induction "is")
  case (Cons a "is")
  then show ?case
  proof (cases "covers d a")
    case True
    have "filter (covers d) is = []"
      using Cons.prems True before_covers [of a _ d] by (auto simp: filter_empty_conv)
    with True show ?thesis by simp
  qed simp
qed simp

lemma length_filter_sort: "length (filter P (sort_key f xs)) = length (filter P xs)"
  by (simp add: filter_sort)

lemma validated_covers_once:
  "validate_intervals is = Inr None \<Longrightarrow> length (filter (covers d) is) \<le> 1"
  using sorted_wrt_covers [OF validated_sorted(1), of "is" d] by (simp add: length_filter_sort)

lemma validate_reminders_None:
  "validate_reminders rs = None \<longleftrightarrow>
     length (filter (\<lambda>r. r_type r = Due_soon) rs) \<le> 1
     \<and> distinct (map days_delay (filter (\<lambda>r. r_type r = Overdue) rs))"
proof -
  have "length (remdups ds) = length ds \<longleftrightarrow> distinct ds" for ds :: "int list"
    by (metis distinct_remdups_id length_remdups_eq remdups_id_iff_distinct)
  then show ?thesis by (auto simp: validate_reminders_def Let_def not_less simp del: length_map)
qed

lemma validate_settings_None:
  "validate_settings po io org ss = Inr None \<longleftrightarrow>
     list_all (\<lambda>s. po (s_patron_type s) = Some org \<and> io (s_item_type s) = Some org) ss"
  by (induction ss) (auto split: option.split)

lemma validate_libraries_None:
  "validate_libraries ex ls = None \<longleftrightarrow> list_all (\<lambda>l. ex (lib_pid l)) ls"
  by (auto simp: validate_libraries_def find_None_iff list_all_iff split: option.splits dest!: find_Some_in)

text \<open>Two equal intervals without an upper limit: the test for the last interval compares them by
  value, so the loop goes on and compares a number with the absent limit.\<close>

lemma open_interval_twice:
  assumes "i_to iv = Missing" and "0 < i_from iv"
  shows "validate_intervals [iv, iv] = Inl TypeError"
  using assms by (simp add: validate_intervals_def Let_def)

text \<open>An interval whose limits are the wrong way round passes when it is the first one.\<close>

lemma inverted_interval_accepted:
  "validate_intervals [\<lparr>i_from = 10, i_to = Upto 5, i_fee = 100\<rparr>] = Inr None"
  by (simp add: validate_intervals_def Let_def)

section \<open>The first day of the overdue period\<close>

lemma hd_close_last: "is \<noteq> [] \<Longrightarrow> i_from (hd (close_last is)) = i_from (hd is)"
  by (cases "is" rule: rev_cases; cases "butlast is") (auto simp: close_last_def)

lemma close_last_Nil: "close_last is = [] \<longleftrightarrow> is = []"
  by (simp add: close_last_def)

lemma overdue_reminder:
  "get_reminder c Overdue 0 = (if filter (\<lambda>r. r_type r = Overdue) (reminders c) = [] then None
     else Some (hd (sort_key days_delay (filter (\<lambda>r. r_type r = Overdue) (reminders c)))))"
  by (simp add: get_reminder_def get_reminders_def Let_def hd_conv_nth)

section \<open>The properties\<close>

text \<open>
  C4. The policy of a loan is the closest one: when \<open>provide_circ_policy\<close> finds a policy, it is
  in the index, it applies to the loan, and no policy of the index fits more closely (library
  before organisation before default); when it finds none, no policy of the index applies.
\<close>

theorem closest_policy:
  "case provide_circ_policy index org lib ptty itty of
     None \<Rightarrow> list_all (\<lambda>c. specificity org lib ptty itty c = 0) index
   | Some p \<Rightarrow> p \<in> set index \<and> 0 < specificity org lib ptty itty p
       \<and> list_all (\<lambda>c. specificity org lib ptty itty c \<le> specificity org lib ptty itty p) index"
proof (cases "get_circ_policy_by_LPI index org lib ptty itty")
  case (Some p)
  then have "p \<in> set index" and "specificity org lib ptty itty p = 3"
    by (auto simp: get_circ_policy_by_LPI_def specificity_def dest!: find_Some_in)
  with Some show ?thesis by (auto simp: provide_circ_policy_def specificity_def list_all_iff)
next
  case None
  show ?thesis
  proof (cases "get_circ_policy_by_OPI index org ptty itty")
    case (Some p)
    then have "p \<in> set index" and "specificity org lib ptty itty p = 2"
      by (auto simp: get_circ_policy_by_OPI_def specificity_def dest!: find_Some_in)
    with Some None LPI_None [OF None] show ?thesis by (simp add: provide_circ_policy_def)
  next
    case opi: None
    show ?thesis
    proof (cases "get_default_circ_policy index org")
      case (Some p)
      then have p: "p \<in> set index" "1 \<le> specificity org lib ptty itty p"
        by (auto simp: get_default_circ_policy_def specificity_def dest!: find_Some_in)
      with OPI_None [OF None opi] have "list_all (\<lambda>c. specificity org lib ptty itty c \<le> specificity org lib ptty itty p) index"
        by (auto simp: list_all_iff)
      with Some None opi p show ?thesis by (simp add: provide_circ_policy_def)
    next
      case dflt: None
      then have "specificity org lib ptty itty c = 0" if "c \<in> set index" for c
        using OPI_None [OF None opi] that
        by (auto simp: get_default_circ_policy_def find_None_iff list_all_iff specificity_def split: if_splits)
      with dflt None opi show ?thesis by (simp add: provide_circ_policy_def list_all_iff)
    qed
  qed
qed

text \<open>
  C5. A policy that passes the validation charges no day twice: every day of delay lies in at most
  one of its overdue intervals; it has at most one due-soon reminder, its overdue reminders come at
  different delays, all its settings belong to its organisation, its libraries exist, and enabled
  renewals have a duration.
\<close>

theorem valid_policy:
  assumes "extended_validation index library_exists patron_type_org item_type_org c = Inr None"
  shows "length (filter (covers d) (raw_intervals c)) \<le> 1
    \<and> length (filter (\<lambda>r. r_type r = Due_soon) (reminders c)) \<le> 1
    \<and> distinct (map days_delay (filter (\<lambda>r. r_type r = Overdue) (reminders c)))
    \<and> list_all (\<lambda>s. patron_type_org (s_patron_type s) = Some (cipo_org c)
           \<and> item_type_org (s_item_type s) = Some (cipo_org c)) (settings c)
    \<and> list_all (\<lambda>l. library_exists (lib_pid l)) (libs c)
    \<and> \<not> (truthy (number_renewals c) \<and> \<not> truthy (renewal_duration c))"
  using assms validated_covers_once [of "raw_intervals c" d]
  by (simp_all add: extended_validation_def or_else_None validate_reminders_None
      validate_settings_None validate_libraries_None split: if_splits)

definition sample_cipo :: cipo where
  "sample_cipo =
     \<lparr>cipo_pid = ''1'', cipo_org = ''org1'', is_default = True, policy_library_level = False,
      allow_requests = True, checkout_duration = Some 30, pickup_hold_duration = Some 10,
      number_renewals = Some 2, renewal_duration = Some 15, automatic_renewal = False,
      reminders = [\<lparr>r_type = Overdue, days_delay = 7, r_fee = None, r_channel = Patron_setting, r_template = ''email/overdue''\<rparr>,
                   \<lparr>r_type = Due_soon, days_delay = 3, r_fee = None, r_channel = Mail, r_template = ''email/due_soon''\<rparr>],
      overdue = Some \<lparr>intervals = [\<lparr>i_from = 11, i_to = Missing, i_fee = 20\<rparr>,
                                   \<lparr>i_from = 5, i_to = Upto 10, i_fee = 10\<rparr>],
                      maximum_total_amount = Some 500\<rparr>,
      libs = [], settings = [\<lparr>s_patron_type = ''p1'', s_item_type = ''i1''\<rparr>]\<rparr>"

theorem valid_policy_witness:
  "length (filter (covers 11) (raw_intervals sample_cipo)) \<le> 1"
proof -
  have "extended_validation [sample_cipo] (\<lambda>l. True) (\<lambda>p. Some ''org1'') (\<lambda>i. Some ''org1'') sample_cipo = Inr None"
    by code_simp
  from valid_policy [OF this, of 11] show ?thesis by (rule conjunct1)
qed

text \<open>
  The first overdue day of a policy is its earliest fee or reminder: with numbers of days that
  fit a machine integer, \<open>initial_overdue_days\<close> is the least lower limit of the overdue intervals
  and delay of the overdue reminders, and absent exactly when the policy has neither.
\<close>

theorem first_overdue_day:
  assumes "list_all (\<lambda>n. n \<le> maxsize) (map i_from (raw_intervals c)
      @ map days_delay (filter (\<lambda>r. r_type r = Overdue) (reminders c)))"
  shows "initial_overdue_days c =
     (let ds = map i_from (raw_intervals c) @ map days_delay (filter (\<lambda>r. r_type r = Overdue) (reminders c))
      in if ds = [] then None else Some (Min (set ds)))"
proof -
  define rs where "rs = filter (\<lambda>r. r_type r = Overdue) (reminders c)"
  define is' where "is' = raw_intervals c"
  note r = overdue_reminder [of c, folded rs_def]
  have i: "get_overdue_intervals c = close_last (sort_key i_from is')"
    by (simp add: get_overdue_intervals_def is'_def)
  have bound: "is' \<noteq> [] \<Longrightarrow> i_from (hd (sort_key i_from is')) \<le> maxsize"
    "rs \<noteq> [] \<Longrightarrow> days_delay (hd (sort_key days_delay rs)) \<le> maxsize"
    using assms hd_sort_key_in [of is' i_from] hd_sort_key_in [of rs days_delay]
    unfolding is'_def [symmetric] rs_def [symmetric] by (auto simp: list_all_iff)
  show ?thesis
    using bound
    by (cases "is' = []"; cases "rs = []")
      (simp_all add: initial_overdue_days_def Let_def i r close_last_Nil hd_close_last hd_sort_key_Min
        is'_def [symmetric] rs_def [symmetric] Min_Un)
qed

theorem first_overdue_day_witness: "initial_overdue_days sample_cipo = Some 5"
  by (subst first_overdue_day) code_simp+

end
