(* ===== verification/Loans.thy ===== *)
theory Loans
  imports Calendar CircPolicy "HOL-Library.Multiset"
begin

text \<open>
  Loans: class \<open>Loan\<close> of \<open>rero_ils/modules/loans/api.py\<close>, its states and actions in \<open>models.py\<close>,
  the functions of \<open>utils.py\<close> that compute durations, the extensions of \<open>extensions.py\<close> that write
  dates before a commit, and the cleaning tasks of \<open>tasks.py\<close>.

  Dates of a loan are stamps in UTC; \<open>localize\<close> and \<open>to_utc\<close> convert to and from the time zone of
  the library. What a method reads from another record (the policy, the calendar of a library,
  the number of requests on the item) is an argument. Amounts are integers in the smallest unit of
  the currency, where the code rounds floats to two digits.
\<close>

section \<open>States, actions and the record\<close>

datatype loan_state =
    CREATED | PENDING | ITEM_IN_TRANSIT_FOR_PICKUP | ITEM_IN_TRANSIT_TO_HOUSE
  | ITEM_AT_DESK | ITEM_ON_LOAN | ITEM_RETURNED | CANCELLED

definition CONCLUDED :: "loan_state list" where
  "CONCLUDED = [CANCELLED, ITEM_RETURNED]"

definition ITEM_IN_TRANSIT :: "loan_state list" where
  "ITEM_IN_TRANSIT = [ITEM_IN_TRANSIT_TO_HOUSE, ITEM_IN_TRANSIT_FOR_PICKUP]"

definition REQUEST_STATES :: "loan_state list" where
  "REQUEST_STATES = [PENDING, ITEM_AT_DESK, ITEM_IN_TRANSIT_FOR_PICKUP]"

text \<open>The actions of \<open>LoanAction\<close>, with the string each stands for.\<close>

datatype loan_action =
    REQUEST | CHECKOUT | CHECKIN | VALIDATE | RECEIVE | RETURN_MISSING | EXTEND | CANCEL | NO | UPDATE

fun action_name :: "loan_action \<Rightarrow> string" where
  "action_name REQUEST = ''request''"
| "action_name CHECKOUT = ''checkout''"
| "action_name CHECKIN = ''checkin''"
| "action_name VALIDATE = ''validate''"
| "action_name RECEIVE = ''receive''"
| "action_name RETURN_MISSING = ''return_missing''"
| "action_name EXTEND = ''extend_loan''"
| "action_name CANCEL = ''cancel''"
| "action_name NO = ''no''"
| "action_name UPDATE = ''update''"

record loan =
  l_pid :: string
  l_state :: "loan_state option"
  l_item :: string
  l_patron :: string
  pickup_location :: "string option"
  transaction_location :: "string option"
  transaction_user :: "string option"
  checkout_location :: "string option"
  end_date :: "stamp option"
  last_end_date :: "stamp option"
  due_soon_date :: "stamp option"
  request_expire_date :: "stamp option"
  request_start_date :: "stamp option"
  transaction_date :: "stamp option"
  l_trigger :: "string option"
  extension_count :: "int option"
  to_anonymize :: bool
  auto_extend :: bool

text \<open>Instants as microseconds, and \<open>timedelta\<close>s as their differences.\<close>

definition instant :: "stamp \<Rightarrow> int" where
  "instant d = day d * us_per_day + us d"

lemma earlier_instant:
  "0 \<le> us a \<Longrightarrow> us a < us_per_day \<Longrightarrow> 0 \<le> us b \<Longrightarrow> us b < us_per_day \<Longrightarrow> earlier a b \<longleftrightarrow> instant a < instant b"
proof (cases "day a" "day b" rule: linorder_cases)
  case less
  assume "us a < us_per_day" "0 \<le> us b"
  moreover from less have "day a * us_per_day + us_per_day \<le> day b * us_per_day"
    unfolding us_per_day_def by linarith
  ultimately show ?thesis using less by (simp add: earlier_def instant_def)
next
  case greater
  assume "0 \<le> us a" "us b < us_per_day"
  moreover from greater have "day b * us_per_day + us_per_day \<le> day a * us_per_day"
    unfolding us_per_day_def by linarith
  ultimately show ?thesis using greater by (simp add: earlier_def instant_def)
qed (simp add: earlier_def instant_def)

section \<open>Late, overdue, due soon\<close>

definition is_loan_late :: "stamp \<Rightarrow> stamp \<Rightarrow> bool" where
  "is_loan_late now due \<longleftrightarrow> earlier due now"

definition is_loan_overdue :: "stamp \<Rightarrow> cipo option \<Rightarrow> loan \<Rightarrow> py_error + bool" where
  "is_loan_overdue now policy l =
     (if l_state l \<noteq> Some ITEM_ON_LOAN then Inr False
      else case policy of
          None \<Rightarrow> Inl AttributeError
        | Some c \<Rightarrow>
            (case end_date l of
               None \<Rightarrow> Inl TypeError
             | Some due \<Rightarrow>
                 Inr (case initial_overdue_days c of
                        None \<Rightarrow> False
                      | Some n \<Rightarrow> n \<noteq> 0 \<and> earlier (add_days (n - 1) due) now)))"

definition is_loan_due_soon :: "stamp \<Rightarrow> loan \<Rightarrow> bool" where
  "is_loan_due_soon date l =
     (case due_soon_date l of None \<Rightarrow> False | Some d \<Rightarrow> \<not> earlier date d)"

text \<open>The midnight, in UTC, of the day after the due date.\<close>

definition overdue_date :: "loan \<Rightarrow> stamp option" where
  "overdue_date l = (case end_date l of None \<Rightarrow> None | Some d \<Rightarrow> Some ((add_days 1 d)\<lparr>us := 0\<rparr>))"

section \<open>Overdue fees\<close>

text \<open>\<open>bisect_right\<close> on a sorted list.\<close>

definition bisect_right :: "int list \<Rightarrow> int \<Rightarrow> nat" where
  "bisect_right bounds n = length (takeWhile (\<lambda>b. b \<le> n) bounds)"

text \<open>The loop over the open days since the due date; the day number counts from 1.\<close>

fun fees_loop ::
  "interval list \<Rightarrow> int option \<Rightarrow> int \<Rightarrow> int \<Rightarrow> stamp list \<Rightarrow> py_error + (int \<times> stamp) list" where
  "fees_loop is max_overdue charged day_idx [] = Inr []"
| "fees_loop is max_overdue charged day_idx (d # ds) =
     (let idx = bisect_right (map i_from is) day_idx in
      if idx = 0 then fees_loop is max_overdue charged (day_idx + 1) ds
      else
        let iv = is ! (idx - 1) in
        if i_to iv = Missing then Inl (KeyError ''to'')
        else if (case i_to iv of Upto n \<Rightarrow> day_idx > n | _ \<Rightarrow> False)
          then fees_loop is max_overdue charged (day_idx + 1) ds
        else
          let fee = (case max_overdue of None \<Rightarrow> i_fee iv | Some m \<Rightarrow> min (i_fee iv) (m - charged));
              charged' = charged + fee in
          if (case max_overdue of None \<Rightarrow> False | Some m \<Rightarrow> m \<le> charged')
            then Inr [(fee, d)]
          else and_then (fees_loop is max_overdue charged' (day_idx + 1) ds) (\<lambda>fs. Inr ((fee, d) # fs)))"

definition get_overdue_fees ::
  "(stamp \<Rightarrow> stamp) \<Rightarrow> rrule \<Rightarrow> stamp \<Rightarrow> calendar \<Rightarrow> cipo option \<Rightarrow> stamp \<Rightarrow> py_error + (int \<times> stamp) list" where
  "get_overdue_fees localize rrule now cal policy due =
     (if \<not> is_loan_late now due then Inr []
      else case policy of
          None \<Rightarrow> Inl AttributeError
        | Some c \<Rightarrow>
            (case overdue c of
               None \<Rightarrow> Inr []
             | Some fee_settings \<Rightarrow>
                 let first = add_days 1 due in
                 if \<not> in_range first then Inl OverflowError
                 else and_then (get_open_days localize rrule cal first now) (\<lambda>ds.
                   fees_loop (get_overdue_intervals c) (maximum_total_amount fee_settings) 0 1
                     (map (\<lambda>d. (localize d)\<lparr>us := 0\<rparr>) ds))))"

definition sum_for_fees :: "(int \<times> 'd) list \<Rightarrow> int" where
  "sum_for_fees fees = (if fees = [] then 0 else sum_list (map fst fees))"

section \<open>Durations\<close>

text \<open>
  \<open>get_default_loan_duration\<close>: the days are counted from the eve of the expected due date, in
  the time zone of the library, where \<open>next_open\<close> need not convert.
\<close>

definition get_default_loan_duration ::
  "(stamp \<Rightarrow> stamp) \<Rightarrow> (stamp \<Rightarrow> stamp) \<Rightarrow> rrule \<Rightarrow> stamp \<Rightarrow> calendar \<Rightarrow> cipo option \<Rightarrow> py_error + int" where
  "get_default_loan_duration localize to_utc rrule now cal policy =
     (case policy of
        None \<Rightarrow> Inl AttributeError
      | Some c \<Rightarrow>
          let duration = (case checkout_duration c of None \<Rightarrow> 0 | Some n \<Rightarrow> n);
              eve = add_days (-1) (add_days duration (localize now)) in
          and_then (unless_never_open (next_open (\<lambda>d. d) rrule now cal eve False False) (add_days 1 eve)) (\<lambda>d.
            Inr (instant (to_utc (end_of_day d)) - instant now)))"

text \<open>\<open>get_extension_params\<close>, with \<open>from_end_date = False\<close> of the configuration: the number of
  renewals and the duration of the extension.\<close>

definition get_extension_params ::
  "(stamp \<Rightarrow> stamp) \<Rightarrow> (stamp \<Rightarrow> stamp) \<Rightarrow> rrule \<Rightarrow> stamp \<Rightarrow> calendar \<Rightarrow> cipo option \<Rightarrow> stamp
     \<Rightarrow> py_error + int option \<times> int" where
  "get_extension_params localize to_utc rrule now cal policy due =
     (case policy of
        None \<Rightarrow> Inl AttributeError
      | Some c \<Rightarrow>
          (case renewal_duration c of
             None \<Rightarrow> Inl TypeError
           | Some n \<Rightarrow>
               let eve = add_days (-1) (add_days n (localize now)) in
               and_then (unless_never_open (next_open (\<lambda>d. d) rrule now cal eve False False) (add_days 1 eve)) (\<lambda>d.
                 Inr (if day d < day due then Some 0 else number_renewals c,
                      instant (to_utc (end_of_day d)) - instant now))))"

definition extend_loan_data_is_valid ::
  "(stamp \<Rightarrow> stamp) \<Rightarrow> rrule \<Rightarrow> stamp \<Rightarrow> calendar \<Rightarrow> int option \<Rightarrow> stamp option \<Rightarrow> py_error + bool" where
  "extend_loan_data_is_valid localize rrule now cal renewal due =
     (case due of
        None \<Rightarrow> Inl TypeError
      | Some e \<Rightarrow>
          let n = (case renewal of None \<Rightarrow> 0 | Some k \<Rightarrow> k);
              eve = add_days (-1) (add_days n now) in
          and_then (unless_never_open (next_open localize rrule now cal eve False False) eve) (\<lambda>d. Inr (day d > day e)))"

definition validate_loan_duration :: "stamp \<Rightarrow> stamp \<Rightarrow> bool" where
  "validate_loan_duration start due \<longleftrightarrow> earlier start due"

text \<open>The guard of the transitions of a validated request, at the level of libraries.\<close>

definition validate_item_pickup_transaction_locations :: "loan_state \<Rightarrow> string \<Rightarrow> string \<Rightarrow> bool option" where
  "validate_item_pickup_transaction_locations dest pickup_library transaction_library =
     (if dest = ITEM_AT_DESK then Some (pickup_library = transaction_library)
      else if dest = ITEM_IN_TRANSIT_FOR_PICKUP then Some (pickup_library \<noteq> transaction_library)
      else None)"

section \<open>Extending a loan\<close>

definition loan_refuses :: "string \<Rightarrow> string \<Rightarrow> verdict" where
  "loan_refuses key why = (False, [(key, why)])"

text \<open>\<open>Loan.can_extend\<close>. The policy and the calendar are those of the library of the transaction.\<close>

definition can_extend ::
  "(stamp \<Rightarrow> stamp) \<Rightarrow> rrule \<Rightarrow> stamp \<Rightarrow> calendar \<Rightarrow> cipo option \<Rightarrow> nat \<Rightarrow> loan option \<Rightarrow> py_error + verdict" where
  "can_extend localize rrule now cal policy requests loan =
     (case loan of
        None \<Rightarrow> Inr granted
      | Some l \<Rightarrow>
          if l_state l \<noteq> Some ITEM_ON_LOAN
            then Inr (loan_refuses ''loan_bad_state'' ''The loan cannot be extended'')
          else case policy of
              None \<Rightarrow> Inl AttributeError
            | Some c \<Rightarrow>
                let count = (case extension_count l of None \<Rightarrow> 0 | Some n \<Rightarrow> n);
                    renewals = (case number_renewals c of None \<Rightarrow> 0 | Some n \<Rightarrow> n) in
                and_then (extend_loan_data_is_valid localize rrule now cal (renewal_duration c) (end_date l)) (\<lambda>valid.
                  Inr (if \<not> (count < renewals \<and> renewals > 0 \<and> valid)
                         then loan_refuses ''loan_policy_disallows'' ''Circulation policies disallows the operation.''
                       else if requests \<noteq> 0
                         then loan_refuses ''loan_pending_request'' ''A pending request exists on this item.''
                       else granted)))"

section \<open>Parameters of an action\<close>

definition action_required_params :: "string \<Rightarrow> string list" where
  "action_required_params action =
     (case dict_get
        [(''cancel_loan'', [''pid'']),
         (''validate_request'', [''pid'']),
         (action_name REQUEST, [''item_pid'', ''pickup_location_pid'', ''patron_pid'']),
         (action_name CHECKIN, [''pid'']),
         (action_name EXTEND, [''item_pid'']),
         (action_name CHECKOUT,
            [''item_pid'', ''patron_pid'', ''transaction_location_pid'', ''transaction_user_pid''])] action of
        None \<Rightarrow> []
      | Some ps \<Rightarrow> ps)
     @ [''transaction_location_pid'', ''transaction_user_pid'']"

text \<open>The missing parameters are a set; the model lists them in the order they are required.\<close>

definition check_required_params :: "string \<Rightarrow> string list \<Rightarrow> py_error + unit" where
  "check_required_params action given =
     (let missing = filter (\<lambda>p. p \<notin> set given) (action_required_params action) in
      if missing \<noteq> [] then Inl (MissingRequiredParameterError (join '', '' (remdups missing))) else Inr ())"

section \<open>Concluding and anonymizing\<close>

definition is_concluded :: "(string \<Rightarrow> bool) \<Rightarrow> loan \<Rightarrow> bool" where
  "is_concluded has_open_transaction l \<longleftrightarrow>
     (case l_state l of None \<Rightarrow> False | Some s \<Rightarrow> s \<in> set CONCLUDED)
     \<and> \<not> (l_pid l \<noteq> [] \<and> has_open_transaction (l_pid l))"

definition age :: "stamp \<Rightarrow> loan \<Rightarrow> int" where
  "age now l = (case transaction_date l of None \<Rightarrow> 0 | Some t \<Rightarrow> days_between t now)"

text \<open>The limit is absent when the configuration has none (infinity).\<close>

definition can_anonymize :: "(string \<Rightarrow> bool) \<Rightarrow> stamp \<Rightarrow> int option \<Rightarrow> loan \<Rightarrow> bool" where
  "can_anonymize has_open_transaction now limit l \<longleftrightarrow>
     is_concluded has_open_transaction l \<and> (case limit of None \<Rightarrow> False | Some n \<Rightarrow> age now l \<ge> n)"

text \<open>The fields \<open>create\<close> and \<open>update\<close> set, before the record is stored.\<close>

definition create_loan :: "(string \<Rightarrow> bool) \<Rightarrow> stamp \<Rightarrow> int option \<Rightarrow> bool \<Rightarrow> loan \<Rightarrow> loan" where
  "create_loan has_open_transaction now limit delete_pid data =
     (let d1 = (case l_state data of None \<Rightarrow> data\<lparr>l_state := Some CREATED\<rparr> | Some s \<Rightarrow> data);
          d2 = (if delete_pid then d1\<lparr>l_pid := []\<rparr> else d1)
      in d2\<lparr>to_anonymize := can_anonymize has_open_transaction now limit d2 \<and> \<not> to_anonymize d2\<rparr>)"

definition update_loan :: "(string \<Rightarrow> bool) \<Rightarrow> stamp \<Rightarrow> int option \<Rightarrow> loan \<Rightarrow> loan \<Rightarrow> loan" where
  "update_loan has_open_transaction now limit self data =
     (if \<not> to_anonymize self \<and> can_anonymize has_open_transaction now limit data
      then data\<lparr>to_anonymize := True\<rparr> else data)"

definition anonymize :: "loan \<Rightarrow> loan" where
  "anonymize l = l\<lparr>to_anonymize := True\<rparr>"

definition update_pickup_location :: "string \<Rightarrow> loan \<Rightarrow> py_error + loan" where
  "update_pickup_location location l =
     (if l_state l \<notin> set [Some PENDING, Some ITEM_IN_TRANSIT_FOR_PICKUP]
      then Inl (NoCirculationActionIsPermitted ''No circulation action is permitted'')
      else Inr (l\<lparr>pickup_location := Some location\<rparr>))"

text \<open>\<open>get_anonymized_candidates\<close> asks the search index, with a limit of its own; the task then
  tests each loan again.\<close>

definition get_anonymized_candidates :: "stamp \<Rightarrow> int \<Rightarrow> loan list \<Rightarrow> loan list" where
  "get_anonymized_candidates now limit loans =
     filter (\<lambda>l. (case l_state l of None \<Rightarrow> False | Some s \<Rightarrow> s \<in> set CONCLUDED) \<and> \<not> to_anonymize l
       \<and> (case transaction_date l of None \<Rightarrow> False | Some t \<Rightarrow> earlier t (add_days (- limit) now))) loans"

definition loan_anonymizer :: "(string \<Rightarrow> bool) \<Rightarrow> stamp \<Rightarrow> int \<Rightarrow> loan list \<Rightarrow> loan list \<times> nat" where
  "loan_anonymizer has_open_transaction now limit loans =
     (let chosen = (\<lambda>l. l \<in> set (get_anonymized_candidates now limit loans)
                        \<and> can_anonymize has_open_transaction now (Some limit) l) in
      (map (\<lambda>l. if chosen l then anonymize l else l) loans, length (filter chosen loans)))"

text \<open>\<open>delete_loans_created\<close>: loans that stayed in the state created; each loan comes with its
  creation date.\<close>

definition delete_loans_created :: "stamp \<Rightarrow> int \<Rightarrow> (loan \<times> stamp) list \<Rightarrow> (loan \<times> stamp) list \<times> nat" where
  "delete_loans_created now hours loans =
     (let bound = (if hours \<ge> 0 then instant now - hours * 3600000000 else instant now);
          gone = (\<lambda>(l, created). l_state l = Some CREATED \<and> instant created < bound)
      in (filter (\<lambda>x. \<not> gone x) loans, length (filter gone loans)))"

section \<open>Before a commit\<close>

definition add_checkout_location :: "loan \<Rightarrow> loan" where
  "add_checkout_location l =
     (if l_trigger l = Some ''checkout'' \<and> (case transaction_location l of None \<Rightarrow> False | Some p \<Rightarrow> p \<noteq> [])
      then l\<lparr>checkout_location := transaction_location l\<rparr> else l)"

text \<open>The pickup library is absent when the loan has no pickup location.\<close>

definition add_request_expiration_date ::
  "(stamp \<Rightarrow> stamp) \<Rightarrow> rrule \<Rightarrow> stamp \<Rightarrow> calendar option \<Rightarrow> cipo option \<Rightarrow> int \<Rightarrow> loan \<Rightarrow> py_error + loan" where
  "add_request_expiration_date localize rrule now pickup_library policy default_duration l =
     (if l_state l \<noteq> Some ITEM_AT_DESK \<or> request_expire_date l \<noteq> None then Inr l
      else case policy of
          None \<Rightarrow> Inl AttributeError
        | Some c \<Rightarrow>
            (case (allow_requests c, pickup_hold_duration c, pickup_library) of
               (True, Some n, Some cal) \<Rightarrow>
                 if n = 0 then Inr l
                 else case transaction_date l of
                     None \<Rightarrow> Inl TypeError
                   | Some t \<Rightarrow>
                       and_then (unless_never_open (next_open localize rrule now cal (add_days (n - 1) t) False False) (add_days default_duration t)) (\<lambda>d.
                         Inr (l\<lparr>request_expire_date := Some (end_of_day (localize d)),
                                request_start_date := Some (localize now)\<rparr>))
             | _ \<Rightarrow> Inr l))"

definition add_due_soon_date :: "cipo option \<Rightarrow> loan \<Rightarrow> py_error + loan" where
  "add_due_soon_date policy l =
     (case (l_state l, end_date l) of
        (Some ITEM_ON_LOAN, Some due) \<Rightarrow>
          (case policy of
             None \<Rightarrow> Inl AttributeError
           | Some c \<Rightarrow>
               let n = due_soon_interval_days c in
               Inr (if n \<noteq> 0 then l\<lparr>due_soon_date := Some ((add_days (- n) due)\<lparr>us := 0\<rparr>)\<rparr> else l))
      | _ \<Rightarrow> Inr l)"

definition add_last_end_date :: "loan \<Rightarrow> loan" where
  "add_last_end_date l =
     (if l_state l = Some ITEM_ON_LOAN \<and> end_date l \<noteq> None then l\<lparr>last_end_date := end_date l\<rparr> else l)"

definition pre_commit ::
  "(stamp \<Rightarrow> stamp) \<Rightarrow> rrule \<Rightarrow> stamp \<Rightarrow> calendar option \<Rightarrow> cipo option \<Rightarrow> cipo option \<Rightarrow> int \<Rightarrow> loan \<Rightarrow> py_error + loan" where
  "pre_commit localize rrule now pickup_library policy checkout_policy default_duration l =
     and_then (add_request_expiration_date localize rrule now pickup_library policy default_duration
                 (add_checkout_location l)) (\<lambda>l1.
     and_then (add_due_soon_date checkout_policy l1) (\<lambda>l2. Inr (add_last_end_date l2)))"

section \<open>Notifications of a loan\<close>

datatype notification_type =
    ACQUISITION_ORDER | AT_DESK | AUTO_EXTEND | AVAILABILITY | BOOKING | CLAIM_ISSUE | DUE_SOON | OVERDUE
  | RECALL | REQUEST_NOTICE | TRANSIT_NOTICE

definition REMINDERS_NOTIFICATIONS :: "notification_type list" where
  "REMINDERS_NOTIFICATIONS = [DUE_SOON, OVERDUE]"

definition INTERNAL_NOTIFICATIONS :: "notification_type list" where
  "INTERNAL_NOTIFICATIONS = [AT_DESK, BOOKING, REQUEST_NOTICE, TRANSIT_NOTICE]"

text \<open>A candidate is the pid of the loan it is about and its type. The requests on the item come
  as pids; \<open>on_loan\<close> is the loan of the item that is checked out.\<close>

definition get_notification_candidates ::
  "(string \<Rightarrow> notification_type \<Rightarrow> bool) \<Rightarrow> string list \<Rightarrow> loan option \<Rightarrow> bool \<Rightarrow> string option \<Rightarrow> loan
     \<Rightarrow> (string \<times> notification_type) list" where
  "get_notification_candidates notified item_requests on_loan negative_availability trigger l =
     (let requests = filter (\<lambda>p. p \<noteq> l_pid l) item_requests; has_request = requests \<noteq> [] in
      (if l_state l = Some ITEM_AT_DESK then [(l_pid l, AT_DESK), (l_pid l, AVAILABILITY)] else [])
      @ (if l_state l = Some PENDING \<and> \<not> has_request
         then (case on_loan of
                 Some co \<Rightarrow> if \<not> notified (l_pid co) RECALL then [(l_pid co, RECALL)] else []
               | None \<Rightarrow> if \<not> negative_availability then [(l_pid l, REQUEST_NOTICE)] else [])
         else [])
      @ (if trigger = Some (action_name CHECKOUT) \<and> has_request \<and> \<not> notified (l_pid l) RECALL
         then [(l_pid l, RECALL)] else [])
      @ (if l_state l = Some ITEM_IN_TRANSIT_TO_HOUSE \<and> \<not> has_request then [(l_pid l, TRANSIT_NOTICE)] else [])
      @ (if trigger = Some (action_name CHECKIN) \<and> has_request then [(l_pid l, BOOKING)] else [])
      @ (if trigger = Some ''extend'' \<and> auto_extend l then [(l_pid l, AUTO_EXTEND)] else []))"

section \<open>The fees of a day\<close>

text \<open>The rate of the n-th open day after the due date: the fee of the interval that covers it.\<close>

definition rate :: "interval list \<Rightarrow> int \<Rightarrow> int" where
  "rate is n = sum_list (map i_fee (filter (covers n) is))"

lemma bisect_Cons:
  "sorted (b # bs) \<Longrightarrow> bisect_right (b # bs) n = (if b \<le> n then Suc (bisect_right bs n) else 0)"
  by (simp add: bisect_right_def)

lemma lookup_covers:
  "sorted (map i_from is) \<Longrightarrow> sorted_wrt before is \<Longrightarrow>
   filter (covers n) is =
     (let k = bisect_right (map i_from is) n in
      if k = 0 then [] else if covers n (is ! (k - 1)) then [is ! (k - 1)] else [])"
proof (induction "is")
  case Nil
  then show ?case by (simp add: bisect_right_def)
next
  case (Cons a rest)
  then have ih: "filter (covers n) rest =
     (let k = bisect_right (map i_from rest) n in
      if k = 0 then [] else if covers n (rest ! (k - 1)) then [rest ! (k - 1)] else [])" by simp
  show ?case
  proof (cases "i_from a \<le> n")
    case False
    then have "\<not> covers n x" if "x \<in> set (a # rest)" for x
      using that Cons.prems(1) by (auto simp: covers_def)
    then have "filter (covers n) (a # rest) = []" by (auto simp: filter_empty_conv)
    with False Cons.prems(1) show ?thesis by (simp add: bisect_Cons Let_def)
  next
    case True
    let ?k = "bisect_right (map i_from rest) n"
    show ?thesis
    proof (cases "?k = 0")
      case True
      with ih \<open>i_from a \<le> n\<close> Cons.prems(1) show ?thesis by (simp add: bisect_Cons Let_def)
    next
      case False
      then obtain b bs where rest: "rest = b # bs" and b: "i_from b \<le> n"
        by (cases rest) (auto simp: bisect_right_def split: if_splits)
      then have "\<not> covers n a" using Cons.prems(2) by (auto simp: before_def covers_def split: limit.splits)
      with ih False \<open>i_from a \<le> n\<close> Cons.prems(1) show ?thesis
        by (simp add: bisect_Cons Let_def)
    qed
  qed
qed

definition cap :: "int option \<Rightarrow> int \<Rightarrow> int" where
  "cap m x = (case m of None \<Rightarrow> x | Some k \<Rightarrow> min x k)"

lemma rate_nonneg: "list_all (\<lambda>iv. 0 \<le> i_fee iv) is \<Longrightarrow> 0 \<le> rate is n"
  unfolding rate_def by (rule sum_list_nonneg) (auto simp: list_all_iff)

lemma sum_shift: "(\<Sum>i<Suc k. f (n + int i)) = f n + (\<Sum>i<k. f (n + 1 + int i))"
  by (subst sum.lessThan_Suc_shift) (simp add: algebra_simps)

lemma fees_loop_sum:
  assumes sorted: "sorted (map i_from is)" "sorted_wrt before is" and nonneg: "list_all (\<lambda>iv. 0 \<le> i_fee iv) is"
  shows "fees_loop is m charged n ds = Inr fees \<Longrightarrow> cap m charged = charged \<Longrightarrow>
    charged + sum_list (map fst fees) = cap m (charged + (\<Sum>i<length ds. rate is (n + int i)))"
proof (induction ds arbitrary: charged n fees)
  case (Cons d ds)
  define idx where "idx = bisect_right (map i_from is) n"
  define iv where "iv = is ! (idx - 1)"
  have iv': "is ! (idx - Suc 0) = iv" by (simp add: iv_def)
  have look: "filter (covers n) is = (if idx = 0 then [] else if covers n iv then [iv] else [])"
    using lookup_covers [OF sorted, of n] by (simp add: Let_def idx_def iv_def)
  note sum = sum_shift [of "rate is" n "length ds"]
  have low: "i_from iv \<le> n" if "idx \<noteq> 0"
  proof -
    have "idx - 1 < length (takeWhile (\<lambda>b. b \<le> n) (map i_from is))"
      using that by (simp add: idx_def bisect_right_def)
    from nth_mem [OF this] set_takeWhileD have "takeWhile (\<lambda>b. b \<le> n) (map i_from is) ! (idx - 1) \<le> n"
      by fastforce
    moreover have "length (takeWhile (\<lambda>b. b \<le> n) (map i_from is)) \<le> length is"
      by (metis length_map length_takeWhile_le)
    ultimately show ?thesis
      using \<open>idx - 1 < length _\<close> takeWhile_nth [OF \<open>idx - 1 < length _\<close>] by (simp add: iv_def)
  qed
  show ?case
  proof (cases "idx \<noteq> 0 \<and> covers n iv")
    case False
    then have r: "rate is n = 0" by (auto simp: rate_def look)
    have "fees_loop is m charged (n + 1) ds = Inr fees"
    proof (cases "idx = 0")
      case True
      with Cons.prems(1) show ?thesis by (simp add: Let_def idx_def [symmetric])
    next
      case nz: False
      with False low have "\<not> covers n iv" "i_from iv \<le> n" by auto
      then obtain u where "i_to iv = Upto u" "u < n" by (auto simp: covers_def split: limit.splits)
      with nz Cons.prems(1) show ?thesis by (simp add: Let_def idx_def [symmetric] iv')
    qed
    from Cons.IH [OF this Cons.prems(2)] r sum show ?thesis by simp
  next
    case True
    then have r: "rate is n = i_fee iv" by (simp add: rate_def look)
    have "iv \<in> set (filter (covers n) is)" using True look by simp
    then have iv: "iv \<in> set is" by simp
    then have pos: "0 \<le> i_fee iv" using nonneg by (simp add: list_all_iff)
    define fee where "fee = (case m of None \<Rightarrow> i_fee iv | Some k \<Rightarrow> min (i_fee iv) (k - charged))"
    have fee: "charged + fee = cap m (charged + i_fee iv)"
      by (auto simp: fee_def cap_def split: option.split)
    have step: "i_to iv \<noteq> Missing \<and> Inr fees = (if (case m of None \<Rightarrow> False | Some k \<Rightarrow> k \<le> charged + fee) then Inr [(fee, d)]
        else and_then (fees_loop is m (charged + fee) (n + 1) ds) (\<lambda>fs. Inr ((fee, d) # fs)))"
    proof -
      have "\<not> (case i_to iv of Upto u \<Rightarrow> n > u | _ \<Rightarrow> False)"
        using True by (auto simp: covers_def split: limit.splits)
      with True Cons.prems(1) show ?thesis
        by (simp add: Let_def idx_def [symmetric] iv' fee_def [symmetric] split: if_splits)
    qed
    have rest: "0 \<le> (\<Sum>i<length ds. rate is (n + 1 + int i))"
      by (rule sum_nonneg) (simp add: rate_nonneg [OF nonneg])
    show ?thesis
    proof (cases "case m of None \<Rightarrow> False | Some k \<Rightarrow> k \<le> charged + fee")
      case full: True
      then obtain k where k: "m = Some k" "k \<le> charged + fee" by (auto split: option.splits)
      with step have "fees = [(fee, d)]" by simp
      moreover have "charged + fee = k" "k \<le> charged + i_fee iv"
        using k fee by (auto simp: cap_def)
      moreover have "(\<Sum>i<length (d # ds). rate is (n + int i)) = i_fee iv + (\<Sum>i<length ds. rate is (n + 1 + int i))"
        using sum r by simp
      ultimately show ?thesis using rest by (simp add: k(1) cap_def)
    next
      case False
      then have "and_then (fees_loop is m (charged + fee) (n + 1) ds) (\<lambda>fs. Inr ((fee, d) # fs)) = Inr fees"
        using step by (simp only: if_False)
      then obtain fs where fs: "fees_loop is m (charged + fee) (n + 1) ds = Inr fs" and fees: "fees = (fee, d) # fs"
        by (auto simp: and_then_eq_Inr)
      have inv: "cap m (charged + fee) = charged + fee"
        unfolding fee by (auto simp: cap_def split: option.split)
      have same: "charged + fee = charged + i_fee iv"
        using False fee by (auto simp: cap_def split: option.splits)
      from Cons.IH [OF fs inv] fees r sum same show ?thesis by (simp add: add.assoc)
    qed
  qed
qed simp

lemma rate_close_last: "rate (close_last is) n = rate is n"
proof (cases "is" rule: rev_cases)
  case (snoc xs x)
  have "covers n (x\<lparr>i_to := Infinite\<rparr>) = covers n x" if "i_to x = Missing"
    using that by (simp add: covers_def)
  then show ?thesis by (auto simp: close_last_def snoc rate_def)
qed (simp add: close_last_def rate_def)

lemma rate_sort: "rate (sort_key f is) n = rate is n"
proof -
  have "mset (map i_fee (filter (covers n) (sort_key f is))) = mset (map i_fee (filter (covers n) is))"
    by simp
  then show ?thesis unfolding rate_def using sum_mset_sum_list by metis
qed

lemma close_last_snoc:
  "close_last (xs @ [x]) = xs @ [if i_to x = Missing then x\<lparr>i_to := Infinite\<rparr> else x]"
  by (simp add: close_last_def)

lemma close_last_sorted: "sorted (map i_from is) \<Longrightarrow> sorted (map i_from (close_last is))"
  by (cases "is" rule: rev_cases) (auto simp: close_last_snoc sorted_append close_last_def [of "[]"])

lemma close_last_before: "sorted_wrt before is \<Longrightarrow> sorted_wrt before (close_last is)"
  by (cases "is" rule: rev_cases) (auto simp: close_last_snoc sorted_wrt_append before_def close_last_def [of "[]"] split: limit.split limit.split_asm)

lemma close_last_fees: "list_all (\<lambda>iv. 0 \<le> i_fee iv) is \<Longrightarrow> list_all (\<lambda>iv. 0 \<le> i_fee iv) (close_last is)"
  by (cases "is" rule: rev_cases) (auto simp: close_last_snoc close_last_def [of "[]"])

lemma close_last_closed: "sorted_wrt before is \<Longrightarrow> list_all (\<lambda>iv. i_to iv \<noteq> Missing) (close_last is)"
  by (cases "is" rule: rev_cases)
    (auto simp: close_last_snoc sorted_wrt_append before_def list_all_iff close_last_def [of "[]"])

lemma bisect_right_le: "bisect_right bs n \<le> length bs"
  by (simp add: bisect_right_def length_takeWhile_le)

lemma fees_loop_returns:
  "list_all (\<lambda>iv. i_to iv \<noteq> Missing) is \<Longrightarrow> \<exists>fees. fees_loop is m charged n ds = Inr fees"
proof (induction ds arbitrary: charged n)
  case (Cons d ds)
  define idx where "idx = bisect_right (map i_from is) n"
  define iv where "iv = is ! (idx - Suc 0)"
  have "idx \<le> length is" using bisect_right_le [of "map i_from is" n] by (simp add: idx_def)
  then have iv: "idx \<noteq> 0 \<Longrightarrow> i_to iv \<noteq> Missing"
    using Cons.prems by (simp add: iv_def list_all_length)
  have ih: "\<exists>fees. fees_loop is m a (n + 1) ds = Inr fees" for a
    using Cons.IH Cons.prems by blast
  show ?case
  proof (cases "idx = 0")
    case True
    with ih [of charged] show ?thesis by (simp add: Let_def idx_def [symmetric])
  next
    case False
    define fee where "fee = (case m of None \<Rightarrow> i_fee iv | Some k \<Rightarrow> min (i_fee iv) (k - charged))"
    obtain fs where "fees_loop is m (charged + fee) (n + 1) ds = Inr fs" using ih by blast
    with False iv ih [of charged] show ?thesis
      by (simp add: Let_def idx_def [symmetric] iv_def [symmetric] fee_def [symmetric])
  qed
qed simp

section \<open>Open days after an eve\<close>

lemma first_open_from:
  assumes "next_open localize rrule now cal (add_days (n - 1) t) False False = Inr r"
  shows "day t + n \<le> day r \<and> day_open localize rrule cal (us t) (day r)
     \<and> \<not> (\<exists>x. day t + n \<le> x \<and> x < day r \<and> day_open localize rrule cal (us t) x)"
  using next_open_found [OF assms] by auto

lemma instant_later:
  assumes "day a < day b" and "us a < us_per_day" and "0 \<le> us b"
  shows "instant a < instant b"
proof -
  have "day a * us_per_day + us_per_day \<le> day b * us_per_day"
    using assms(1) unfolding us_per_day_def by linarith
  with assms(2,3) show ?thesis by (simp add: instant_def)
qed

definition valid_time :: "stamp \<Rightarrow> bool" where
  "valid_time d \<longleftrightarrow> 0 \<le> us d \<and> us d < us_per_day"

lemma age_of_candidate:
  assumes "valid_time t" and "valid_time now" and "earlier t (add_days (- limit) now)"
  shows "limit \<le> days_between t now"
proof -
  have "limit * us_per_day \<le> (day now - day t) * us_per_day + (us now - us t)"
  proof (cases "day t = day now - limit")
    case True
    with assms show ?thesis by (auto simp: earlier_def)
  next
    case False
    with assms(3) have "limit + 1 \<le> day now - day t" by (auto simp: earlier_def)
    then have "(limit + 1) * us_per_day \<le> (day now - day t) * us_per_day"
      by (rule mult_right_mono) (simp add: us_per_day_def)
    with assms(1,2) show ?thesis by (simp add: valid_time_def algebra_simps)
  qed
  then show ?thesis
    unfolding days_between_def using zdiv_mono1 [of "limit * us_per_day" _ us_per_day]
    by (fastforce simp: us_per_day_def)
qed

text \<open>In a library that never opens, the check of an extension counts from the eve of the date that
  the extension itself takes: a loan due today with renewals of one day is refused, although its
  due date would move to tomorrow.\<close>

lemma never_open_extension_differs:
  assumes "\<not> has_is_open now cal" and "renewal_duration c = Some 1" and "day due = day now"
  shows "extend_loan_data_is_valid localize rrule now cal (renewal_duration c) (Some due) = Inr False
    \<and> get_extension_params (\<lambda>d. d) (\<lambda>d. d) rrule now cal (Some c) due
        = Inr (number_renewals c, instant (end_of_day (add_days 1 now)) - instant now)"
  using assms never_open_means [of _ rrule now cal]
  by (simp add: extend_loan_data_is_valid_def get_extension_params_def unless_never_open_def Let_def)

text \<open>The hold of a validated request ends at 23:59 of the first open day of the pickup library
  once the hold period has passed.\<close>

lemma hold_expires_on_open_day:
  assumes "add_request_expiration_date localize rrule now (Some cal) (Some c) default_duration l = Inr l'"
    and "l_state l = Some ITEM_AT_DESK" and "request_expire_date l = None" and "allow_requests c"
    and "pickup_hold_duration c = Some n" and "n \<noteq> 0" and "transaction_date l = Some t" and "has_is_open now cal"
  shows "\<exists>r. request_expire_date l' = Some (end_of_day (localize r)) \<and> day t + n \<le> day r
     \<and> day_open localize rrule cal (us t) (day r)
     \<and> \<not> (\<exists>x. day t + n \<le> x \<and> x < day r \<and> day_open localize rrule cal (us t) x)"
proof -
  from assms obtain r where r: "next_open localize rrule now cal (add_days (n - 1) t) False False = Inr r"
    and l': "request_expire_date l' = Some (end_of_day (localize r))"
    by (auto simp: add_request_expiration_date_def and_then_eq_Inr unless_never_open_Inr never_open_means)
  from first_open_from [OF r] l' show ?thesis by blast
qed

section \<open>The properties\<close>

text \<open>
  C7. Overdue fees: for a policy whose intervals pass the validation and whose fees are not
  negative, the amounts charged for a late loan add up to the sum of the daily rates of the open
  days since the due date, cut at the maximum of the policy; the computation always returns.
\<close>

theorem overdue_fees_capped_sum:
  assumes "validate_intervals (intervals f) = Inr None" and "overdue c = Some f"
    and "list_all (\<lambda>iv. 0 \<le> i_fee iv) (intervals f)"
    and "cap (maximum_total_amount f) 0 = 0"
    and "is_loan_late now due" and "in_range (add_days 1 due)"
    and "get_open_days localize rrule cal (add_days 1 due) now = Inr ds"
  shows "\<exists>fees. get_overdue_fees localize rrule now cal (Some c) due = Inr fees
     \<and> sum_for_fees fees = cap (maximum_total_amount f) (\<Sum>i<length ds. rate (intervals f) (1 + int i))"
proof -
  let ?is = "close_last (sort_key i_from (intervals f))"
  have i: "get_overdue_intervals c = ?is" using assms(2) by (simp add: get_overdue_intervals_def)
  note b = validated_sorted(1) [OF assms(1)]
  have nonneg: "list_all (\<lambda>iv. 0 \<le> i_fee iv) (sort_key i_from (intervals f))"
    using assms(3) by (simp add: list_all_iff)
  let ?loop = "fees_loop ?is (maximum_total_amount f) 0 1 (map (\<lambda>d. (localize d)\<lparr>us := 0\<rparr>) ds)"
  obtain fees where fees: "?loop = Inr fees"
    using fees_loop_returns [OF close_last_closed [OF b]] by blast
  then have "get_overdue_fees localize rrule now cal (Some c) due = Inr fees"
    using assms by (simp add: get_overdue_fees_def Let_def i)
  moreover have "0 + sum_list (map fst fees) = cap (maximum_total_amount f) (0 + (\<Sum>i<length ds. rate ?is (1 + int i)))"
    using fees_loop_sum [OF close_last_sorted close_last_before [OF b] close_last_fees [OF nonneg] fees assms(4)] by simp
  ultimately show ?thesis
    by (auto simp: sum_for_fees_def rate_close_last rate_sort)
qed

theorem overdue_fees_capped_sum_witness:
  "\<exists>fees. get_overdue_fees (\<lambda>d. d) (\<lambda>p n s u. []) \<lparr>day = 738046, us = 0\<rparr> sample_week (Some sample_cipo) \<lparr>day = 737990, us = 5\<rparr> = Inr fees
     \<and> sum_for_fees fees = 30"
proof -
  have "get_open_days (\<lambda>d. d) (\<lambda>p n s u. []) sample_week (add_days 1 \<lparr>day = 737990, us = 5\<rparr>) \<lparr>day = 738046, us = 0\<rparr>
      = Inr (map (\<lambda>n. \<lparr>day = n, us = 5\<rparr>) [738004, 738011, 738018, 738025, 738032, 738039, 738046])"
    by code_simp
  from overdue_fees_capped_sum [where c = sample_cipo and f = "the (overdue sample_cipo)" and localize = "\<lambda>d. d"
      and rrule = "\<lambda>p n s u. []" and cal = sample_week and due = "\<lparr>day = 737990, us = 5\<rparr>" and now = "\<lparr>day = 738046, us = 0\<rparr>",
      OF _ _ _ _ _ _ this]
  show ?thesis
    by (simp add: sample_cipo_def validate_intervals_def Let_def cap_def is_loan_late_def earlier_def in_range_def
        max_day_def rate_def covers_def numeral_eq_Suc)
qed

text \<open>
  C8. The due date of a checkout: in a library that opens again, the duration
  \<open>get_default_loan_duration\<close> computes leads from now to 23:59 (in the library) of the first open
  day on which the loan period of the policy has passed.
\<close>

theorem loan_ends_on_open_day:
  assumes "get_default_loan_duration localize to_utc rrule now cal (Some c) = Inr duration"
    and "has_is_open now cal"
  shows "\<exists>r. instant now + duration = instant (to_utc (end_of_day r))
     \<and> (let n = (case checkout_duration c of None \<Rightarrow> 0 | Some k \<Rightarrow> k); t = localize now in
        day t + n \<le> day r \<and> day_open (\<lambda>d. d) rrule cal (us t) (day r)
        \<and> \<not> (\<exists>x. day t + n \<le> x \<and> x < day r \<and> day_open (\<lambda>d. d) rrule cal (us t) x))"
proof -
  define n where "n = (case checkout_duration c of None \<Rightarrow> 0 | Some k \<Rightarrow> k)"
  have eve: "add_days (-1) (add_days n (localize now)) = add_days (n - 1) (localize now)" by simp
  from assms obtain r where r: "next_open (\<lambda>d. d) rrule now cal (add_days (n - 1) (localize now)) False False = Inr r"
    and d: "duration = instant (to_utc (end_of_day r)) - instant now"
    by (auto simp: get_default_loan_duration_def Let_def and_then_eq_Inr n_def [symmetric] eve
        unless_never_open_Inr never_open_means simp del: add_days_add)
  from first_open_from [OF r] d show ?thesis
    by (intro exI [of _ r]) (simp add: Let_def n_def [symmetric])
qed

theorem loan_ends_on_open_day_witness:
  "\<exists>r. instant \<lparr>day = 737998, us = 5\<rparr> + (34 * us_per_day + 86340000000 - 5) = instant (end_of_day r)
     \<and> (let n = 30; t = \<lparr>day = 737998, us = 5\<rparr> in
        day t + n \<le> day r \<and> day_open (\<lambda>d. d) (\<lambda>p n s u. []) sample_week (us t) (day r)
        \<and> \<not> (\<exists>x. day t + n \<le> x \<and> x < day r \<and> day_open (\<lambda>d. d) (\<lambda>p n s u. []) sample_week (us t) x))"
proof -
  have "get_default_loan_duration (\<lambda>d. d) (\<lambda>d. d) (\<lambda>p n s u. []) \<lparr>day = 737998, us = 5\<rparr> sample_week (Some sample_cipo)
      = Inr (34 * us_per_day + 86340000000 - 5)"
    by code_simp
  from loan_ends_on_open_day [OF this] show ?thesis
    by (simp add: sample_cipo_def sample_week_def has_is_open_def)
qed

text \<open>
  An extension that is granted is worth it: when \<open>can_extend\<close> accepts a loan, the loan is on
  loan with renewals left and no request waits for the item, and the extension computed from the
  same policy and calendar moves the due date to a later day and does not block itself by a zero
  number of renewals (dates read in one time zone).
\<close>

theorem granted_extension_extends:
  assumes "can_extend (\<lambda>d. d) rrule now cal (Some c) requests (Some l) = Inr granted"
    and "get_extension_params (\<lambda>d. d) (\<lambda>d. d) rrule now cal (Some c) due = Inr (max_count, duration)"
    and "end_date l = Some due" and "valid_time due"
  shows "l_state l = Some ITEM_ON_LOAN \<and> requests = 0 \<and> instant due < instant now + duration
     \<and> max_count = number_renewals c
     \<and> (case extension_count l of None \<Rightarrow> 0 | Some k \<Rightarrow> k) < (case max_count of None \<Rightarrow> 0 | Some k \<Rightarrow> k)"
proof -
  define count where "count = (case extension_count l of None \<Rightarrow> 0 | Some k \<Rightarrow> k)"
  define renewals where "renewals = (case number_renewals c of None \<Rightarrow> 0 | Some k \<Rightarrow> k)"
  from assms(2) obtain n where n: "renewal_duration c = Some n"
    by (auto simp: get_extension_params_def split: option.splits)
  define eve where "eve = add_days (-1) (add_days n now)"
  from assms(1) have l: "l_state l = Some ITEM_ON_LOAN"
    by (auto simp: can_extend_def loan_refuses_def split: if_splits)
  with assms(1) obtain valid where v: "extend_loan_data_is_valid (\<lambda>d. d) rrule now cal (renewal_duration c) (end_date l) = Inr valid"
    and ok: "count < renewals" valid "requests = 0"
    by (auto simp: can_extend_def Let_def and_then_eq_Inr loan_refuses_def count_def renewals_def split: if_splits)
  obtain d where d: "duration = instant (end_of_day d) - instant now"
    "max_count = (if day d < day due then Some 0 else number_renewals c)"
    and o: "unless_never_open (next_open (\<lambda>d. d) rrule now cal eve False False) (add_days 1 eve) = Inr d"
    using assms(2) by (auto simp: get_extension_params_def n Let_def and_then_eq_Inr eve_def simp del: add_days_add)
  have later: "day due < day d"
    using v ok(2) o by (auto simp: extend_loan_data_is_valid_def assms(3) n Let_def and_then_eq_Inr
        eve_def [symmetric] unless_never_open_Inr simp del: add_days_add)
  have "0 \<le> us (end_of_day d)" "day (end_of_day d) = day d" by (simp_all add: end_of_day_def)
  with instant_later [of due "end_of_day d"] later assms(4) have "instant due < instant (end_of_day d)"
    by (simp add: valid_time_def)
  with l ok d later show ?thesis by (simp add: count_def renewals_def)
qed

definition sample_loan :: loan where
  "sample_loan =
     \<lparr>l_pid = ''1'', l_state = Some ITEM_ON_LOAN, l_item = ''i1'', l_patron = ''p1'',
      pickup_location = Some ''loc1'', transaction_location = Some ''loc1'', transaction_user = Some ''u1'', checkout_location = Some ''loc1'',
      end_date = Some \<lparr>day = 737998, us = 86340000000\<rparr>, last_end_date = None, due_soon_date = None,
      request_expire_date = None, request_start_date = None,
      transaction_date = Some \<lparr>day = 737970, us = 0\<rparr>, l_trigger = Some ''checkout'',
      extension_count = Some 1, to_anonymize = False, auto_extend = False\<rparr>"

theorem granted_extension_extends_witness:
  "instant \<lparr>day = 737998, us = 86340000000\<rparr> < instant \<lparr>day = 737990, us = 5\<rparr> + (21 * us_per_day + 86340000000 - 5)"
proof -
  have "can_extend (\<lambda>d. d) (\<lambda>p n s u. []) \<lparr>day = 737990, us = 5\<rparr> sample_week (Some sample_cipo) 0 (Some sample_loan) = Inr granted"
    by code_simp
  moreover have "get_extension_params (\<lambda>d. d) (\<lambda>d. d) (\<lambda>p n s u. []) \<lparr>day = 737990, us = 5\<rparr> sample_week (Some sample_cipo)
      \<lparr>day = 737998, us = 86340000000\<rparr> = Inr (Some 2, 21 * us_per_day + 86340000000 - 5)"
    by code_simp
  ultimately show ?thesis
    using granted_extension_extends [where l = sample_loan and due = "\<lparr>day = 737998, us = 86340000000\<rparr>"]
    by (fastforce simp: sample_loan_def valid_time_def us_per_day_def)
qed

text \<open>
  Anonymization: the task marks exactly the loans that are concluded, not yet marked, older
  than the limit and without an open transaction; it changes no other field and no other loan.
\<close>

theorem anonymizer_marks_old_loans:
  assumes "valid_time now" and "list_all (\<lambda>l. case transaction_date l of None \<Rightarrow> True | Some t \<Rightarrow> valid_time t) loans"
  shows "fst (loan_anonymizer has_open_transaction now limit loans) =
     map (\<lambda>l. if is_concluded has_open_transaction l \<and> \<not> to_anonymize l
               \<and> (case transaction_date l of None \<Rightarrow> False | Some t \<Rightarrow> earlier t (add_days (- limit) now))
             then l\<lparr>to_anonymize := True\<rparr> else l) loans"
proof -
  have "l \<in> set (get_anonymized_candidates now limit loans) \<and> can_anonymize has_open_transaction now (Some limit) l
      \<longleftrightarrow> is_concluded has_open_transaction l \<and> \<not> to_anonymize l
               \<and> (case transaction_date l of None \<Rightarrow> False | Some t \<Rightarrow> earlier t (add_days (- limit) now))"
    if l: "l \<in> set loans" for l
  proof (cases "transaction_date l")
    case None
    then show ?thesis by (simp add: get_anonymized_candidates_def)
  next
    case (Some t)
    with assms(2) l have "valid_time t" by (auto simp: list_all_iff)
    from age_of_candidate [OF this assms(1), of limit] Some l show ?thesis
      by (auto simp: get_anonymized_candidates_def can_anonymize_def age_def is_concluded_def)
  qed
  then show ?thesis by (auto simp: loan_anonymizer_def Let_def anonymize_def)
qed

theorem anonymizer_marks_old_loans_witness:
  "map to_anonymize (fst (loan_anonymizer (\<lambda>p. False) \<lparr>day = 739000, us = 0\<rparr> 365
      [sample_loan\<lparr>l_state := Some ITEM_RETURNED\<rparr>, sample_loan])) = [True, False]"
  by (subst anonymizer_marks_old_loans)
    (simp_all add: sample_loan_def valid_time_def us_per_day_def is_concluded_def CONCLUDED_def earlier_def)

end
