(* ===== verification/Patrons.thy ===== *)
theory Patrons
  imports Loans
begin

text \<open>
  Patrons and patron types: class \<open>PatronType\<close> of \<open>rero_ils/modules/patron_types/api.py\<close> (the limits
  on checkouts, requests, overdue items and fees) and class \<open>Patron\<close> of
  \<open>rero_ils/modules/patrons/api.py\<close> (blocked and expired accounts, roles, subscriptions, the
  validation of a record). The number of loans of a patron per library, which the code gets from
  an aggregation of the search index, is a dict; totals of fees and of overdue items are arguments.
\<close>

section \<open>Patron types\<close>

record count_limits =
  global_limit :: "int option"
  library_limit :: "int option"
  library_exceptions :: "(string \<times> int) list"

record patron_type =
  subscription_amount :: "int option"
  checkout_limits :: "count_limits option"
  request_limits :: "count_limits option"
  overdue_items_limit :: "int option"
  fee_amount_limit :: "int option"
  unpaid_subscription :: bool

definition no_limits :: count_limits where
  "no_limits = \<lparr>global_limit = None, library_limit = None, library_exceptions = []\<rparr>"

text \<open>The loop over the library exceptions: a message or nothing.\<close>

fun check_exceptions :: "string \<Rightarrow> int \<Rightarrow> string list \<Rightarrow> (string \<times> int) list \<Rightarrow> string option" where
  "check_exceptions same_value lim seen [] = None"
| "check_exceptions same_value lim seen ((lib, v) # rest) =
     (if v = lim then Some same_value
      else if lib \<in> set seen then Some ''Only one specific limit by library allowed.''
      else check_exceptions same_value lim (seen @ [lib]) rest)"

definition validate_limits :: "string \<Rightarrow> count_limits option \<Rightarrow> py_error + string option" where
  "validate_limits same_value limits =
     (case limits of
        None \<Rightarrow> Inr None
      | Some l \<Rightarrow>
          if \<not> truthy (library_limit l) then Inr None
          else case global_limit l of
              None \<Rightarrow> Inl TypeError
            | Some g \<Rightarrow>
                let n = the (library_limit l) in
                Inr (if n > g then Some ''Library limit cannot be higher than global limit.''
                     else check_exceptions same_value n [] (library_exceptions l)))"

definition patron_type_validation :: "patron_type \<Rightarrow> py_error + string option" where
  "patron_type_validation t =
     or_else (validate_limits ''Exception limit cannot have same value than library limit'' (checkout_limits t))
       (validate_limits ''Exception limit cannot have same value as library limit'' (request_limits t))"

definition is_subscription_required :: "patron_type \<Rightarrow> bool" where
  "is_subscription_required t \<longleftrightarrow> (case subscription_amount t of None \<Rightarrow> False | Some n \<Rightarrow> n > 0)"

definition check_overdue_items_limit :: "patron_type \<Rightarrow> nat \<Rightarrow> bool" where
  "check_overdue_items_limit t overdue_items =
     (if truthy (overdue_items_limit t) then the (overdue_items_limit t) > int overdue_items else True)"

text \<open>The limit of a library: that of the first exception for it, otherwise the general one.\<close>

definition limit_of_library :: "count_limits \<Rightarrow> string \<Rightarrow> int option" where
  "limit_of_library l lib =
     (case find (\<lambda>e. fst e = lib) (library_exceptions l) of
        Some (_, v) \<Rightarrow> Some v
      | None \<Rightarrow> library_limit l)"

definition check_count_limits ::
  "string \<Rightarrow> string \<Rightarrow> count_limits \<Rightarrow> (string, int) dict \<Rightarrow> string option \<Rightarrow> bool \<times> string option" where
  "check_count_limits msg_global msg_library l stats item_library =
     (if \<not> truthy (global_limit l) then (True, None)
      else if sum_list (map snd stats) \<ge> the (global_limit l) then (False, Some msg_global)
      else case item_library of
          None \<Rightarrow> (True, None)
        | Some lib \<Rightarrow>
            let limit = limit_of_library l lib in
            (case dict_get stats lib of
               None \<Rightarrow> (True, None)
             | Some n \<Rightarrow> if truthy limit \<and> n \<ge> the limit then (False, Some msg_library) else (True, None)))"

definition check_request_limits :: "patron_type \<Rightarrow> (string, int) dict \<Rightarrow> string option \<Rightarrow> bool \<times> string option" where
  "check_request_limits t stats item_library =
     check_count_limits ''Maximum number of requests reached''
       ''Maximum number of requests for this library reached''
       (case request_limits t of None \<Rightarrow> no_limits | Some l \<Rightarrow> l) stats item_library"

definition check_checkout_count_limit :: "patron_type \<Rightarrow> (string, int) dict \<Rightarrow> string option \<Rightarrow> bool \<times> string option" where
  "check_checkout_count_limit t stats item_library =
     check_count_limits ''Checkout denied: maximum number of checked out items reached''
       ''Checkout denied: maximum number of checked out items for this library reached''
       (case checkout_limits t of None \<Rightarrow> no_limits | Some l \<Rightarrow> l) stats item_library"

definition check_fee_amount_limit :: "patron_type \<Rightarrow> int \<Rightarrow> bool" where
  "check_fee_amount_limit t open_overdue_fees =
     (if truthy (fee_amount_limit t) then open_overdue_fees < the (fee_amount_limit t) else True)"

text \<open>Without the limit the code returns a pair, which is true as well.\<close>

definition check_unpaid_subscription :: "patron_type \<Rightarrow> int \<Rightarrow> bool" where
  "check_unpaid_subscription t open_subscription_fees =
     (if \<not> unpaid_subscription t then True else open_subscription_fees = 0)"

text \<open>What the checks look up about a patron.\<close>

record patron_facts =
  overdue_items :: nat
  open_overdue_fees :: int
  open_subscription_fees :: int
  checkout_stats :: "(string, int) dict"
  request_stats :: "(string, int) dict"

type_synonym reasons = "(string, string) dict"

definition extend_reasons :: "patron_type \<Rightarrow> patron_facts \<Rightarrow> reasons" where
  "extend_reasons t f =
     (if \<not> check_overdue_items_limit t (overdue_items f)
      then [(''patron_type_overdue_items_limit'', ''Maximum number of overdue items reached'')] else [])
     @ (if \<not> check_fee_amount_limit t (open_overdue_fees f)
        then [(''patron_type_fee_amount_limit'', ''Maximum amount of overdue fees reached'')] else [])
     @ (if \<not> check_unpaid_subscription t (open_subscription_fees f)
        then [(''patron_type_unpaid_subscription'', ''Patron has unpaid subscription'')] else [])"

definition ptty_can_extend :: "(patron_type \<times> patron_facts) option \<Rightarrow> bool \<times> reasons" where
  "ptty_can_extend patron =
     (case patron of
        None \<Rightarrow> (True, [])
      | Some (t, f) \<Rightarrow> let rs = extend_reasons t f in (rs = [], rs))"

definition ptty_can_checkout :: "string \<Rightarrow> (patron_type \<times> patron_facts) option \<Rightarrow> bool \<times> reasons" where
  "ptty_can_checkout item_library patron =
     (case patron of
        None \<Rightarrow> (True, [])
      | Some (t, f) \<Rightarrow>
          let (valid, msg) = check_checkout_count_limit t (checkout_stats f) (Some item_library);
              rs = snd (ptty_can_extend patron);
              rs' = (if \<not> valid then dict_set ''patron_type_checkout_count_limit'' (the msg) rs else rs)
          in (rs' = [], rs'))"

definition ptty_can_request :: "string \<Rightarrow> (patron_type \<times> patron_facts) option \<Rightarrow> bool \<times> reasons" where
  "ptty_can_request item_library patron =
     (case patron of
        None \<Rightarrow> (True, [])
      | Some (t, f) \<Rightarrow>
          let (valid, msg) = check_request_limits t (request_stats f) (Some item_library);
              rs = snd (ptty_can_extend patron);
              rs' = (if \<not> valid then dict_set ''patron_type_request_limits'' (the msg) rs else rs)
          in (rs' = [], rs'))"

text \<open>\<open>get_loans_count_by_library_for_patron_pid\<close>: the buckets of the aggregation, one per library
  that has a loan, over the libraries of the patron's loans in the states asked for.\<close>

definition loans_count_by_library :: "string list \<Rightarrow> (string, int) dict" where
  "loans_count_by_library loan_libraries =
     map (\<lambda>l. (l, int (count_list loan_libraries l))) (remdups loan_libraries)"

section \<open>Patrons\<close>

record subscription =
  sub_start :: stamp
  sub_end :: stamp
  sub_type :: string
  sub_transaction :: nat

record patron =
  roles :: "string list"
  blocked :: bool
  blocked_note :: "string option"
  expiration :: "stamp option"
  subscriptions :: "subscription list"
  p_libraries :: "string list"
  p_type :: "string option"
  email_channel :: bool
  additional_email :: "string option"
  barcodes :: "string list"

definition PROFESSIONAL_ROLES :: "string list" where
  "PROFESSIONAL_ROLES =
     [''pro_full_permissions'', ''pro_read_only'', ''pro_acquisition_manager'', ''pro_catalog_manager'',
      ''pro_circulation_manager'', ''pro_library_administrator'', ''pro_user_manager'',
      ''pro_entity_manager'', ''pro_statistic_manager'']"

definition ALL_ROLES :: "string list" where
  "ALL_ROLES = ''patron'' # PROFESSIONAL_ROLES"

definition has_patron_role :: "patron \<Rightarrow> bool" where
  "has_patron_role p \<longleftrightarrow> ''patron'' \<in> set (roles p)"

definition is_professional_user :: "patron \<Rightarrow> bool" where
  "is_professional_user p \<longleftrightarrow> list_ex (\<lambda>r. r \<in> set PROFESSIONAL_ROLES) (roles p)"

definition is_expired :: "stamp \<Rightarrow> patron \<Rightarrow> bool" where
  "is_expired now p \<longleftrightarrow> (case expiration p of None \<Rightarrow> False | Some d \<Rightarrow> earlier d now)"

definition get_blocked_message :: "bool \<Rightarrow> patron \<Rightarrow> string option" where
  "get_blocked_message public p =
     (if blocked p
      then Some ((if public then ''Your account is currently blocked.'' else ''This patron is currently blocked.'')
                 @ '' Reason: '' @ (case blocked_note p of None \<Rightarrow> ''None'' | Some n \<Rightarrow> n))
      else None)"

text \<open>\<open>Patron.can_request\<close>, which \<open>can_checkout\<close> and \<open>can_extend\<close> call.\<close>

definition patron_can_request :: "stamp \<Rightarrow> patron option \<Rightarrow> bool \<times> reasons" where
  "patron_can_request now patron =
     (case patron of
        None \<Rightarrow> (True, [])
      | Some p \<Rightarrow>
          let rs = (if blocked p then [(''patron_blocked'', the (get_blocked_message False p))] else [])
                   @ (if is_expired now p then [(''patron_expired'', ''Patron account expired.'')] else [])
          in (rs = [], rs))"

text \<open>\<open>Location.can_request\<close>, on the \<open>allow_request\<close> of the circulation location of the item.\<close>

definition location_can_request :: "bool \<Rightarrow> bool \<times> reasons" where
  "location_can_request allow_request =
     (if \<not> allow_request then (False, [(''location_disallows'', ''Record location disallows request.'')])
      else (True, []))"

definition get_circulation_messages :: "stamp \<Rightarrow> bool \<Rightarrow> patron \<Rightarrow> patron_type \<Rightarrow> patron_facts \<Rightarrow> string list" where
  "get_circulation_messages now public p t f =
     (if \<not> public \<and> blocked p then [the (get_blocked_message public p)]
      else
        (if \<not> public \<and> is_expired now p then [''Patron rights expired''] else [])
        @ (if public then []
           else
             (case check_checkout_count_limit t (checkout_stats f) None of
                (valid, msg) \<Rightarrow> if valid then [] else [the msg])
             @ (case check_request_limits t (request_stats f) None of
                  (valid, msg) \<Rightarrow> if valid then [] else [the msg])
             @ (if \<not> check_fee_amount_limit t (open_overdue_fees f)
                then [''Transactions denied: maximum amount of overdue fees reached''] else [])
             @ (if \<not> check_overdue_items_limit t (overdue_items f)
                then [''Checkout denied: maximum number of overdue items reached''] else [])))"

definition subscription_valid :: "stamp \<Rightarrow> subscription \<Rightarrow> bool" where
  "subscription_valid now s \<longleftrightarrow> earlier (sub_start s) now \<and> earlier now (sub_end s)"

definition has_valid_subscription :: "stamp \<Rightarrow> patron \<Rightarrow> patron_type option \<Rightarrow> bool" where
  "has_valid_subscription now p t =
     (case t of
        None \<Rightarrow> True
      | Some ty \<Rightarrow>
          if is_subscription_required ty then list_ex (subscription_valid now) (subscriptions p) else True)"

definition valid_subscriptions :: "stamp \<Rightarrow> patron \<Rightarrow> subscription list" where
  "valid_subscriptions now p = filter (subscription_valid now) (subscriptions p)"

text \<open>The transaction of a subscription is looked up by its pid.\<close>

definition pending_subscriptions :: "(nat \<Rightarrow> bool) \<Rightarrow> patron \<Rightarrow> subscription list" where
  "pending_subscriptions fee_open p = filter (\<lambda>s. fee_open (sub_transaction s)) (subscriptions p)"

section \<open>The roles of the user account\<close>

text \<open>Several patron records can belong to one user; the roles of the user are kept as a set. The
  other records of the user are an argument.\<close>

definition get_patrons_roles :: "bool \<Rightarrow> patron \<Rightarrow> patron list \<Rightarrow> string set" where
  "get_patrons_roles exclude_self p others =
     (if exclude_self then {} else set (roles p)) \<union> set (concat (map roles others))"

definition update_roles :: "patron \<Rightarrow> patron list \<Rightarrow> string set \<Rightarrow> string set" where
  "update_roles p others user_roles =
     fold (\<lambda>role db.
        let in_db = role \<in> user_roles; in_record = role \<in> get_patrons_roles False p others in
        if in_record \<and> \<not> in_db then insert role db
        else if \<not> in_record \<and> in_db then db - {role}
        else db) ALL_ROLES user_roles"

definition remove_roles :: "patron \<Rightarrow> patron list \<Rightarrow> string set \<Rightarrow> string set" where
  "remove_roles p others user_roles =
     fold (\<lambda>role db. db - {role})
       (filter (\<lambda>r. r \<in> user_roles)
         (filter (\<lambda>r. r \<notin> get_patrons_roles True p others) (roles p)))
       user_roles"

section \<open>Validation of a patron\<close>

text \<open>\<open>_validate\<close>: the checks of the patron type, of the libraries and of the subscriptions come as
  their messages. The message of a library is a string, the others are lists of strings; all are
  joined by semicolons, so a string is taken apart into its characters.\<close>

datatype message = Fine | Messages "string list" | Text string

definition joined :: "message \<Rightarrow> string option" where
  "joined m =
     (case m of
        Fine \<Rightarrow> None
      | Messages ms \<Rightarrow> Some (join '';'' ms)
      | Text t \<Rightarrow> Some (join '';'' (map (\<lambda>c. [c]) t)))"

definition or_true :: "string list \<Rightarrow> message" where
  "or_true ms = (if ms = [] then Fine else Messages ms)"

fun check_libraries :: "(string \<Rightarrow> bool) \<Rightarrow> string list \<Rightarrow> message \<Rightarrow> message" where
  "check_libraries exists [] m = m"
| "check_libraries exists (l # ls) m =
     (if \<not> exists l then Text (''Library '' @ l @ '' doesn't exist.'') else check_libraries exists ls m)"

fun check_subscriptions :: "string list list \<Rightarrow> message \<Rightarrow> message" where
  "check_subscriptions [] m = m"
| "check_subscriptions (ms # rest) m = (if ms \<noteq> [] then Messages ms else check_subscriptions rest m)"

definition validate_emails :: "patron \<Rightarrow> string option \<Rightarrow> py_error + unit" where
  "validate_emails p user_email =
     (if email_channel p \<and> user_email = None \<and> additional_email p = None
      then Inl (ValidationError ''At least one email should be defined for an email communication channel.'')
      else Inr ())"

definition validate_patron ::
  "string list \<Rightarrow> (string \<Rightarrow> bool) \<Rightarrow> string list list \<Rightarrow> string option \<Rightarrow> patron \<Rightarrow> py_error + unit" where
  "validate_patron type_messages library_exists subscription_messages user_email p =
     (let m1 = (if has_patron_role p then or_true type_messages else Fine);
          m2 = (if is_professional_user p
                then check_libraries library_exists (p_libraries p)
                       (if p_libraries p = [] then Messages [''Missing libraries''] else m1)
                else m1);
          m3 = check_subscriptions subscription_messages m2 in
      and_then (validate_emails p user_email) (\<lambda>_.
        case joined m3 of None \<Rightarrow> Inr () | Some msg \<Rightarrow> Inl (ValidationError msg)))"

text \<open>\<open>_clean_data\<close>.\<close>

definition clean_barcodes :: "patron \<Rightarrow> patron" where
  "clean_barcodes p = p\<lparr>barcodes := map strip (barcodes p)\<rparr>"

section \<open>Circulation under the limits\<close>

text \<open>The loans of one patron, as the libraries they are counted for: a checkout or a request passes
  the check of the limits, any loan can end.\<close>

inductive limited_step :: "(string list \<Rightarrow> string \<Rightarrow> bool) \<Rightarrow> string list \<Rightarrow> string list \<Rightarrow> bool"
  for check where
  add_loan: "check held lib \<Longrightarrow> limited_step check held (lib # held)"
| end_loan: "limited_step check (as @ lib # bs) (as @ bs)"

inductive_simps limited_step_simps: "limited_step check held held'"

inductive limited_reachable :: "(string list \<Rightarrow> string \<Rightarrow> bool) \<Rightarrow> string list \<Rightarrow> bool"
  for check where
  no_loans: "limited_reachable check []"
| step: "limited_reachable check held \<Longrightarrow> limited_step check held held' \<Longrightarrow> limited_reachable check held'"

lemma sum_counts: "sum_list (map snd (loans_count_by_library held)) = int (length held)"
proof -
  have "sum_list (map snd (loans_count_by_library held)) = (\<Sum>l\<in>set held. int (count_list held l))"
    by (simp add: loans_count_by_library_def o_def sum_list_distinct_conv_sum_set)
  also have "\<dots> = int (\<Sum>l\<in>set held. count_list held l)" by simp
  also have "\<dots> = int (length held)" using sum_count_set [of held "set held"] by simp
  finally show ?thesis .
qed

lemma get_counts: "dict_get (loans_count_by_library held) lib
   = (if lib \<in> set held then Some (int (count_list held lib)) else None)"
  unfolding dict_get_def loans_count_by_library_def
  by (auto simp: map_of_map_restrict restrict_map_def)

definition passes :: "count_limits \<Rightarrow> string list \<Rightarrow> string \<Rightarrow> bool" where
  "passes l held lib \<longleftrightarrow> fst (check_count_limits [] [] l (loans_count_by_library held) (Some lib))"

lemma passes_bounds:
  assumes "passes l held lib" and "global_limit l = Some g" and "0 < g"
  shows "int (length held) < g
     \<and> (\<forall>v. limit_of_library l lib = Some v \<and> 0 < v \<longrightarrow> int (count_list held lib) < v)"
  using assms
  by (auto simp: passes_def check_count_limits_def truthy_def sum_counts get_counts Let_def
      split: if_splits option.splits)

lemma limits_kept:
  assumes "limited_reachable (passes l) held" and "global_limit l = Some g" and "0 < g"
  shows "int (length held) \<le> g
     \<and> (\<forall>lib v. limit_of_library l lib = Some v \<and> 0 < v \<longrightarrow> int (count_list held lib) \<le> v)"
  using assms(1)
proof (induction rule: limited_reachable.induct)
  case no_loans
  with assms(3) show ?case by simp
next
  case (step held held')
  from step.hyps(2) show ?case
  proof cases
    case (add_loan lib)
    from passes_bounds [OF add_loan(2) assms(2,3)] step.IH add_loan(1) show ?thesis by auto
  next
    case (end_loan as lib bs)
    then have "int (length held') \<le> int (length held)" "\<And>x. int (count_list held' x) \<le> int (count_list held x)"
      by simp_all
    with step.IH show ?thesis by (meson order_trans)
  qed
qed

lemma fold_roles:
  "fold (\<lambda>role db.
        let in_db = role \<in> u; in_record = role \<in> R in
        if in_record \<and> \<not> in_db then insert role db
        else if \<not> in_record \<and> in_db then db - {role}
        else db) rs db0
   = {r. if r \<in> set rs then (if r \<in> R \<and> r \<notin> u then True else if r \<notin> R \<and> r \<in> u then False else r \<in> db0) else r \<in> db0}"
  by (induction rs arbitrary: db0) (auto simp: Let_def)

text \<open>The message of a library that does not exist is joined letter by letter.\<close>

lemma missing_library_message:
  "validate_patron [] (\<lambda>l. False) [] (Some ''a@b.ch'')
     \<lparr>roles = [''pro_full_permissions''], blocked = False, blocked_note = None, expiration = None,
      subscriptions = [], p_libraries = [''1''], p_type = None, email_channel = False,
      additional_email = None, barcodes = []\<rparr>
   = Inl (ValidationError ''L;i;b;r;a;r;y; ;1; ;d;o;e;s;n;';t; ;e;x;i;s;t;.'')"
  by code_simp

section \<open>The properties\<close>



text \<open>
  The roles of a user follow its patron records: after \<open>_update_roles\<close> the user has exactly
  those roles of the application that the updated record or another record of the user has, and
  the roles the application does not manage are untouched; after \<open>_remove_roles\<close> the user keeps
  exactly the roles that were not on the deleted record or that another record still has.
\<close>

theorem roles_follow_records:
  "update_roles p others user_roles =
     (user_roles - set ALL_ROLES) \<union> (set ALL_ROLES \<inter> (set (roles p) \<union> set (concat (map roles others))))
   \<and> remove_roles p others user_roles = user_roles - (set (roles p) - set (concat (map roles others)))"
proof -
  have "fold (\<lambda>role db. db - {role}) rs db = db - set rs" for rs and db :: "string set"
    by (induction rs arbitrary: db) auto
  then show ?thesis
    unfolding update_roles_def fold_roles remove_roles_def
    by (auto simp: get_patrons_roles_def)
qed

end
