(* ===== verification/ItemCirculation.thy ===== *)
theory ItemCirculation
  imports Patrons
begin

text \<open>
  Circulation of an item: class \<open>ItemCirculation\<close> of \<open>rero_ils/modules/items/api/circulation.py\<close>, the
  decorators of \<open>items/decorators.py\<close>, the statuses of \<open>items/models.py\<close> and the table of transitions
  of \<open>config.py\<close>. This theory holds the definitions; their properties are in \<open>ItemLifecycle\<close>.

  The state of a handler is the item (its library and its status) with the loans that are attached
  to it, in the order of their creation, which is the order of every query the code makes. A
  handler is a function from the state to a result, an exception or a value, and the state it
  leaves: what was stored before an exception stays stored. The arguments of an action (the Python
  keyword arguments) are a record of options; an option that is absent is a key that is not there.

  What the code gets from elsewhere is a parameter, in the record \<open>world\<close>: the trigger of the
  transition engine and the loan it holds active on an item (invenio-circulation), the states it
  counts as active, the library of a location, the transaction location of a library, the pid of a
  new loan. The operation logs that accompany a refused action repeat the message of the exception
  and are left out.
\<close>

section \<open>States\<close>

datatype item_status = ON_SHELF | AT_DESK_STATUS | ON_LOAN | IN_TRANSIT | EXCLUDED | MISSING

text \<open>\<open>ItemCirculation.statuses\<close>: the status an item inherits from its active loan.\<close>

fun statuses :: "loan_state \<Rightarrow> item_status option" where
  "statuses ITEM_ON_LOAN = Some ON_LOAN"
| "statuses ITEM_AT_DESK = Some AT_DESK_STATUS"
| "statuses ITEM_IN_TRANSIT_FOR_PICKUP = Some IN_TRANSIT"
| "statuses ITEM_IN_TRANSIT_TO_HOUSE = Some IN_TRANSIT"
| "statuses _ = None"

text \<open>\<open>CIRCULATION_LOAN_TRANSITIONS\<close>: for each state, the destinations and their triggers, in the
  order the engine tries them.\<close>

fun LOAN_TRANSITIONS :: "loan_state \<Rightarrow> (loan_state \<times> string) list" where
  "LOAN_TRANSITIONS CREATED = [(PENDING, ''request''), (ITEM_ON_LOAN, ''checkout'')]"
| "LOAN_TRANSITIONS PENDING =
     [(ITEM_AT_DESK, ''validate_request''), (ITEM_IN_TRANSIT_FOR_PICKUP, ''validate_request''),
      (ITEM_ON_LOAN, ''checkout''), (CANCELLED, ''cancel'')]"
| "LOAN_TRANSITIONS ITEM_AT_DESK = [(ITEM_ON_LOAN, ''checkout''), (CANCELLED, ''cancel'')]"
| "LOAN_TRANSITIONS ITEM_IN_TRANSIT_FOR_PICKUP = [(ITEM_AT_DESK, ''receive''), (CANCELLED, ''cancel'')]"
| "LOAN_TRANSITIONS ITEM_ON_LOAN =
     [(ITEM_RETURNED, ''checkin''), (ITEM_IN_TRANSIT_TO_HOUSE, ''checkin''), (ITEM_ON_LOAN, ''extend''),
      (CANCELLED, ''cancel'')]"
| "LOAN_TRANSITIONS ITEM_IN_TRANSIT_TO_HOUSE = [(ITEM_RETURNED, ''receive''), (CANCELLED, ''cancel'')]"
| "LOAN_TRANSITIONS ITEM_RETURNED = []"
| "LOAN_TRANSITIONS CANCELLED = []"

record params =
  p_pid :: "string option"
  p_patron :: "string option"
  p_trans_loc :: "string option"
  p_trans_lib :: "string option"
  p_pickup_loc :: "string option"
  p_pickup_lib :: "string option"
  p_user :: "string option"
  p_end_date :: "stamp option"
  override_blocking :: bool
  validate_current_loan :: bool
  receive_in_transit_request :: bool
  receive_current_and_validate_first :: bool
  cancel_current_and_receive_first :: bool

record circ =
  item_pid :: string
  item_library :: string
  item_status :: item_status
  loans :: "loan list"

record world =
  engine :: "string \<Rightarrow> params \<Rightarrow> loan \<Rightarrow> py_error + loan"
  get_loan_for_item :: "loan list \<Rightarrow> loan option"
  states_active :: "loan_state list"
  location_library :: "string \<Rightarrow> string option"
  get_transaction_location_pid :: "string \<Rightarrow> py_error + string"
  new_loan_pid :: "loan list \<Rightarrow> string"
  calendar_of :: "string \<Rightarrow> calendar"
  to_local :: "stamp \<Rightarrow> stamp"
  recurrences :: rrule
  now :: stamp
  operation_checks :: "string \<Rightarrow> params \<Rightarrow> circ \<Rightarrow> (py_error + verdict) list"

section \<open>Handlers\<close>

type_synonym 'a handler = "circ \<Rightarrow> (py_error + 'a) \<times> circ"

definition return :: "'a \<Rightarrow> 'a handler" where
  "return a s = (Inr a, s)"

definition throw :: "py_error \<Rightarrow> 'a handler" where
  "throw e s = (Inl e, s)"

definition lift_result :: "py_error + 'a \<Rightarrow> 'a handler" where
  "lift_result r s = (r, s)"

definition andthen :: "'a handler \<Rightarrow> ('a \<Rightarrow> 'b handler) \<Rightarrow> 'b handler" where
  "andthen m k s = (case m s of (Inl e, t) \<Rightarrow> (Inl e, t) | (Inr a, t) \<Rightarrow> k a t)"

definition read :: "(circ \<Rightarrow> 'a) \<Rightarrow> 'a handler" where
  "read f s = (Inr (f s), s)"

text \<open>The truth of a value that may be missing.\<close>

definition given :: "string option \<Rightarrow> bool" where
  "given x \<longleftrightarrow> (case x of None \<Rightarrow> False | Some v \<Rightarrow> v \<noteq> [])"

section \<open>Queries\<close>

definition loan_by_pid :: "string option \<Rightarrow> loan list \<Rightarrow> loan option" where
  "loan_by_pid pid ls = (if given pid then find (\<lambda>l. Some (l_pid l) = pid) ls else None)"

definition in_states :: "loan_state list \<Rightarrow> loan \<Rightarrow> bool" where
  "in_states ss l \<longleftrightarrow> (case l_state l of None \<Rightarrow> False | Some s \<Rightarrow> s \<in> set ss)"

definition get_item_loans_by_state :: "loan_state \<Rightarrow> loan list \<Rightarrow> loan list" where
  "get_item_loans_by_state s ls = filter (\<lambda>l. l_state l = Some s) ls"

definition get_first_loan_by_state :: "loan_state \<Rightarrow> loan list \<Rightarrow> loan option" where
  "get_first_loan_by_state s ls = (case get_item_loans_by_state s ls of [] \<Rightarrow> None | l # _ \<Rightarrow> Some l)"

definition get_loan_states_for_an_item :: "loan list \<Rightarrow> loan_state list" where
  "get_loan_states_for_an_item ls =
     remdups (map (\<lambda>l. the (l_state l))
       (filter (in_states [PENDING, ITEM_IN_TRANSIT_FOR_PICKUP, ITEM_IN_TRANSIT_TO_HOUSE, ITEM_AT_DESK, ITEM_ON_LOAN]) ls))"

definition get_loans_states_by_item_pid_exclude_loan_pid :: "string \<Rightarrow> loan list \<Rightarrow> loan_state list" where
  "get_loans_states_by_item_pid_exclude_loan_pid pid ls =
     map (\<lambda>l. the (l_state l))
       (filter (\<lambda>l. l_state l \<noteq> None \<and> \<not> in_states [ITEM_RETURNED, CANCELLED, CREATED] l \<and> l_pid l \<noteq> pid) ls)"

definition get_requests :: "loan list \<Rightarrow> loan list" where
  "get_requests ls = filter (in_states [PENDING, ITEM_AT_DESK, ITEM_IN_TRANSIT_FOR_PICKUP]) ls"

definition number_of_requests :: "loan list \<Rightarrow> nat" where
  "number_of_requests ls = length (get_requests ls)"

text \<open>\<open>enumerate(requests, start=1)\<close> up to the first request of the patron.\<close>

fun request_rank :: "nat \<Rightarrow> string \<Rightarrow> loan list \<Rightarrow> nat" where
  "request_rank rank patron [] = 0"
| "request_rank rank patron (r # rs) = (if l_patron r = patron then rank else request_rank (rank + 1) patron rs)"

definition patron_request_rank :: "string option \<Rightarrow> loan list \<Rightarrow> nat" where
  "patron_request_rank patron ls = (case patron of None \<Rightarrow> 0 | Some p \<Rightarrow> request_rank 1 p (get_requests ls))"

definition patron_has_an_active_loan_on_item :: "string \<Rightarrow> loan list \<Rightarrow> bool" where
  "patron_has_an_active_loan_on_item patron ls \<longleftrightarrow>
     filter (\<lambda>l. l_patron l = patron \<and> in_states [PENDING, ITEM_IN_TRANSIT_FOR_PICKUP, ITEM_AT_DESK, ITEM_ON_LOAN] l) ls \<noteq> []"

text \<open>\<open>get_request_by_item_pid_by_patron_pid\<close> of \<open>loans/api.py\<close>.\<close>

definition get_request_by_patron :: "string \<Rightarrow> loan list \<Rightarrow> loan option" where
  "get_request_by_patron patron ls =
     find (\<lambda>l. l_patron l = patron
        \<and> in_states [PENDING, ITEM_AT_DESK, ITEM_IN_TRANSIT_FOR_PICKUP, ITEM_IN_TRANSIT_TO_HOUSE] l) ls"

definition is_active :: "world \<Rightarrow> loan \<Rightarrow> bool" where
  "is_active w l = in_states (states_active w) l"

definition item_has_active_loan_or_request :: "world \<Rightarrow> loan list \<Rightarrow> bool" where
  "item_has_active_loan_or_request w ls \<longleftrightarrow> filter (in_states (PENDING # states_active w)) ls \<noteq> []"

text \<open>The query of available items is over the index of items.\<close>

definition is_available :: "world \<Rightarrow> bool \<Rightarrow> loan list \<Rightarrow> bool" where
  "is_available w in_available_query ls \<longleftrightarrow> in_available_query \<and> \<not> item_has_active_loan_or_request w ls"

section \<open>Changes of the state\<close>

definition put_loan :: "loan \<Rightarrow> loan list \<Rightarrow> loan list" where
  "put_loan l ls = map (\<lambda>x. if l_pid x = l_pid l then l else x) ls"

definition store_loan :: "loan \<Rightarrow> unit handler" where
  "store_loan l s = (Inr (), s\<lparr>loans := put_loan l (loans s)\<rparr>)"

definition set_status :: "item_status \<Rightarrow> unit handler" where
  "set_status x s = (Inr (), s\<lparr>item_status := x\<rparr>)"

definition trigger :: "world \<Rightarrow> string \<Rightarrow> params \<Rightarrow> loan \<Rightarrow> loan handler" where
  "trigger w name p l =
     andthen (lift_result (engine w name p l)) (\<lambda>l'. andthen (store_loan l') (\<lambda>_. return l'))"

definition status_update :: "world \<Rightarrow> bool \<Rightarrow> unit handler" where
  "status_update w on_shelf s =
     (case get_loan_for_item w (loans s) of
        Some l \<Rightarrow>
          (case l_state l of
             None \<Rightarrow> (Inl (KeyError ''state''), s)
           | Some st \<Rightarrow>
               (case statuses st of
                  None \<Rightarrow> (Inl (KeyError ''statuses''), s)
                | Some x \<Rightarrow> (Inr (), s\<lparr>item_status := x\<rparr>)))
      | None \<Rightarrow>
          if item_status s \<noteq> MISSING \<and> on_shelf then (Inr (), s\<lparr>item_status := ON_SHELF\<rparr>) else (Inr (), s))"

definition change_status_commit_and_reindex :: "world \<Rightarrow> unit handler" where
  "change_status_commit_and_reindex w = status_update w True"

definition return_missing :: "world \<Rightarrow> unit handler" where
  "return_missing w = andthen (set_status ON_SHELF) (\<lambda>_. status_update w True)"

section \<open>Libraries of the item, the pickup and the transaction\<close>

record libraries =
  transaction_item_libraries :: bool
  transaction_pickup_libraries :: bool
  item_pickup_libraries :: bool

definition library_of_location :: "world \<Rightarrow> string option \<Rightarrow> py_error + string" where
  "library_of_location w loc =
     (case loc of
        None \<Rightarrow> Inl AttributeError
      | Some l \<Rightarrow> (case location_library w l of None \<Rightarrow> Inl AttributeError | Some lib \<Rightarrow> Inr lib))"

definition compare_item_pickup_transaction_libraries :: "world \<Rightarrow> string \<Rightarrow> params \<Rightarrow> py_error + libraries" where
  "compare_item_pickup_transaction_libraries w item_lib p =
     and_then (if given (p_trans_lib p) then Inr (the (p_trans_lib p)) else library_of_location w (p_trans_loc p)) (\<lambda>trans_lib.
     and_then (if given (p_pickup_lib p) then Inr (the (p_pickup_lib p))
               else if \<not> given (p_pickup_loc p) then Inr trans_lib
               else library_of_location w (p_pickup_loc p)) (\<lambda>pickup_lib.
       Inr \<lparr>transaction_item_libraries = (item_lib = trans_lib),
            transaction_pickup_libraries = (pickup_lib = trans_lib),
            item_pickup_libraries = (item_lib = pickup_lib)\<rparr>))"

text \<open>The transaction location an action falls back on: that of the library, when only the library
  is given. Without either the code pops a key that is not there.\<close>

definition transaction_location_or_library :: "world \<Rightarrow> params \<Rightarrow> py_error + params" where
  "transaction_location_or_library w p =
     (if given (p_trans_loc p) then Inr p
      else case p_trans_lib p of
          None \<Rightarrow> Inl (KeyError ''transaction_library_pid'')
        | Some lib \<Rightarrow>
            if lib = [] then Inr (p\<lparr>p_trans_lib := None\<rparr>)
            else and_then (get_transaction_location_pid w lib) (\<lambda>loc.
                   Inr (p\<lparr>p_trans_loc := Some loc, p_trans_lib := None\<rparr>)))"

section \<open>The decorators\<close>

definition blank_loan :: loan where
  "blank_loan =
     \<lparr>l_pid = [], l_state = None, l_item = [], l_patron = [], pickup_location = None,
      transaction_location = None, transaction_user = None, checkout_location = None, end_date = None,
      last_end_date = None, due_soon_date = None, request_expire_date = None, request_start_date = None,
      transaction_date = None, l_trigger = None, extension_count = None, to_anonymize = False,
      auto_extend = False\<rparr>"

text \<open>\<open>Loan.create\<close> on the data of an action: a new pid, the initial state, and (the loan is not
  concluded) no mark of anonymization.\<close>

definition create_item_loan :: "world \<Rightarrow> loan \<Rightarrow> loan handler" where
  "create_item_loan w data s =
     (let l = (create_loan (\<lambda>_. False) (now w) None True data)\<lparr>l_pid := new_loan_pid w (loans s), l_item := item_pid s\<rparr>
      in (Inr l, s\<lparr>loans := loans s @ [l]\<rparr>))"

definition complete_action_missing_params :: "world \<Rightarrow> loan option \<Rightarrow> params \<Rightarrow> (loan \<times> params) handler" where
  "complete_action_missing_params w checkin_loan p =
     andthen
       (case checkin_loan of
          Some l \<Rightarrow> return (l, p\<lparr>p_patron := Some (l_patron l), p_pid := Some (l_pid l)\<rparr>)
        | None \<Rightarrow>
            andthen (read (\<lambda>s. loan_by_pid (p_pid p) (loans s))) (\<lambda>found.
            andthen
              (case found of
                 Some l \<Rightarrow> return (Some l)
               | None \<Rightarrow>
                   if given (p_patron p)
                   then andthen (create_item_loan w
                          (blank_loan\<lparr>l_patron := the (p_patron p), transaction_date := Some (now w)\<rparr>)) (\<lambda>l. return (Some l))
                   else return None) (\<lambda>lo.
              case lo of
                None \<Rightarrow> throw AttributeError
              | Some l \<Rightarrow>
                  return (l, p\<lparr>p_patron := (if p_patron p = None then Some (l_patron l) else p_patron p),
                               p_pid := (if p_pid p = None then Some (l_pid l) else p_pid p)\<rparr>))))
       (\<lambda>(l, p1).
          andthen (lift_result (transaction_location_or_library w p1)) (\<lambda>p2.
            return (l, if \<not> given (p_pickup_loc p2) \<and> in_states [CREATED, ITEM_AT_DESK] l
                       then p2\<lparr>p_pickup_loc := p_trans_loc p2\<rparr> else p2)))"

text \<open>The keys of the arguments, for \<open>Loan.check_required_params\<close>.\<close>

definition given_params :: "params \<Rightarrow> string list" where
  "given_params p =
     map fst (filter snd
       [(''item_pid'', True), (''pid'', p_pid p \<noteq> None), (''patron_pid'', p_patron p \<noteq> None),
        (''transaction_location_pid'', p_trans_loc p \<noteq> None),
        (''pickup_location_pid'', p_pickup_loc p \<noteq> None), (''transaction_user_pid'', p_user p \<noteq> None)])"

text \<open>\<open>add_action_parameters_and_flush_indexes\<close>: the checks that come before the action, the missing
  arguments, the action, the status of the item.\<close>

definition add_action_parameters_and_flush_indexes ::
  "world \<Rightarrow> string \<Rightarrow> (params \<Rightarrow> (loan option \<times> params) handler) \<Rightarrow> (loan \<Rightarrow> params \<Rightarrow> 'a handler) \<Rightarrow> params
     \<Rightarrow> 'a handler" where
  "add_action_parameters_and_flush_indexes w name prior action p =
     andthen (prior p) (\<lambda>(checkin_loan, p1).
     andthen (complete_action_missing_params w checkin_loan p1) (\<lambda>(l, p2).
     andthen (lift_result (check_required_params name (given_params p2))) (\<lambda>_.
     andthen (action l p2) (\<lambda>a.
     andthen (change_status_commit_and_reindex w) (\<lambda>_. return a)))))"

definition no_prior :: "params \<Rightarrow> (loan option \<times> params) handler" where
  "no_prior p = return (None, p)"

text \<open>The loop of \<open>check_operation_allowed\<close>: the first check that refuses raises its reasons.\<close>

fun first_refusal :: "(py_error + verdict) list \<Rightarrow> py_error + unit" where
  "first_refusal [] = Inr ()"
| "first_refusal (c # cs) =
     (case c of
        Inl e \<Rightarrow> Inl e
      | Inr (can, reasons) \<Rightarrow>
          if \<not> can then Inl (CirculationException (join ''; '' (map snd reasons))) else first_refusal cs)"

definition check_operation_allowed :: "world \<Rightarrow> string \<Rightarrow> (params \<Rightarrow> 'a handler) \<Rightarrow> params \<Rightarrow> 'a handler" where
  "check_operation_allowed w operation action p =
     (let p1 = p\<lparr>override_blocking := False\<rparr> in
      if override_blocking p then action p1
      else andthen (\<lambda>s. lift_result (first_refusal (operation_checks w operation p1 s)) s) (\<lambda>_. action p1))"

text \<open>\<open>Item.can\<close>: all the checks run, and their reasons add up.\<close>

fun can_loop :: "bool \<times> (string, string) dict \<Rightarrow> (py_error + verdict) list \<Rightarrow> py_error + verdict" where
  "can_loop (can, reasons) [] = Inr (can, reasons)"
| "can_loop (can, reasons) (c # cs) =
     (case c of
        Inl e \<Rightarrow> Inl e
      | Inr (f, rs) \<Rightarrow> can_loop (can \<and> f, fold (\<lambda>(k, v). dict_set k v) rs reasons) cs)"

definition item_can :: "world \<Rightarrow> string \<Rightarrow> params \<Rightarrow> circ \<Rightarrow> py_error + verdict" where
  "item_can w operation p s = can_loop (True, []) (operation_checks w operation p s)"

definition item_can_request :: "item_status \<Rightarrow> string \<Rightarrow> (string \<times> string \<times> bool) option \<Rightarrow> loan list \<Rightarrow> verdict" where
  "item_can_request st item_organisation patron ls =
     (let reasons =
        (if st \<in> set [MISSING, EXCLUDED] then [(''item_status'', ''Item status disallows the operation.'')] else [])
        @ (case patron of
             None \<Rightarrow> []
           | Some (pid, organisation, has_barcode) \<Rightarrow>
               (if organisation \<noteq> item_organisation
                then [(''item_patron_organisation'', ''Item and patron are not in the same organisation.'')] else [])
               @ (if has_barcode \<and> patron_has_an_active_loan_on_item pid ls
                  then [(''item_already_checked_out_or_requested'',
                         ''Item is already checked-out or requested by patron.'')] else []))
      in (reasons = [], reasons))"

section \<open>Simple actions\<close>

type_synonym actions_done = "(loan_action, loan) dict"

definition merge :: "actions_done \<Rightarrow> actions_done \<Rightarrow> actions_done" where
  "merge a b = fold (\<lambda>(k, v). dict_set k v) b a"

definition triggered :: "world \<Rightarrow> string \<Rightarrow> loan_action \<Rightarrow> loan \<Rightarrow> params \<Rightarrow> actions_done handler" where
  "triggered w name act l p = andthen (trigger w name p l) (\<lambda>l'. return [(act, l')])"

definition cancel_loan :: "world \<Rightarrow> params \<Rightarrow> actions_done handler" where
  "cancel_loan w = add_action_parameters_and_flush_indexes w ''cancel_loan'' no_prior (triggered w ''cancel'' CANCEL)"

definition receive :: "world \<Rightarrow> params \<Rightarrow> actions_done handler" where
  "receive w = add_action_parameters_and_flush_indexes w ''receive'' no_prior (triggered w ''receive'' RECEIVE)"

definition prior_validate_actions :: "world \<Rightarrow> params \<Rightarrow> (loan option \<times> params) handler" where
  "prior_validate_actions w p s =
     (if given (p_pid p)
      then (if \<exists>a \<in> set (states_active w). a \<in> set (get_loans_states_by_item_pid_exclude_loan_pid (the (p_pid p)) (loans s))
            then throw NoValidTransitionAvailableError s
            else return (None, p) s)
      else (case transaction_location_or_library w p of
              Inl e \<Rightarrow> throw e s
            | Inr _ \<Rightarrow> throw (NoCirculationAction ''No circulation action performed: validate impossible'') s))"

definition validate_request :: "world \<Rightarrow> params \<Rightarrow> actions_done handler" where
  "validate_request w =
     add_action_parameters_and_flush_indexes w ''validate_request'' (prior_validate_actions w)
       (triggered w ''validate_request'' VALIDATE)"

definition request :: "world \<Rightarrow> params \<Rightarrow> actions_done handler" where
  "request w =
     check_operation_allowed w ''request''
       (add_action_parameters_and_flush_indexes w ''request'' no_prior (triggered w ''request'' REQUEST))"

definition prior_extend_loan_actions :: "world \<Rightarrow> params \<Rightarrow> circ \<Rightarrow> py_error + loan option \<times> params" where
  "prior_extend_loan_actions w p s =
     (let lo = (if given (p_pid p) then loan_by_pid (p_pid p) (loans s) else get_first_loan_by_state ITEM_ON_LOAN (loans s));
          checked_out = (given (p_pid p) \<or> lo \<noteq> None);
          have_request = (PENDING \<in> set (get_loan_states_for_an_item (loans s))) in
      and_then (case lo of
                  Some _ \<Rightarrow> Inr p
                | None \<Rightarrow> and_then (transaction_location_or_library w p) (\<lambda>q. Inr (p\<lparr>p_trans_lib := p_trans_lib q\<rparr>))) (\<lambda>p1.
        if \<not> checked_out \<or> have_request
        then Inl (NoCirculationAction ''No circulation action performed: extension impossible'')
        else Inr (lo, p1)))"

definition extend_loan :: "world \<Rightarrow> params \<Rightarrow> actions_done handler" where
  "extend_loan w =
     add_action_parameters_and_flush_indexes w ''extend_loan''
       (\<lambda>p s. (prior_extend_loan_actions w p s, s))
       (\<lambda>l. check_operation_allowed w ''extend'' (triggered w ''extend'' EXTEND l))"

section \<open>Check-in\<close>

abbreviation no_action :: "string \<Rightarrow> 'a handler" where
  "no_action why \<equiv> throw (NoCirculationAction (''No circulation action performed: '' @ why))"

definition compare_libraries :: "world \<Rightarrow> params \<Rightarrow> libraries handler" where
  "compare_libraries w p = (\<lambda>s. lift_result (compare_item_pickup_transaction_libraries w (item_library s) p) s)"

definition pickup_of :: "loan \<Rightarrow> string handler" where
  "pickup_of l = (case pickup_location l of None \<Rightarrow> throw (KeyError ''pickup_location_pid'') | Some x \<Rightarrow> return x)"

text \<open>A loan that a branch of the code takes for granted: the first one in the given state, and the
  exception its use would raise if there were none.\<close>

definition first_loan :: "py_error \<Rightarrow> loan_state \<Rightarrow> loan handler" where
  "first_loan e st s = (case get_first_loan_by_state st (loans s) of None \<Rightarrow> (Inl e, s) | Some l \<Rightarrow> (Inr l, s))"

definition checkin_item_on_shelf :: "world \<Rightarrow> params \<Rightarrow> (loan option \<times> params) handler" where
  "checkin_item_on_shelf w p =
     andthen (compare_libraries w p) (\<lambda>libs.
     andthen (lift_result (transaction_location_or_library w p)) (\<lambda>_.
       if transaction_item_libraries libs
       then andthen (read item_status) (\<lambda>st.
              if st \<noteq> ON_SHELF
              then andthen (status_update w True) (\<lambda>_. no_action ''item returned at owning library'')
              else no_action ''on shelf'')
       else andthen (set_status IN_TRANSIT) (\<lambda>_.
            andthen (status_update w False) (\<lambda>_. no_action ''in transit added''))))"

definition checkin_item_at_desk :: "world \<Rightarrow> params \<Rightarrow> (loan option \<times> params) handler" where
  "checkin_item_at_desk w p =
     andthen (first_loan TypeError ITEM_AT_DESK) (\<lambda>l.
     andthen (pickup_of l) (\<lambda>pickup.
     andthen (compare_libraries w (p\<lparr>p_pickup_loc := Some pickup\<rparr>)) (\<lambda>libs.
       if transaction_pickup_libraries libs then no_action ''item at desk''
       else andthen (store_loan (l\<lparr>l_state := Some ITEM_IN_TRANSIT_FOR_PICKUP\<rparr>)) (\<lambda>_.
            andthen (set_status IN_TRANSIT) (\<lambda>_.
            andthen (status_update w False) (\<lambda>_. no_action ''in transit added''))))))"

definition checkin_item_in_transit_for_pickup :: "world \<Rightarrow> params \<Rightarrow> (loan option \<times> params) handler" where
  "checkin_item_in_transit_for_pickup w p =
     andthen (first_loan TypeError ITEM_IN_TRANSIT_FOR_PICKUP) (\<lambda>l.
     andthen (pickup_of l) (\<lambda>pickup.
       let p1 = p\<lparr>p_pickup_loc := Some pickup\<rparr> in
       andthen (compare_libraries w p1) (\<lambda>libs.
         if transaction_pickup_libraries libs then return (Some l, p1\<lparr>receive_in_transit_request := True\<rparr>)
         else no_action ''in transit added'')))"

definition checkin_item_in_transit_to_house_with_requests ::
  "world \<Rightarrow> loan \<Rightarrow> params \<Rightarrow> (loan option \<times> params) handler" where
  "checkin_item_in_transit_to_house_with_requests w in_transit_loan p =
     andthen (read (\<lambda>s. get_first_loan_by_state PENDING (loans s))) (\<lambda>pending.
       case pending of
         None \<Rightarrow> return (Some in_transit_loan, p)
       | Some l \<Rightarrow>
           andthen (pickup_of l) (\<lambda>pickup.
             let p1 = p\<lparr>p_pickup_loc := Some pickup\<rparr> in
             andthen (compare_libraries w p1) (\<lambda>libs.
               if transaction_pickup_libraries libs
               then return (Some in_transit_loan,
                      if item_pickup_libraries libs then p1\<lparr>receive_current_and_validate_first := True\<rparr>
                      else p1\<lparr>cancel_current_and_receive_first := True\<rparr>)
               else if item_pickup_libraries libs then no_action ''in transit''
               else return (Some in_transit_loan, p1\<lparr>cancel_current_and_receive_first := True\<rparr>))))"

definition checkin_item_in_transit_to_house ::
  "world \<Rightarrow> loan_state list \<Rightarrow> params \<Rightarrow> (loan option \<times> params) handler" where
  "checkin_item_in_transit_to_house w states p =
     andthen (compare_libraries w p) (\<lambda>libs.
     andthen (first_loan TypeError ITEM_IN_TRANSIT_TO_HOUSE) (\<lambda>l.
       if PENDING \<notin> set states
       then (if \<not> transaction_item_libraries libs
             then andthen (lift_result (transaction_location_or_library w p)) (\<lambda>_. no_action ''in transit to house'')
             else return (Some l, p\<lparr>receive_in_transit_request := True\<rparr>))
       else checkin_item_in_transit_to_house_with_requests w l p))"

definition validate_item_first_pending_request :: "params \<Rightarrow> (loan option \<times> params) handler" where
  "validate_item_first_pending_request p =
     andthen (read (\<lambda>s. get_first_loan_by_state PENDING (loans s))) (\<lambda>pending.
       case pending of
         None \<Rightarrow> return (None, p)
       | Some l \<Rightarrow> return (Some l, p\<lparr>validate_current_loan := True\<rparr>))"

definition prior_checkin_actions :: "world \<Rightarrow> params \<Rightarrow> (loan option \<times> params) handler" where
  "prior_checkin_actions w p =
     andthen (read (\<lambda>s. get_loan_states_for_an_item (loans s))) (\<lambda>states.
       if states = [] then checkin_item_on_shelf w p
       else if ITEM_AT_DESK \<notin> set states \<and> ITEM_ON_LOAN \<notin> set states
         then (if ITEM_IN_TRANSIT_FOR_PICKUP \<in> set states then checkin_item_in_transit_for_pickup w p
               else if ITEM_IN_TRANSIT_TO_HOUSE \<in> set states then checkin_item_in_transit_to_house w states p
               else if PENDING \<in> set states then validate_item_first_pending_request p
               else return (None, p))
       else if ITEM_AT_DESK \<in> set states then checkin_item_at_desk w p
       else andthen (read (\<lambda>s. get_first_loan_by_state ITEM_ON_LOAN (loans s))) (\<lambda>lo. return (lo, p)))"

text \<open>A loan passed as the arguments of an action.\<close>

definition no_params :: params where
  "no_params =
     \<lparr>p_pid = None, p_patron = None, p_trans_loc = None, p_trans_lib = None, p_pickup_loc = None,
      p_pickup_lib = None, p_user = None, p_end_date = None, override_blocking = False,
      validate_current_loan = False, receive_in_transit_request = False,
      receive_current_and_validate_first = False, cancel_current_and_receive_first = False\<rparr>"

definition params_of_loan :: "loan \<Rightarrow> params" where
  "params_of_loan l =
     no_params\<lparr>p_pid := Some (l_pid l), p_patron := Some (l_patron l), p_trans_loc := transaction_location l,
               p_pickup_loc := pickup_location l, p_user := transaction_user l, p_end_date := end_date l\<rparr>"

text \<open>The block that three methods share: validate the first request of the item from the location of
  the transaction that ended, and receive it when its pickup library is the one of the transaction.
  \<open>next\<close> on no request at all raises.\<close>

definition first_request :: "loan handler" where
  "first_request s = (case get_requests (loans s) of [] \<Rightarrow> (Inl StopIteration, s) | r # _ \<Rightarrow> (Inr r, s))"

definition validate_next :: "world \<Rightarrow> loan \<Rightarrow> loan \<Rightarrow> actions_done \<Rightarrow> actions_done handler" where
  "validate_next w ended req acts =
     (let req_params = params_of_loan (req\<lparr>transaction_location := transaction_location ended\<rparr>) in
      andthen (validate_request w req_params) (\<lambda>validate_actions.
        let acts1 = merge acts validate_actions in
        case dict_get validate_actions VALIDATE of
          None \<Rightarrow> throw (KeyError ''validate'')
        | Some v \<Rightarrow>
            if l_state v = Some ITEM_IN_TRANSIT_FOR_PICKUP
            then andthen (lift_result (library_of_location w (transaction_location ended))) (\<lambda>trans_lib.
                 andthen (lift_result (library_of_location w (pickup_location req))) (\<lambda>req_lib.
                   if req_lib = trans_lib
                   then andthen (receive w req_params) (\<lambda>r. return (merge acts1 r))
                   else return acts1))
            else return acts1))"

definition actions_after_a_checkin :: "world \<Rightarrow> loan \<Rightarrow> actions_done \<Rightarrow> params \<Rightarrow> actions_done handler" where
  "actions_after_a_checkin w checkin_loan acts p =
     andthen (read (\<lambda>s. number_of_requests (loans s))) (\<lambda>n.
       if n = 0 then return acts
       else andthen first_request (\<lambda>req.
            andthen (if is_active w checkin_loan
                     then andthen (cancel_loan w (p\<lparr>p_pid := Some (l_pid checkin_loan)\<rparr>)) (\<lambda>c. return (merge acts c))
                     else return acts) (\<lambda>acts1.
              validate_next w checkin_loan req acts1)))"

definition checkin_triggers_receive_and_validate_requests :: "world \<Rightarrow> params \<Rightarrow> actions_done handler" where
  "checkin_triggers_receive_and_validate_requests w p =
     andthen (receive w p) (\<lambda>receive_action.
     andthen (read (\<lambda>s. number_of_requests (loans s))) (\<lambda>n.
       if n = 0 then return receive_action
       else andthen first_request (\<lambda>req.
            case dict_get receive_action RECEIVE of
              None \<Rightarrow> throw (KeyError ''receive'')
            | Some l \<Rightarrow>
                andthen (if is_active w l
                         then andthen (cancel_loan w (p\<lparr>p_pid := Some (l_pid l)\<rparr>)) (\<lambda>c. return (merge receive_action c))
                         else return receive_action) (\<lambda>acts1.
                  validate_next w l req acts1))))"

definition checkin_triggers_cancel_and_receive_first_loan :: "world \<Rightarrow> loan \<Rightarrow> params \<Rightarrow> actions_done handler" where
  "checkin_triggers_cancel_and_receive_first_loan w current_loan p =
     andthen (cancel_loan w (p\<lparr>p_pid := Some (l_pid current_loan)\<rparr>)) (\<lambda>cancel_actions.
       case dict_get cancel_actions CANCEL of
         None \<Rightarrow> throw (KeyError ''cancel'')
       | Some l \<Rightarrow>
           andthen (read (\<lambda>s. number_of_requests (loans s))) (\<lambda>n.
             if n = 0 then return cancel_actions
             else andthen first_request (\<lambda>req. validate_next w l req cancel_actions)))"

definition checkin_body :: "world \<Rightarrow> loan \<Rightarrow> params \<Rightarrow> actions_done handler" where
  "checkin_body w current_loan p =
     (if validate_current_loan p then validate_request w (p\<lparr>validate_current_loan := False\<rparr>)
      else if receive_in_transit_request p then receive w (p\<lparr>receive_in_transit_request := False\<rparr>)
      else if receive_current_and_validate_first p
        then checkin_triggers_receive_and_validate_requests w (p\<lparr>receive_current_and_validate_first := False\<rparr>)
      else if cancel_current_and_receive_first p
        then checkin_triggers_cancel_and_receive_first_loan w current_loan (p\<lparr>cancel_current_and_receive_first := False\<rparr>)
      else andthen (trigger w ''checkin'' p current_loan) (\<lambda>checkin_loan.
             actions_after_a_checkin w checkin_loan [(CHECKIN, checkin_loan)] p))"

definition checkin :: "world \<Rightarrow> params \<Rightarrow> actions_done handler" where
  "checkin w = add_action_parameters_and_flush_indexes w ''checkin'' (prior_checkin_actions w) (checkin_body w)"

section \<open>Checkout\<close>

definition required :: "'a option \<Rightarrow> 'a handler" where
  "required lo = (case lo of None \<Rightarrow> throw TypeError | Some l \<Rightarrow> return l)"

text \<open>The value keeps the loan as it was read: the actions on it work on objects of their own.\<close>

definition prior_checkout_actions :: "world \<Rightarrow> params \<Rightarrow> (params \<times> actions_done) handler" where
  "prior_checkout_actions w p =
     andthen
       (if given (p_pid p)
        then andthen (read (\<lambda>s. loan_by_pid (p_pid p) (loans s))) (\<lambda>lo.
             andthen (required lo) (\<lambda>l.
               if l_state l = Some ITEM_IN_TRANSIT_FOR_PICKUP \<and> p_patron p = Some (l_patron l)
               then andthen (receive w p) (\<lambda>r. return (Some l, p, merge [] r))
               else if l_state l = Some ITEM_IN_TRANSIT_TO_HOUSE
               then (if p_patron p = None then throw (KeyError ''patron_pid'')
                     else andthen (cancel_loan w (p\<lparr>p_patron := None\<rparr>)) (\<lambda>c.
                          return (Some l, p\<lparr>p_pid := None\<rparr>, merge [] c)))
               else return (Some l, p, [])))
        else andthen (read (\<lambda>s. get_loan_for_item w (loans s))) (\<lambda>lo.
             case lo of
               None \<Rightarrow> return (None, p, [])
             | Some l \<Rightarrow>
                 if l_state l \<noteq> Some ITEM_AT_DESK
                 then andthen (cancel_loan w (no_params\<lparr>p_pid := Some (l_pid l)\<rparr>)) (\<lambda>c. return (Some l, p, merge [] c))
                 else return (Some l, p, [])))
       (\<lambda>(lo, p1, acts).
          andthen (read item_status) (\<lambda>st.
            if st \<noteq> ON_SHELF then return (p1, acts)
            else andthen (required lo) (\<lambda>l.
                 if l_state l = Some ITEM_IN_TRANSIT_TO_HOUSE then return (p1, acts)
                 else andthen (read (\<lambda>s. get_item_loans_by_state PENDING (loans s))) (\<lambda>pending.
                   case pending of
                     [] \<Rightarrow> return (p1, acts)
                   | res # _ \<Rightarrow>
                       if l_patron res \<noteq> l_patron l
                       then throw (ItemNotAvailableError (''A pending loan exists for patron '' @ l_patron res))
                       else return (p1, acts)))))"

text \<open>An end date on a closed day moves to the next open day of the library of the transaction,
  without its fraction of a second.\<close>

definition open_end_date :: "world \<Rightarrow> string option \<Rightarrow> stamp \<Rightarrow> py_error + stamp" where
  "open_end_date w trans_loc d =
     (case (case trans_loc of None \<Rightarrow> None | Some loc \<Rightarrow> location_library w loc) of
        None \<Rightarrow> Inl NotFoundError
      | Some lib \<Rightarrow>
          let cal = calendar_of w lib in
          if is_open (to_local w) (recurrences w) cal d True True then Inr d
          else unless_never_open
                 (and_then (next_open (to_local w) (recurrences w) (now w) cal d False False) (\<lambda>e.
                    Inr (e\<lparr>us := us e div 1000000 * 1000000\<rparr>))) d)"

definition data_of_params :: "params \<Rightarrow> loan" where
  "data_of_params p =
     blank_loan\<lparr>l_patron := (case p_patron p of None \<Rightarrow> [] | Some x \<Rightarrow> x),
                transaction_location := p_trans_loc p, pickup_location := p_pickup_loc p,
                transaction_user := p_user p, end_date := p_end_date p\<rparr>"

definition checkout_body :: "world \<Rightarrow> loan \<Rightarrow> params \<Rightarrow> actions_done handler" where
  "checkout_body w _ p =
     andthen (prior_checkout_actions w p) (\<lambda>(p1, acts).
     andthen (read (\<lambda>s. loan_by_pid (p_pid p1) (loans s))) (\<lambda>lo.
     andthen (case lo of
                Some l \<Rightarrow> return l
              | None \<Rightarrow> create_item_loan w ((data_of_params p1)\<lparr>transaction_date := Some (now w)\<rparr>)) (\<lambda>l.
     andthen (case p_end_date p1 of
                None \<Rightarrow> return p1
              | Some d \<Rightarrow> andthen (lift_result (open_end_date w (p_trans_loc p1) d)) (\<lambda>e. return (p1\<lparr>p_end_date := Some e\<rparr>)))
       (\<lambda>p2. andthen (trigger w ''checkout'' p2 l) (\<lambda>l'. return (dict_set CHECKOUT l' acts))))))"

definition prior_checkout_pid :: "params \<Rightarrow> (loan option \<times> params) handler" where
  "prior_checkout_pid p =
     (if given (p_pid p) then return (None, p)
      else case p_patron p of
          None \<Rightarrow> throw (KeyError ''patron_pid'')
        | Some patron \<Rightarrow>
            andthen (read (\<lambda>s. get_request_by_patron patron (loans s))) (\<lambda>lo.
              case lo of
                None \<Rightarrow> return (None, p)
              | Some l \<Rightarrow> return (None, p\<lparr>p_pid := Some (l_pid l)\<rparr>)))"

definition checkout :: "world \<Rightarrow> params \<Rightarrow> actions_done handler" where
  "checkout w =
     check_operation_allowed w ''checkout''
       (add_action_parameters_and_flush_indexes w ''checkout'' prior_checkout_pid (checkout_body w))"

section \<open>Cancelling a request\<close>

record cancel_plan =
  plan_cancel_loan :: bool
  plan_loan_update :: "loan_state option"
  plan_validate_first_pending :: bool

definition no_plan :: cancel_plan where
  "no_plan = \<lparr>plan_cancel_loan = False, plan_loan_update = None, plan_validate_first_pending = False\<rparr>"

text \<open>The decisions of \<open>checks_before_a_cancel_item_request\<close>, on the state of the loan, the states of
  the other loans of the item, and whether the item is picked up in its own library.\<close>

definition cancel_decision :: "loan_state \<Rightarrow> loan_state list \<Rightarrow> bool \<Rightarrow> py_error + cancel_plan" where
  "cancel_decision st states item_pickup =
     (if states = []
      then (if st = PENDING \<or> st = ITEM_IN_TRANSIT_TO_HOUSE then Inr (no_plan\<lparr>plan_cancel_loan := True\<rparr>)
            else if st = ITEM_ON_LOAN then Inl (NoCirculationAction ''No circulation action performed: item on loan'')
            else if st = ITEM_IN_TRANSIT_FOR_PICKUP
              then Inr (no_plan\<lparr>plan_loan_update := Some ITEM_IN_TRANSIT_TO_HOUSE, plan_cancel_loan := True\<rparr>)
            else if st = ITEM_AT_DESK
              then Inr (no_plan\<lparr>plan_loan_update := (if \<not> item_pickup then Some ITEM_IN_TRANSIT_TO_HOUSE else None),
                               plan_cancel_loan := True\<rparr>)
            else Inr no_plan)
      else if st = ITEM_AT_DESK \<and> PENDING \<in> set states then Inr (no_plan\<lparr>plan_validate_first_pending := True\<rparr>)
      else if st = ITEM_IN_TRANSIT_FOR_PICKUP \<and> PENDING \<in> set states then Inr (no_plan\<lparr>plan_validate_first_pending := True\<rparr>)
      else if st = ITEM_IN_TRANSIT_TO_HOUSE \<and> PENDING \<in> set states then Inr (no_plan\<lparr>plan_validate_first_pending := True\<rparr>)
      else if st = PENDING
           \<and> (\<exists>x \<in> set [ITEM_AT_DESK, ITEM_ON_LOAN, ITEM_IN_TRANSIT_FOR_PICKUP, ITEM_IN_TRANSIT_TO_HOUSE, PENDING]. x \<in> set states)
        then Inr (no_plan\<lparr>plan_cancel_loan := True\<rparr>)
      else Inr no_plan)"

definition checks_before_a_cancel_item_request :: "world \<Rightarrow> loan option \<Rightarrow> params \<Rightarrow> circ \<Rightarrow> py_error + cancel_plan" where
  "checks_before_a_cancel_item_request w lo p s =
     and_then (compare_item_pickup_transaction_libraries w (item_library s) p) (\<lambda>libs.
       case lo of
         None \<Rightarrow> Inl AttributeError
       | Some l \<Rightarrow>
           (case l_state l of
              None \<Rightarrow> Inl (KeyError ''state'')
            | Some st \<Rightarrow>
                cancel_decision st (get_loans_states_by_item_pid_exclude_loan_pid (l_pid l) (loans s))
                  (item_pickup_libraries libs)))"

definition cancel_item_request :: "world \<Rightarrow> string \<Rightarrow> params \<Rightarrow> actions_done handler" where
  "cancel_item_request w pid p =
     andthen (read (\<lambda>s. loan_by_pid (Some pid) (loans s))) (\<lambda>lo.
     andthen (\<lambda>s. lift_result (checks_before_a_cancel_item_request w lo p s) s) (\<lambda>plan.
     andthen (required lo) (\<lambda>l.
       let cancel = cancel_loan w (p\<lparr>p_pid := Some (l_pid l)\<rparr>) in
       andthen (if plan_cancel_loan plan then cancel else return []) (\<lambda>acts.
         case plan_loan_update plan of
           Some st \<Rightarrow>
             let l' = l\<lparr>l_state := Some st\<rparr> in
             andthen (store_loan l') (\<lambda>_.
             andthen (status_update w True) (\<lambda>_. return (dict_set UPDATE l' acts)))
         | None \<Rightarrow>
             if \<not> plan_validate_first_pending plan then return acts
             else andthen (first_loan AttributeError PENDING) (\<lambda>pending.
               if l_state l = Some ITEM_AT_DESK \<and> pickup_location l = pickup_location pending
               then andthen cancel (\<lambda>c.
                    andthen (validate_request w
                        (p\<lparr>p_pid := Some (l_pid pending), p_trans_loc := pickup_location l, p_trans_lib := None\<rparr>))
                      (\<lambda>v. return (merge c v)))
               else andthen (store_loan (pending\<lparr>l_state := Some ITEM_IN_TRANSIT_FOR_PICKUP\<rparr>)) (\<lambda>_.
                    andthen cancel (\<lambda>c.
                    andthen (status_update w True) (\<lambda>_. return (dict_set UPDATE l c)))))))))"

section \<open>The actions offered on an item\<close>

text \<open>\<open>action_filter\<close>: whether the action is kept, and the action that replaces it. \<open>may_extend\<close> is
  the answer of \<open>Item.can\<close>.\<close>

definition action_filter :: "py_error + verdict \<Rightarrow> cipo option \<Rightarrow> loan \<Rightarrow> string option \<Rightarrow> string \<Rightarrow> py_error + bool \<times> string option" where
  "action_filter may_extend policy l patron action =
     and_then (if action = ''extend'' then and_then may_extend (\<lambda>v. Inr (fst v)) else Inr True) (\<lambda>validated.
       if action = ''checkout''
       then (case policy of
               None \<Rightarrow> Inl AttributeError
             | Some c \<Rightarrow> Inr (validated \<and> can_checkout c, None))
       else if action = ''receive''
       then (case policy of
               None \<Rightarrow> Inl AttributeError
             | Some c \<Rightarrow>
                 Inr (if can_checkout c \<and> l_state l = Some ITEM_IN_TRANSIT_FOR_PICKUP \<and> Some (l_patron l) = patron
                      then (False, Some ''checkout'') else (validated, None)))
       else Inr (validated, None))"

fun actions_loop :: "(string \<Rightarrow> py_error + bool \<times> string option) \<Rightarrow> string list \<Rightarrow> py_error + string set" where
  "actions_loop filt [] = Inr {}"
| "actions_loop filt (a # as) =
     and_then (filt a) (\<lambda>(validated, new_action).
     and_then (actions_loop filt as) (\<lambda>rest.
       Inr ((if validated then {a} else {}) \<union> (case new_action of None \<Rightarrow> {} | Some b \<Rightarrow> {b}) \<union> rest)))"

definition rename_extend :: "string set \<Rightarrow> string set" where
  "rename_extend as = (if ''extend'' \<in> as then insert ''extend_loan'' (as - {''extend''}) else as)"

definition item_actions :: "world \<Rightarrow> py_error + verdict \<Rightarrow> cipo option \<Rightarrow> circ \<Rightarrow> py_error + string set" where
  "item_actions w may_extend policy s =
     and_then
       (case get_loan_for_item w (loans s) of
          Some l \<Rightarrow>
            (case l_state l of
               None \<Rightarrow> Inl (KeyError ''state'')
             | Some st \<Rightarrow> actions_loop (action_filter may_extend policy l (Some (l_patron l))) (map snd (LOAN_TRANSITIONS st)))
        | None \<Rightarrow> Inr (set (map snd (LOAN_TRANSITIONS CREATED))))
       (\<lambda>as. Inr (rename_extend (as - {''cancel'', ''request''})))"

text \<open>\<open>get_requests_to_validate\<close>: of the pending loans of a library, the first of each item on its
  shelf. A loan comes with the status of its item.\<close>

fun requests_to_validate :: "string list \<Rightarrow> (loan \<times> item_status) list \<Rightarrow> loan list" where
  "requests_to_validate seen [] = []"
| "requests_to_validate seen ((l, st) # rest) =
     (if st = ON_SHELF \<and> l_item l \<notin> set seen then l # requests_to_validate (seen @ [l_item l]) rest
      else requests_to_validate seen rest)"

end
