(* ===== verification/ItemLifecycle.thy ===== *)
theory ItemLifecycle
  imports ItemCirculation
begin

text \<open>
  The properties of the circulation of an item: the life cycle of its loans, the number of active
  loans, the status of the item, the outcome of a check-in and of a cancellation.

  A handler is verified against a guarantee, a reflexive and transitive relation between the state
  it starts in and the state it leaves, whatever it returns: \<open>spec\<close> says that a handler started
  where a precondition holds respects the guarantee, and that a value it returns satisfies a
  postcondition in the new state. The rules of \<open>spec\<close> are proved once, in a locale over the guarantee.
\<close>

section \<open>Specifications of handlers\<close>

definition spec ::
  "(circ \<Rightarrow> circ \<Rightarrow> bool) \<Rightarrow> (circ \<Rightarrow> bool) \<Rightarrow> 'a handler \<Rightarrow> ('a \<Rightarrow> circ \<Rightarrow> bool) \<Rightarrow> bool" where
  "spec G P m Q \<longleftrightarrow> (\<forall>s. P s \<longrightarrow> G s (snd (m s)) \<and> (\<forall>a. fst (m s) = Inr a \<longrightarrow> Q a (snd (m s))))"

lemmas handler_defs = return_def throw_def lift_result_def read_def andthen_def

lemma andthen_Inr:
  "fst (andthen m k s) = Inr b \<longleftrightarrow> (\<exists>a. fst (m s) = Inr a \<and> fst (k a (snd (m s))) = Inr b)"
  by (auto simp: andthen_def split: prod.splits sum.splits)

lemma snd_andthen:
  "snd (andthen m k s) = (case fst (m s) of Inl e \<Rightarrow> snd (m s) | Inr a \<Rightarrow> snd (k a (snd (m s))))"
  by (auto simp: andthen_def split: prod.splits sum.splits)

lemma spec_weaken:
  assumes "spec G P m Q" and "\<And>s. P' s \<Longrightarrow> P s" and "\<And>a s. Q a s \<Longrightarrow> Q' a s" and "\<And>s t. G s t \<Longrightarrow> G' s t"
  shows "spec G' P' m Q'"
  using assms by (auto simp: spec_def)

lemma spec_pre: "spec G P m Q \<Longrightarrow> (\<And>s. P' s \<Longrightarrow> P s) \<Longrightarrow> spec G P' m Q"
  by (rule spec_weaken)

locale guarantee =
  fixes G :: "circ \<Rightarrow> circ \<Rightarrow> bool"
  assumes stays: "G s s"
    and composes: "G s t \<Longrightarrow> G t u \<Longrightarrow> G s u"
begin

lemma return: "(\<And>s. P s \<Longrightarrow> Q a s) \<Longrightarrow> spec G P (return a) Q"
  by (simp add: spec_def return_def stays)

lemma throw: "spec G P (throw e) Q"
  by (simp add: spec_def throw_def stays)

lemma read: "(\<And>s. P s \<Longrightarrow> Q (f s) s) \<Longrightarrow> spec G P (read f) Q"
  by (simp add: spec_def read_def stays)

lemma lift: "(\<And>a s. r = Inr a \<Longrightarrow> P s \<Longrightarrow> Q a s) \<Longrightarrow> spec G P (lift_result r) Q"
  by (simp add: spec_def lift_result_def stays)

lemma compute: "(\<And>a s. f s = Inr a \<Longrightarrow> P s \<Longrightarrow> Q a s) \<Longrightarrow> spec G P (\<lambda>s. lift_result (f s) s) Q"
  by (simp add: spec_def lift_result_def stays)

lemma andthen:
  assumes "spec G P m R" and "\<And>a. spec G (R a) (k a) Q"
  shows "spec G P (andthen m k) Q"
  unfolding spec_def
proof (intro allI impI)
  fix s assume "P s"
  with assms(1) have m: "G s (snd (m s))" "\<And>a. fst (m s) = Inr a \<Longrightarrow> R a (snd (m s))"
    by (auto simp: spec_def)
  show "G s (snd (andthen m k s)) \<and> (\<forall>b. fst (andthen m k s) = Inr b \<longrightarrow> Q b (snd (andthen m k s)))"
  proof (cases "fst (m s)")
    case (Inl e)
    then show ?thesis using m by (simp add: snd_andthen andthen_Inr)
  next
    case (Inr a)
    with m assms(2) [of a] have "G (snd (m s)) (snd (k a (snd (m s))))"
        "\<forall>b. fst (k a (snd (m s))) = Inr b \<longrightarrow> Q b (snd (k a (snd (m s))))"
      by (auto simp: spec_def)
    with m Inr show ?thesis by (auto simp: snd_andthen andthen_Inr intro: composes)
  qed
qed

lemma split_if: "(c \<Longrightarrow> spec G P m Q) \<Longrightarrow> (\<not> c \<Longrightarrow> spec G P n Q) \<Longrightarrow> spec G P (if c then m else n) Q"
  by simp

lemma split_option:
  "(x = None \<Longrightarrow> spec G P m Q) \<Longrightarrow> (\<And>a. x = Some a \<Longrightarrow> spec G P (k a) Q) \<Longrightarrow>
     spec G P (case x of None \<Rightarrow> m | Some a \<Rightarrow> k a) Q"
  by (cases x) auto

lemma split_pair: "(\<And>a b. x = (a, b) \<Longrightarrow> spec G P (k a b) Q) \<Longrightarrow> spec G P (case x of (a, b) \<Rightarrow> k a b) Q"
  by (cases x) auto

lemma split_list:
  "(x = [] \<Longrightarrow> spec G P m Q) \<Longrightarrow> (\<And>a as. x = a # as \<Longrightarrow> spec G P (k a as) Q) \<Longrightarrow>
     spec G P (case x of [] \<Rightarrow> m | a # as \<Rightarrow> k a as) Q"
  by (cases x) auto

lemmas splits = split_if split_option split_pair split_list

lemma no_pre: "(\<And>s. \<not> P s) \<Longrightarrow> spec G P m Q"
  by (simp add: spec_def)

end

section \<open>Moves of a loan\<close>

text \<open>The moves of a loan: the transitions of the configuration, and the changes of state that the
  smart actions write themselves.\<close>

inductive loan_step :: "loan_state \<Rightarrow> loan_state \<Rightarrow> bool" where
  by_trigger: "(d, name) \<in> set (LOAN_TRANSITIONS s) \<Longrightarrow> loan_step s d"
| forwarded: "loan_step ITEM_AT_DESK ITEM_IN_TRANSIT_FOR_PICKUP"
| sent_home: "loan_step ITEM_IN_TRANSIT_FOR_PICKUP ITEM_IN_TRANSIT_TO_HOUSE"
| sent_home_from_desk: "loan_step ITEM_AT_DESK ITEM_IN_TRANSIT_TO_HOUSE"
| redirected: "loan_step PENDING ITEM_IN_TRANSIT_FOR_PICKUP"

inductive_cases from_returned: "loan_step ITEM_RETURNED d"
inductive_cases from_cancelled: "loan_step CANCELLED d"
inductive_simps loan_step_from: "loan_step s d"

lemma loan_step_code:
  "loan_step s d \<longleftrightarrow> d \<in> fst ` set (LOAN_TRANSITIONS s)
     \<or> (s, d) \<in> {(ITEM_AT_DESK, ITEM_IN_TRANSIT_FOR_PICKUP), (ITEM_IN_TRANSIT_FOR_PICKUP, ITEM_IN_TRANSIT_TO_HOUSE),
                (ITEM_AT_DESK, ITEM_IN_TRANSIT_TO_HOUSE), (PENDING, ITEM_IN_TRANSIT_FOR_PICKUP)}"
  by (force simp: loan_step_from)

abbreviation reaches :: "loan_state \<Rightarrow> loan_state \<Rightarrow> bool" where
  "reaches \<equiv> loan_step\<^sup>*\<^sup>*"

definition ACTIVE :: "loan_state list" where
  "ACTIVE = [ITEM_AT_DESK, ITEM_IN_TRANSIT_FOR_PICKUP, ITEM_IN_TRANSIT_TO_HOUSE, ITEM_ON_LOAN]"

lemma concluded_is_final: "s \<in> set CONCLUDED \<Longrightarrow> reaches s d \<Longrightarrow> d = s"
  by (erule converse_rtranclpE) (auto simp: CONCLUDED_def elim!: from_returned from_cancelled)

lemma steps_from_active: "s \<in> set ACTIVE \<Longrightarrow> loan_step s d \<Longrightarrow> d \<in> set (ACTIVE @ CONCLUDED)"
  by (auto simp: ACTIVE_def CONCLUDED_def loan_step_code)

lemma never_back_to_request:
  assumes "reaches s d" and "s \<in> set (ACTIVE @ CONCLUDED)"
  shows "d \<in> set (ACTIVE @ CONCLUDED)"
  using assms
proof (induction rule: rtranclp_induct)
  case base
  then show ?case .
next
  case (step y z)
  then show ?case
    using steps_from_active [of y z] concluded_is_final [of y z] by (auto simp del: set_append simp: set_append)
qed

definition moved :: "loan_state option \<Rightarrow> loan_state option \<Rightarrow> bool" where
  "moved a b \<longleftrightarrow> a = b \<or> (\<exists>s d. a = Some s \<and> b = Some d \<and> reaches s d)"

lemma moved_refl [simp]: "moved a a"
  by (simp add: moved_def)

lemma moved_trans: "moved a b \<Longrightarrow> moved b c \<Longrightarrow> moved a c"
  by (auto simp: moved_def intro: rtranclp_trans)

lemma moved_step: "loan_step s d \<Longrightarrow> moved (Some s) (Some d)"
  by (auto simp: moved_def)

text \<open>What any action may do: the item stays the same item, no loan disappears, each keeps its pid
  and follows the life cycle.\<close>

definition loan_moved :: "loan \<Rightarrow> loan \<Rightarrow> bool" where
  "loan_moved a b \<longleftrightarrow> l_pid b = l_pid a \<and> moved (l_state a) (l_state b)"

definition evolves :: "circ \<Rightarrow> circ \<Rightarrow> bool" where
  "evolves s t \<longleftrightarrow>
     item_pid t = item_pid s \<and> item_library t = item_library s
     \<and> (\<exists>old new. loans t = old @ new \<and> list_all2 loan_moved (loans s) old)"

lemma loan_moved_refl [simp]: "loan_moved a a"
  by (simp add: loan_moved_def)

lemma loan_moved_trans: "loan_moved a b \<Longrightarrow> loan_moved b c \<Longrightarrow> loan_moved a c"
  unfolding loan_moved_def using moved_trans by metis

lemma all_moved_refl: "list_all2 loan_moved ls ls"
  by (simp add: list.rel_refl)

lemma evolves_trans: "evolves s t \<Longrightarrow> evolves t u \<Longrightarrow> evolves s u"
proof -
  assume "evolves s t" "evolves t u"
  then obtain old new old' new' where e: "loans t = old @ new" "list_all2 loan_moved (loans s) old"
      "loans u = old' @ new'" "list_all2 loan_moved (old @ new) old'"
      "item_pid u = item_pid s" "item_library u = item_library s"
    unfolding evolves_def by auto
  from e(4) obtain a b where "old' = a @ b" "list_all2 loan_moved old a"
    by (auto simp: list_all2_append1)
  with e show ?thesis
    unfolding evolves_def
    by (metis append.assoc list_all2_trans [of loan_moved loan_moved loan_moved] loan_moved_trans)
qed

interpretation evolution: guarantee evolves
proof
  show "evolves s s" for s
    unfolding evolves_def using all_moved_refl by (metis append_Nil2)
qed (rule evolves_trans)

definition active :: "loan \<Rightarrow> bool" where
  "active l = in_states ACTIVE l"

definition active_count :: "loan list \<Rightarrow> nat" where
  "active_count ls = length (filter active ls)"

text \<open>The guarantee of every action but the checkout: it does not make a second loan active.\<close>

definition kept :: "circ \<Rightarrow> circ \<Rightarrow> bool" where
  "kept s t \<longleftrightarrow> evolves s t \<and> active_count (loans t) \<le> max 1 (active_count (loans s))"

interpretation one_loan: guarantee kept
proof
  show "kept s s" for s by (simp add: kept_def evolution.stays)
  show "kept s u" if "kept s t" "kept t u" for s t u
    using that evolution.composes by (fastforce simp: kept_def)
qed

section \<open>What the transition engine promises\<close>

text \<open>The documented behaviour of invenio-circulation: a trigger returns the same loan in a destination
  that the configuration gives for its state and this trigger (or raises); the default active states; the
  active loan of an item is one of its loans in an active state, and there is none only when no loan
  is active; a new pid is new.\<close>

definition engine_contract :: "world \<Rightarrow> bool" where
  "engine_contract w \<longleftrightarrow>
     (\<forall>name p l l'. engine w name p l = Inr l' \<longrightarrow>
        l_pid l' = l_pid l
        \<and> (\<exists>s d. l_state l = Some s \<and> l_state l' = Some d \<and> (d, name) \<in> set (LOAN_TRANSITIONS s)))
     \<and> states_active w = ACTIVE
     \<and> (\<forall>ls. case get_loan_for_item w ls of None \<Rightarrow> \<forall>l \<in> set ls. \<not> active l | Some l \<Rightarrow> l \<in> set ls \<and> active l)
     \<and> (\<forall>ls. new_loan_pid w ls \<notin> l_pid ` set ls)"

lemma engine_result:
  assumes "engine_contract w" and "engine w name p l = Inr l'"
  obtains s d where "l_state l = Some s" "l_state l' = Some d" "(d, name) \<in> set (LOAN_TRANSITIONS s)" "l_pid l' = l_pid l"
  using assms unfolding engine_contract_def by blast

lemma engine_active:
  assumes "engine_contract w" and "get_loan_for_item w ls = Some l"
  shows "l \<in> set ls \<and> active l"
proof -
  have "case get_loan_for_item w ls of None \<Rightarrow> \<forall>l \<in> set ls. \<not> active l | Some l \<Rightarrow> l \<in> set ls \<and> active l"
    using assms(1) by (simp add: engine_contract_def)
  with assms(2) show ?thesis by simp
qed

lemma engine_moves: "engine_contract w \<Longrightarrow> engine w name p l = Inr l' \<Longrightarrow> loan_moved l l'"
  by (erule engine_result) (auto simp: loan_moved_def intro!: moved_step by_trigger)

lemma engine_keeps_inactive:
  assumes "engine_contract w" and "engine w name p l = Inr l'" and "name \<noteq> ''checkout''" and "name \<noteq> ''validate_request''"
  shows "active l' \<longrightarrow> active l"
proof -
  from assms(1,2) obtain s d where sd: "l_state l = Some s" "l_state l' = Some d" "(d, name) \<in> set (LOAN_TRANSITIONS s)"
    by (rule engine_result)
  with assms(3,4) show ?thesis
    by (cases s) (auto simp: active_def in_states_def ACTIVE_def)
qed

definition well_formed :: "circ \<Rightarrow> bool" where
  "well_formed s \<longleftrightarrow> distinct (map l_pid (loans s))"

definition holds :: "loan \<Rightarrow> circ \<Rightarrow> bool" where
  "holds l s \<longleftrightarrow> well_formed s \<and> l \<in> set (loans s)"

section \<open>Storing a loan\<close>

lemma put_loan_pids [simp]: "map l_pid (put_loan l ls) = map l_pid ls"
  by (induction ls) (auto simp: put_loan_def)

lemma put_loan_put_loan: "l_pid a = l_pid b \<Longrightarrow> put_loan a (put_loan b ls) = put_loan a ls"
  by (auto simp: put_loan_def)

lemma same_pid_same_loan: "holds l s \<Longrightarrow> x \<in> set (loans s) \<Longrightarrow> l_pid x = l_pid l \<Longrightarrow> x = l"
  by (auto simp: holds_def well_formed_def distinct_map inj_on_def)

lemma put_loan_moved:
  assumes "holds l s" and "loan_moved l l'"
  shows "list_all2 loan_moved (loans s) (put_loan l' (loans s))"
proof -
  have "loan_moved x (if l_pid x = l_pid l' then l' else x)" if "x \<in> set (loans s)" for x
    using same_pid_same_loan [OF assms(1) that] assms(2) by (auto simp: loan_moved_def)
  then show ?thesis unfolding put_loan_def list_all2_map2 by (intro list.rel_refl_strong) blast
qed

lemma put_loan_in: "l \<in> set ls \<Longrightarrow> l_pid l' = l_pid l \<Longrightarrow> l' \<in> set (put_loan l' ls)"
  unfolding put_loan_def by (induction ls) auto

lemma put_loan_other: "x \<in> set ls \<Longrightarrow> l_pid x \<noteq> l_pid l' \<Longrightarrow> x \<in> set (put_loan l' ls)"
  unfolding put_loan_def by (induction ls) auto

lemma put_loan_holds: "holds l s \<Longrightarrow> l_pid l' = l_pid l \<Longrightarrow> holds l' (s\<lparr>loans := put_loan l' (loans s)\<rparr>)"
  by (auto simp: holds_def well_formed_def intro: put_loan_in)

lemma same_length_evolves:
  "list_all2 loan_moved (loans s) (loans t) \<Longrightarrow> item_pid t = item_pid s \<Longrightarrow> item_library t = item_library s \<Longrightarrow> evolves s t"
  unfolding evolves_def by (metis append_Nil2)

lemma put_loan_evolves: "holds l s \<Longrightarrow> loan_moved l l' \<Longrightarrow> evolves s (s\<lparr>loans := put_loan l' (loans s)\<rparr>)"
  by (rule same_length_evolves) (simp_all add: put_loan_moved)

lemma filter_map_le: "(\<And>x. x \<in> set xs \<Longrightarrow> P (f x) \<Longrightarrow> P x) \<Longrightarrow> length (filter P (map f xs)) \<le> length (filter P xs)"
  by (induction xs) (auto simp: le_SucI)

lemma filter_at_most_one:
  "distinct (map f xs) \<Longrightarrow> (\<And>x. x \<in> set xs \<Longrightarrow> P x \<Longrightarrow> f x = k) \<Longrightarrow> length (filter P xs) \<le> 1"
proof (induction xs)
  case (Cons x xs)
  show ?case
  proof (cases "P x")
    case True
    with Cons.prems(1) Cons.prems(2) have "f x = k" "\<forall>y \<in> set xs. f y \<noteq> f x" by auto
    with Cons.prems(2) have "\<forall>y \<in> set xs. \<not> P y" by (metis list.set_intros(2))
    then show ?thesis by (simp add: filter_False)
  next
    case False
    with Cons show ?thesis by simp
  qed
qed simp

lemma active_count_put:
  assumes "holds l s" and "l_pid l' = l_pid l"
  shows "active l' \<longrightarrow> active l \<Longrightarrow> active_count (put_loan l' (loans s)) \<le> active_count (loans s)"
  unfolding active_count_def put_loan_def
  using same_pid_same_loan [OF assms(1)] assms(2) by (intro filter_map_le) (auto split: if_splits)

lemma active_count_put_only:
  assumes "holds l s" and "l_pid l' = l_pid l" and "\<forall>x \<in> set (loans s). l_pid x \<noteq> l_pid l \<longrightarrow> \<not> active x"
  shows "active_count (put_loan l' (loans s)) \<le> 1"
  unfolding active_count_def
proof (rule filter_at_most_one [where f = l_pid and k = "l_pid l"])
  show "distinct (map l_pid (put_loan l' (loans s)))" using assms(1) by (simp add: holds_def well_formed_def)
  show "l_pid x = l_pid l" if "x \<in> set (put_loan l' (loans s))" "active x" for x
    using that assms(2,3) by (auto simp: put_loan_def split: if_splits)
qed

text \<open>A trigger, for any action: the loan it is given moves along the life cycle.\<close>

lemma trigger_result:
  "trigger w name p l s =
     (case engine w name p l of Inl e \<Rightarrow> (Inl e, s) | Inr l' \<Rightarrow> (Inr l', s\<lparr>loans := put_loan l' (loans s)\<rparr>))"
  by (simp add: trigger_def handler_defs store_loan_def split: sum.splits)

lemma trigger_evolves:
  assumes "engine_contract w"
  shows "spec evolves (holds l) (trigger w name p l) (\<lambda>l' s. holds l' s \<and> l_pid l' = l_pid l)"
proof (cases "engine w name p l")
  case (Inr l')
  have "loan_moved l l'" by (rule engine_moves [OF assms Inr])
  with Inr show ?thesis
    by (simp add: spec_def trigger_result put_loan_evolves put_loan_holds loan_moved_def)
qed (simp add: spec_def trigger_result evolution.stays)

text \<open>A trigger that neither checks out nor validates makes no loan active.\<close>

lemma trigger_kept:
  assumes "engine_contract w" and "name \<noteq> ''checkout''" and "name \<noteq> ''validate_request''"
  shows "spec kept (holds l) (trigger w name p l) (\<lambda>l' s. holds l' s \<and> l_pid l' = l_pid l)"
proof -
  have "active_count (loans (snd (trigger w name p l s))) \<le> active_count (loans s)" if h: "holds l s" for s
  proof (cases "engine w name p l")
    case (Inr l')
    have "l_pid l' = l_pid l" by (rule engine_result [OF assms(1) Inr])
    with active_count_put [OF h this engine_keeps_inactive [OF assms(1) Inr assms(2,3)]] Inr
    show ?thesis by (simp add: trigger_result)
  qed (simp add: trigger_result)
  with trigger_evolves [OF assms(1), of l name p] show ?thesis
    unfolding spec_def kept_def by (metis max.coboundedI2)
qed

section \<open>Actions keep the life cycle\<close>

lemma loans_status_update [simp]: "loans (snd (status_update w b s)) = loans s"
    "item_pid (snd (status_update w b s)) = item_pid s" "item_library (snd (status_update w b s)) = item_library s"
  by (auto simp: status_update_def split: option.splits)

lemma loans_set_status [simp]: "loans (snd (set_status x s)) = loans s"
    "item_pid (snd (set_status x s)) = item_pid s" "item_library (snd (set_status x s)) = item_library s"
  by (auto simp: set_status_def)

lemma same_loans_kept:
  "loans t = loans s \<Longrightarrow> item_pid t = item_pid s \<Longrightarrow> item_library t = item_library s \<Longrightarrow> kept s t"
  unfolding kept_def evolves_def using all_moved_refl by (metis append_Nil2 max.cobounded2)

lemma status_update_kept: "spec kept well_formed (status_update w b) (\<lambda>_. well_formed)"
  by (simp add: spec_def same_loans_kept well_formed_def)

lemma set_status_kept: "spec kept well_formed (set_status x) (\<lambda>_. well_formed)"
  by (simp add: spec_def same_loans_kept well_formed_def)

lemma kept_evolves: "spec kept P m Q \<Longrightarrow> spec evolves P m Q"
  by (erule spec_weaken) (auto simp: kept_def)

lemma loan_by_pid_in: "loan_by_pid pid ls = Some l \<Longrightarrow> l \<in> set ls \<and> Some (l_pid l) = pid"
  by (auto simp: loan_by_pid_def dest: find_Some_in split: if_splits)

lemma create_item_loan_kept:
  assumes "engine_contract w" and "l_state data = None"
  shows "spec kept well_formed (create_item_loan w data) (\<lambda>l s. holds l s \<and> l_state l = Some CREATED)"
  unfolding spec_def
proof (intro allI impI)
  fix s assume "well_formed s"
  define l where "l = (create_loan (\<lambda>_. False) (now w) None True data)\<lparr>l_pid := new_loan_pid w (loans s), l_item := item_pid s\<rparr>"
  have r: "create_item_loan w data s = (Inr l, s\<lparr>loans := loans s @ [l]\<rparr>)"
    by (simp add: create_item_loan_def l_def Let_def)
  have st: "l_state l = Some CREATED" "l_pid l = new_loan_pid w (loans s)"
    by (simp_all add: l_def create_loan_def assms(2) Let_def)
  with assms(1) have "l_pid l \<notin> l_pid ` set (loans s)" by (simp add: engine_contract_def)
  with \<open>well_formed s\<close> have "holds l (s\<lparr>loans := loans s @ [l]\<rparr>)" by (simp add: holds_def well_formed_def)
  moreover have "kept s (s\<lparr>loans := loans s @ [l]\<rparr>)"
    using all_moved_refl [of "loans s"] st(1)
    by (auto simp: kept_def evolves_def active_count_def active_def in_states_def ACTIVE_def)
  ultimately show "kept s (snd (create_item_loan w data s))
      \<and> (\<forall>a. fst (create_item_loan w data s) = Inr a \<longrightarrow>
             holds a (snd (create_item_loan w data s)) \<and> l_state a = Some CREATED)"
    by (simp add: r st)
qed

text \<open>A guarantee that whatever keeps the active loans respects: the rules of the decorators hold for
  it.\<close>

definition fetched :: "loan option \<Rightarrow> circ \<Rightarrow> bool" where
  "fetched lo s \<longleftrightarrow> well_formed s \<and> (\<forall>l. lo = Some l \<longrightarrow> holds l s)"

lemma fetched_None [simp]: "fetched None = well_formed"
  by (simp add: fetched_def fun_eq_iff)

lemma fetched_Some [simp]: "fetched (Some l) = holds l"
  by (auto simp: fetched_def holds_def fun_eq_iff)

locale item_guarantee = guarantee +
  assumes weaker: "kept s t \<Longrightarrow> G s t"
begin

lemma of_kept: "spec kept P m Q \<Longrightarrow> spec G P m Q"
  by (erule spec_weaken) (auto intro: weaker)

lemma complete:
  assumes "engine_contract w"
  shows "spec G (fetched cl) (complete_action_missing_params w cl p) (\<lambda>(l, p'). holds l)"
proof -
  have created: "spec G well_formed
      (create_item_loan w (blank_loan\<lparr>l_patron := x, transaction_date := y\<rparr>)) (\<lambda>l s. holds l s \<and> l_state l = Some CREATED)" for x y
    by (rule of_kept, rule create_item_loan_kept [OF assms]) (simp add: blank_loan_def)
  have found: "spec G well_formed (read (\<lambda>s. loan_by_pid (p_pid p) (loans s))) fetched"
    by (rule read) (auto simp: fetched_def holds_def dest: loan_by_pid_in)
  show ?thesis
    unfolding complete_action_missing_params_def
  proof (rule andthen [where R = "\<lambda>(l, p') s. holds l s"], goal_cases first then_)
    case first
    show ?case
    proof (cases cl)
      case None
      show ?thesis
        unfolding None fetched_None option.case
        by (intro found splits andthen [OF found] andthen [where R = fetched] return throw)
          (auto simp: holds_def intro!: andthen [OF created] return)
    next
      case (Some l)
      then show ?thesis by (auto intro: return)
    qed
  next
    case (then_ r)
    show ?case
      by (intro splits andthen [where R = "\<lambda>_. holds (fst r)"] lift return) auto
  qed
qed

lemma decorated_with:
  assumes "spec G well_formed (prior p) (\<lambda>(cl, p'). B cl p')"
    and "\<And>cl p'. spec G (B cl p') (complete_action_missing_params w cl p') (\<lambda>(l, p''). R l)"
    and "\<And>l p''. spec G (R l) (action l p'') (\<lambda>_. well_formed)"
  shows "spec G well_formed (add_action_parameters_and_flush_indexes w name prior action p) (\<lambda>_. well_formed)"
  unfolding add_action_parameters_and_flush_indexes_def
  apply (rule andthen [OF assms(1)])
  apply (clarsimp split: prod.splits)
  apply (rule andthen [OF assms(2)])
  apply (clarsimp split: prod.splits)
  apply (rule andthen [where R = "\<lambda>_. R _"], rule lift, assumption)
  apply (rule andthen [OF assms(3)])
  apply (rule andthen [OF of_kept [OF status_update_kept [where b = True], folded change_status_commit_and_reindex_def]])
  apply (rule return, assumption)
  done

lemma decorated:
  assumes "engine_contract w"
    and "spec G well_formed (prior p) (\<lambda>(cl, p'). fetched cl)"
    and "\<And>l p. spec G (holds l) (action l p) (\<lambda>_. well_formed)"
  shows "spec G well_formed (add_action_parameters_and_flush_indexes w name prior action p) (\<lambda>_. well_formed)"
  by (rule decorated_with [where B = "\<lambda>cl p'. fetched cl" and R = holds]) (rule assms complete)+

lemma allowed:
  assumes "\<And>p. spec G P (action p) Q"
  shows "spec G P (check_operation_allowed w name action p) Q"
  unfolding check_operation_allowed_def Let_def
  using assms by (auto intro!: andthen [where R = "\<lambda>_. P"] compute)

end

interpretation any_action: item_guarantee evolves
  by unfold_locales (simp add: kept_def)

interpretation calm_action: item_guarantee kept
  by unfold_locales

section \<open>The actions, one by one\<close>

lemma triggered_kept:
  assumes "engine_contract w" and "name \<noteq> ''checkout''" and "name \<noteq> ''validate_request''"
  shows "spec kept (holds l) (triggered w name act l p) (\<lambda>_. well_formed)"
  unfolding triggered_def
  by (rule one_loan.andthen [OF trigger_kept [OF assms]], rule one_loan.return) (simp add: holds_def)

lemma no_prior_kept: "spec kept well_formed (no_prior p) (\<lambda>(cl, p'). fetched cl)"
  unfolding no_prior_def by (rule one_loan.return) simp

lemma cancel_loan_kept: "engine_contract w \<Longrightarrow> spec kept well_formed (cancel_loan w p) (\<lambda>_. well_formed)"
  unfolding cancel_loan_def by (intro calm_action.decorated no_prior_kept triggered_kept) auto

lemma receive_kept: "engine_contract w \<Longrightarrow> spec kept well_formed (receive w p) (\<lambda>_. well_formed)"
  unfolding receive_def by (intro calm_action.decorated no_prior_kept triggered_kept) auto

lemma request_kept: "engine_contract w \<Longrightarrow> spec kept well_formed (request w p) (\<lambda>_. well_formed)"
  unfolding request_def by (intro calm_action.allowed calm_action.decorated no_prior_kept triggered_kept) auto

lemma get_first_in: "get_first_loan_by_state st ls = Some l \<Longrightarrow> l \<in> set ls \<and> l_state l = Some st"
  by (auto simp: get_first_loan_by_state_def get_item_loans_by_state_def filter_eq_Cons_iff split: list.splits)

lemma extend_loan_kept:
  assumes "engine_contract w"
  shows "spec kept well_formed (extend_loan w p) (\<lambda>_. well_formed)"
  unfolding extend_loan_def
proof (rule calm_action.decorated [OF assms])
  show "spec kept well_formed (\<lambda>s. (prior_extend_loan_actions w p s, s)) (\<lambda>(cl, p'). fetched cl)"
    by (auto simp: spec_def one_loan.stays prior_extend_loan_actions_def Let_def and_then_eq_Inr fetched_def holds_def
        split: if_splits dest: loan_by_pid_in get_first_in)
  show "spec kept (holds l) (check_operation_allowed w ''extend'' (triggered w ''extend'' EXTEND l) q) (\<lambda>_. well_formed)" for l q
    by (intro calm_action.allowed triggered_kept assms) auto
qed

text \<open>A validation: the other loans of the item are idle, so the one that becomes active is alone.\<close>

definition idle_except :: "string \<Rightarrow> circ \<Rightarrow> bool" where
  "idle_except pid s \<longleftrightarrow> (\<forall>x \<in> set (loans s). l_pid x \<noteq> pid \<longrightarrow> \<not> active x)"

lemma prior_validate_idle:
  assumes "engine_contract w"
  shows "spec kept well_formed (prior_validate_actions w p)
    (\<lambda>(cl, p') s. cl = None \<and> p' = p \<and> given (p_pid p) \<and> well_formed s \<and> idle_except (the (p_pid p)) s)"
proof -
  have "states_active w = ACTIVE" using assms by (simp add: engine_contract_def)
  then show ?thesis
    by (auto simp: spec_def prior_validate_actions_def return_def throw_def one_loan.stays idle_except_def active_def
        in_states_def ACTIVE_def get_loans_states_by_item_pid_exclude_loan_pid_def image_iff
        split: option.splits sum.splits)
qed

lemma complete_idle:
  assumes "engine_contract w" and pid: "given (p_pid p)"
  shows "spec kept (\<lambda>s. well_formed s \<and> idle_except (the (p_pid p)) s) (complete_action_missing_params w None p)
    (\<lambda>(l, p') s. holds l s \<and> (idle_except (l_pid l) s \<or> l_state l = Some CREATED))"
proof -
  let ?Q = "\<lambda>l s. holds l s \<and> (idle_except (l_pid l) s \<or> l_state l = Some CREATED)"
  have created: "spec kept (\<lambda>s. well_formed s \<and> idle_except (the (p_pid p)) s)
      (create_item_loan w (blank_loan\<lparr>l_patron := x, transaction_date := y\<rparr>)) ?Q" for x y
    by (rule spec_weaken [OF create_item_loan_kept [OF assms(1)]]) (auto simp: blank_loan_def)
  have found: "spec kept (\<lambda>s. well_formed s \<and> idle_except (the (p_pid p)) s)
      (read (\<lambda>s. loan_by_pid (p_pid p) (loans s)))
      (\<lambda>lo s. case lo of None \<Rightarrow> well_formed s \<and> idle_except (the (p_pid p)) s | Some l \<Rightarrow> ?Q l s)"
    by (rule one_loan.read) (auto simp: holds_def dest!: loan_by_pid_in split: option.splits, metis option.sel)
  show ?thesis
    unfolding complete_action_missing_params_def option.case
  proof (rule one_loan.andthen [where R = "\<lambda>(l, p') s. ?Q l s"], goal_cases first then_)
    case first
    show ?case
      by (intro found one_loan.splits one_loan.andthen [OF found]
          one_loan.andthen [where R = "\<lambda>lo s. case lo of None \<Rightarrow> True | Some l \<Rightarrow> ?Q l s"] one_loan.return one_loan.throw)
        (auto intro!: one_loan.andthen [OF created] one_loan.return)
  next
    case (then_ r)
    show ?case
      by (intro one_loan.splits one_loan.andthen [where R = "\<lambda>_. ?Q (fst r)"] one_loan.lift one_loan.return) auto
  qed
qed

lemma trigger_validate_kept:
  assumes "engine_contract w"
  shows "spec kept (\<lambda>s. holds l s \<and> (idle_except (l_pid l) s \<or> l_state l = Some CREATED))
    (trigger w ''validate_request'' p l) (\<lambda>_. well_formed)"
proof (cases "engine w ''validate_request'' p l")
  case (Inl e)
  then show ?thesis by (simp add: spec_def trigger_result one_loan.stays holds_def)
next
  case (Inr l')
  then have m: "loan_moved l l'" "l_pid l' = l_pid l" "l_state l \<noteq> Some CREATED"
    using engine_moves [OF assms Inr] by (auto elim!: engine_result [OF assms])
  have "kept s (s\<lparr>loans := put_loan l' (loans s)\<rparr>)" if "holds l s" "idle_except (l_pid l) s" for s
    using put_loan_evolves [OF that(1) m(1)] active_count_put_only [OF that(1) m(2)] that(2)
    by (auto simp: kept_def idle_except_def)
  with Inr m put_loan_holds show ?thesis by (fastforce simp: spec_def trigger_result holds_def)
qed

lemma validate_request_kept:
  assumes "engine_contract w"
  shows "spec kept well_formed (validate_request w p) (\<lambda>_. well_formed)"
  unfolding validate_request_def
proof (rule calm_action.decorated_with)
  show "spec kept well_formed (prior_validate_actions w p)
     (\<lambda>(cl, p') s. cl = None \<and> given (p_pid p') \<and> well_formed s \<and> idle_except (the (p_pid p')) s)"
    by (rule spec_weaken [OF prior_validate_idle [OF assms]]) auto
  show "spec kept (\<lambda>s. cl = None \<and> given (p_pid q) \<and> well_formed s \<and> idle_except (the (p_pid q)) s)
      (complete_action_missing_params w cl q)
      (\<lambda>(l, p'') s. holds l s \<and> (idle_except (l_pid l) s \<or> l_state l = Some CREATED))" for cl q
    using complete_idle [OF assms, of q]
    by (cases "cl = None \<and> given (p_pid q)") (auto simp: spec_def)
  show "spec kept (\<lambda>s. holds l s \<and> (idle_except (l_pid l) s \<or> l_state l = Some CREATED))
      (triggered w ''validate_request'' VALIDATE l q) (\<lambda>_. well_formed)" for l q
    unfolding triggered_def
    by (rule one_loan.andthen [OF trigger_validate_kept [OF assms]], rule one_loan.return)
qed

section \<open>Check-in\<close>

lemma compare_libraries_kept: "spec kept P (compare_libraries w p) (\<lambda>_. P)"
  unfolding compare_libraries_def by (rule one_loan.compute)

lemma pickup_of_kept: "spec kept P (pickup_of l) (\<lambda>_. P)"
  unfolding pickup_of_def by (intro one_loan.splits one_loan.throw one_loan.return)

lemma first_loan_kept: "spec kept well_formed (first_loan e st) (\<lambda>l s. holds l s \<and> l_state l = Some st)"
  by (auto simp: spec_def first_loan_def one_loan.stays holds_def dest: get_first_in split: option.splits)

lemma store_loan_kept:
  assumes "loan_moved l l'" and "active l' \<longrightarrow> active l"
  shows "spec kept (holds l) (store_loan l') (\<lambda>_. well_formed)"
proof -
  have p: "l_pid l' = l_pid l" using assms(1) by (simp add: loan_moved_def)
  have "active_count (put_loan l' (loans s)) \<le> active_count (loans s)" if "holds l s" for s
    using active_count_put [OF that p] assms(2) by simp
  then show ?thesis
    using put_loan_evolves [OF _ assms(1)] put_loan_holds [OF _ p]
    by (fastforce simp: spec_def store_loan_def kept_def holds_def)
qed

lemma read_kept: "spec kept P (read f) (\<lambda>_. P)"
  by (rule one_loan.read)

lemma lift_kept: "spec kept P (lift_result r) (\<lambda>_. P)"
  by (rule one_loan.lift)

lemma holds_well_formed: "holds l s \<Longrightarrow> well_formed s"
  by (simp add: holds_def)

lemma checkin_item_on_shelf_kept: "spec kept well_formed (checkin_item_on_shelf w p) Q"
  unfolding checkin_item_on_shelf_def
  by (intro one_loan.andthen [OF compare_libraries_kept] one_loan.andthen [OF lift_kept] one_loan.splits
      one_loan.andthen [OF read_kept] one_loan.andthen [OF status_update_kept] one_loan.andthen [OF set_status_kept]
      one_loan.throw)

lemma forward_kept:
  "l_state l = Some ITEM_AT_DESK \<Longrightarrow>
     spec kept (holds l) (store_loan (l\<lparr>l_state := Some ITEM_IN_TRANSIT_FOR_PICKUP\<rparr>)) (\<lambda>_. well_formed)"
  by (rule store_loan_kept)
    (auto simp: loan_moved_def active_def in_states_def ACTIVE_def intro: moved_step loan_step.intros)

lemma checkin_item_at_desk_kept: "spec kept well_formed (checkin_item_at_desk w p) Q"
  unfolding checkin_item_at_desk_def
proof (rule one_loan.andthen [OF first_loan_kept])
  fix l
  show "spec kept (\<lambda>s. holds l s \<and> l_state l = Some ITEM_AT_DESK)
     (andthen (pickup_of l) (\<lambda>pickup.
      andthen (compare_libraries w (p\<lparr>p_pickup_loc := Some pickup\<rparr>)) (\<lambda>libs.
        if transaction_pickup_libraries libs then no_action ''item at desk''
        else andthen (store_loan (l\<lparr>l_state := Some ITEM_IN_TRANSIT_FOR_PICKUP\<rparr>)) (\<lambda>_.
             andthen (set_status IN_TRANSIT) (\<lambda>_.
             andthen (status_update w False) (\<lambda>_. no_action ''in transit added'')))))) Q"
  proof (cases "l_state l = Some ITEM_AT_DESK")
    case True
    show ?thesis
      by (rule spec_pre [where P = "holds l"])
        (intro one_loan.andthen [OF pickup_of_kept] one_loan.andthen [OF compare_libraries_kept] one_loan.splits
          one_loan.throw one_loan.andthen [OF forward_kept [OF True]] one_loan.andthen [OF set_status_kept]
          one_loan.andthen [OF status_update_kept], simp)
  qed (intro one_loan.no_pre, simp)
qed

text \<open>What a check-in starts with: the loan it found is one of the item.\<close>

lemma checkin_item_in_transit_for_pickup_kept:
  "spec kept well_formed (checkin_item_in_transit_for_pickup w p) (\<lambda>(cl, p'). fetched cl)"
  unfolding checkin_item_in_transit_for_pickup_def Let_def
  by (intro one_loan.andthen [OF first_loan_kept] one_loan.andthen [OF pickup_of_kept]
      one_loan.andthen [OF compare_libraries_kept] one_loan.splits one_loan.return one_loan.throw) simp

lemma checkin_with_requests_kept:
  "spec kept (holds l) (checkin_item_in_transit_to_house_with_requests w l p) (\<lambda>(cl, p'). fetched cl)"
  unfolding checkin_item_in_transit_to_house_with_requests_def Let_def
  by (intro one_loan.andthen [OF read_kept] one_loan.andthen [OF pickup_of_kept]
      one_loan.andthen [OF compare_libraries_kept] one_loan.splits one_loan.return one_loan.throw) simp_all

lemma checkin_item_in_transit_to_house_kept:
  "spec kept well_formed (checkin_item_in_transit_to_house w states p) (\<lambda>(cl, p'). fetched cl)"
  unfolding checkin_item_in_transit_to_house_def
  by (intro one_loan.andthen [OF compare_libraries_kept] one_loan.andthen [OF first_loan_kept] one_loan.splits
      one_loan.andthen [OF lift_kept] one_loan.throw one_loan.return spec_pre [OF checkin_with_requests_kept]) simp_all

lemma read_first_kept:
  "spec kept well_formed (read (\<lambda>s. get_first_loan_by_state st (loans s))) fetched"
  by (rule one_loan.read) (auto simp: fetched_def holds_def dest: get_first_in)

lemma validate_item_first_pending_request_kept:
  "spec kept well_formed (validate_item_first_pending_request p) (\<lambda>(cl, p'). fetched cl)"
  unfolding validate_item_first_pending_request_def
  by (intro one_loan.andthen [OF read_first_kept] one_loan.splits one_loan.return) (auto simp: fetched_def)

lemma prior_checkin_kept: "spec kept well_formed (prior_checkin_actions w p) (\<lambda>(cl, p'). fetched cl)"
  unfolding prior_checkin_actions_def
  by (intro one_loan.andthen [OF read_kept] one_loan.splits checkin_item_on_shelf_kept checkin_item_at_desk_kept
      checkin_item_in_transit_for_pickup_kept checkin_item_in_transit_to_house_kept
      validate_item_first_pending_request_kept one_loan.andthen [OF read_first_kept] one_loan.return) auto

lemma first_request_kept: "spec kept well_formed first_request (\<lambda>_. well_formed)"
  by (auto simp: spec_def first_request_def one_loan.stays split: list.splits)

lemma validate_next_kept:
  assumes "engine_contract w"
  shows "spec kept well_formed (validate_next w ended req acts) (\<lambda>_. well_formed)"
  unfolding validate_next_def Let_def
  by (intro one_loan.andthen [OF validate_request_kept [OF assms]] one_loan.splits one_loan.throw
      one_loan.andthen [OF lift_kept] one_loan.andthen [OF receive_kept [OF assms]] one_loan.return)

lemma cancel_first_kept:
  assumes "engine_contract w"
  shows "spec kept well_formed
    (if c then andthen (cancel_loan w p) (\<lambda>r. return (merge acts r)) else return acts) (\<lambda>_. well_formed)"
  by (intro one_loan.splits one_loan.andthen [OF cancel_loan_kept [OF assms]] one_loan.return)

lemmas request_rules =
  one_loan.andthen [OF read_kept] one_loan.andthen [OF first_request_kept] one_loan.splits one_loan.return one_loan.throw

lemma actions_after_a_checkin_kept:
  assumes "engine_contract w"
  shows "spec kept well_formed (actions_after_a_checkin w l acts p) (\<lambda>_. well_formed)"
  unfolding actions_after_a_checkin_def
  by (intro one_loan.andthen [OF cancel_first_kept [OF assms]] request_rules validate_next_kept assms)

lemma checkin_body_kept:
  assumes "engine_contract w"
  shows "spec kept (holds l) (checkin_body w l p) (\<lambda>_. well_formed)"
proof -
  have receives: "spec kept well_formed (checkin_triggers_receive_and_validate_requests w q) (\<lambda>_. well_formed)" for q
    unfolding checkin_triggers_receive_and_validate_requests_def
    by (intro one_loan.andthen [OF receive_kept [OF assms]] one_loan.andthen [OF cancel_first_kept [OF assms]]
        request_rules validate_next_kept assms)
  have cancels: "spec kept well_formed (checkin_triggers_cancel_and_receive_first_loan w l q) (\<lambda>_. well_formed)" for q
    unfolding checkin_triggers_cancel_and_receive_first_loan_def
    by (intro one_loan.andthen [OF cancel_loan_kept [OF assms]] request_rules validate_next_kept assms)
  have standard: "spec kept (holds l) (andthen (trigger w ''checkin'' q l) (\<lambda>l'. actions_after_a_checkin w l' [(CHECKIN, l')] q))
      (\<lambda>_. well_formed)" for q
    by (rule one_loan.andthen [OF trigger_kept [OF assms]], simp, simp,
        rule spec_pre [OF actions_after_a_checkin_kept [OF assms]], simp add: holds_def)
  show ?thesis
    unfolding checkin_body_def
    by (intro one_loan.splits standard spec_pre [OF validate_request_kept [OF assms] holds_well_formed]
        spec_pre [OF receive_kept [OF assms] holds_well_formed] spec_pre [OF receives holds_well_formed]
        spec_pre [OF cancels holds_well_formed])
qed

lemma checkin_kept: "engine_contract w \<Longrightarrow> spec kept well_formed (checkin w p) (\<lambda>_. well_formed)"
  unfolding checkin_def by (intro calm_action.decorated prior_checkin_kept checkin_body_kept)

section \<open>Checkout\<close>

lemma prior_checkout_kept:
  assumes "engine_contract w"
  shows "spec kept well_formed (prior_checkout_actions w p) (\<lambda>_. well_formed)"
  unfolding prior_checkout_actions_def required_def
  by (intro one_loan.andthen [where R = "\<lambda>_. well_formed"] one_loan.splits
      one_loan.andthen [OF receive_kept [OF assms]] one_loan.andthen [OF cancel_loan_kept [OF assms]]
      read_kept one_loan.return one_loan.throw cancel_loan_kept receive_kept assms)

lemma found_loan_kept: "spec kept well_formed (read (\<lambda>s. loan_by_pid pid (loans s))) fetched"
  by (rule one_loan.read) (auto simp: fetched_def holds_def dest: loan_by_pid_in)

lemma checkout_body_evolves:
  assumes "engine_contract w"
  shows "spec evolves (holds l) (checkout_body w l p) (\<lambda>_. well_formed)"
proof -
  have created: "spec evolves well_formed (create_item_loan w (data_of_params q\<lparr>transaction_date := y\<rparr>)) holds" for q y
    by (rule kept_evolves [OF spec_weaken [OF create_item_loan_kept [OF assms]]])
      (auto simp: data_of_params_def blank_loan_def)
  have end_date: "spec evolves (holds k)
      (case d of None \<Rightarrow> return q | Some e \<Rightarrow> andthen (lift_result (r e)) (\<lambda>e'. return (q\<lparr>p_end_date := Some e'\<rparr>)))
      (\<lambda>_. holds k)" for k q r and d :: "stamp option"
    by (intro evolution.splits evolution.return evolution.andthen [where R = "\<lambda>_. holds k"] evolution.lift)
  show ?thesis
    unfolding checkout_body_def
    apply (rule spec_pre [where P = well_formed and P' = "holds l", OF _ holds_well_formed [where l = l]])
     prefer 2 apply assumption
    apply (rule evolution.andthen [OF kept_evolves [OF prior_checkout_kept [OF assms]]])
    apply (rule evolution.split_pair)
    apply (rule evolution.andthen [OF kept_evolves [OF found_loan_kept]])
    apply (rule evolution.andthen [where R = holds])
     apply (rule evolution.split_option)
      apply (simp add: created)
     apply (simp add: evolution.return)
    apply (rule evolution.andthen [OF end_date])
    apply (rule evolution.andthen [OF trigger_evolves [OF assms]])
    apply (rule evolution.return, simp add: holds_def)
    done
qed

lemma prior_checkout_pid_kept: "spec kept well_formed (prior_checkout_pid p) (\<lambda>(cl, p'). fetched cl)"
  unfolding prior_checkout_pid_def
  by (intro one_loan.splits one_loan.andthen [OF read_kept] one_loan.return one_loan.throw) simp_all

lemma checkout_evolves: "engine_contract w \<Longrightarrow> spec evolves well_formed (checkout w p) (\<lambda>_. well_formed)"
  unfolding checkout_def
  by (intro any_action.allowed any_action.decorated kept_evolves [OF prior_checkout_pid_kept] checkout_body_evolves)

section \<open>Cancelling a request\<close>

lemma put_loan_split:
  assumes "holds l s" and "l_pid l' = l_pid l"
  obtains xs ys where "loans s = xs @ l # ys" and "put_loan l' (loans s) = xs @ l' # ys"
proof -
  from assms(1) obtain xs ys where xy: "loans s = xs @ l # ys" by (auto simp: holds_def dest: split_list)
  moreover have "l_pid l \<notin> l_pid ` (set xs \<union> set ys)"
    using assms(1) xy by (simp add: holds_def well_formed_def image_Un)
  then have "map (\<lambda>x. if l_pid x = l_pid l' then l' else x) zs = zs" if "set zs \<subseteq> set xs \<union> set ys" for zs
    using that assms(2) by (intro map_idI) (metis imageI subsetD)
  then have "put_loan l' (loans s) = xs @ l' # ys"
    using assms(2) xy by (simp add: put_loan_def)
  ultimately show thesis using that by blast
qed

lemma active_count_exchange:
  assumes "holds l s" and "l_pid l' = l_pid l"
  shows "active_count (put_loan l' (loans s)) + (if active l then 1 else 0)
    = active_count (loans s) + (if active l' then 1 else 0)"
proof -
  from put_loan_split [OF assms] obtain xs ys where "loans s = xs @ l # ys" "put_loan l' (loans s) = xs @ l' # ys" .
  then show ?thesis by (simp add: active_count_def)
qed

lemma put_loan_same: "holds l s \<Longrightarrow> put_loan l (loans s) = loans s"
  using put_loan_split [of l s l] by metis

lemma complete_found:
  assumes "loan_by_pid (p_pid p) (loans s) = Some l"
  shows "snd (complete_action_missing_params w None p s) = s
    \<and> (\<forall>a. fst (complete_action_missing_params w None p s) = Inr a \<longrightarrow> fst a = l)"
  using assms
  by (cases "transaction_location_or_library w
        (p\<lparr>p_patron := (if p_patron p = None then Some (l_patron l) else p_patron p),
           p_pid := (if p_pid p = None then Some (l_pid l) else p_pid p)\<rparr>)")
    (simp_all add: complete_action_missing_params_def handler_defs)

lemma found_by_own_pid:
  assumes "holds l s" and "l_pid l \<noteq> []"
  shows "loan_by_pid (Some (l_pid l)) (loans s) = Some l"
proof -
  have "find (\<lambda>x. l_pid x = l_pid l) (loans s) = Some l"
    using assms(1) same_pid_same_loan [OF assms(1)]
    by (cases "find (\<lambda>x. l_pid x = l_pid l) (loans s)") (auto simp: find_None_iff holds_def dest: find_Some_in)
  then show ?thesis using assms(2) by (simp add: loan_by_pid_def given_def)
qed

text \<open>What a cancellation of a loan of the item does to the loans: only this loan changes, and it is
  cancelled when the action succeeds.\<close>

lemma cancel_loan_effect:
  assumes "engine_contract w" and h: "holds l s" and "l_pid l \<noteq> []"
  obtains lc where "loan_moved l lc" and "loans (snd (cancel_loan w (p\<lparr>p_pid := Some (l_pid l)\<rparr>) s)) = put_loan lc (loans s)"
    and "item_pid (snd (cancel_loan w (p\<lparr>p_pid := Some (l_pid l)\<rparr>) s)) = item_pid s"
    and "item_library (snd (cancel_loan w (p\<lparr>p_pid := Some (l_pid l)\<rparr>) s)) = item_library s"
    and "\<forall>acts. fst (cancel_loan w (p\<lparr>p_pid := Some (l_pid l)\<rparr>) s) = Inr acts \<longrightarrow> l_state lc = Some CANCELLED"
proof -
  let ?p = "p\<lparr>p_pid := Some (l_pid l)\<rparr>"
  let ?c = "complete_action_missing_params w None ?p s"
  let ?m = "cancel_loan w ?p s"
  have c: "snd ?c = s" "\<And>a. fst ?c = Inr a \<Longrightarrow> fst a = l"
    using complete_found [of ?p s l w] found_by_own_pid [OF h assms(3)] by simp_all
  have m: "?m = (case fst ?c of
        Inl e \<Rightarrow> (Inl e, s)
      | Inr (l1, p1) \<Rightarrow>
          (case check_required_params ''cancel_loan'' (given_params p1) of
             Inl e \<Rightarrow> (Inl e, s)
           | Inr _ \<Rightarrow>
               (case engine w ''cancel'' p1 l1 of
                  Inl e \<Rightarrow> (Inl e, s)
                | Inr lc \<Rightarrow>
                    (case status_update w True (s\<lparr>loans := put_loan lc (loans s)\<rparr>) of
                       (Inl e, t) \<Rightarrow> (Inl e, t)
                     | (Inr _, t) \<Rightarrow> (Inr [(CANCEL, lc)], t)))))"
    using c(1)
    by (cases ?c)
      (auto simp: cancel_loan_def add_action_parameters_and_flush_indexes_def no_prior_def triggered_def trigger_result
        handler_defs change_status_commit_and_reindex_def split: sum.splits prod.splits)
  show thesis
  proof (cases "\<exists>p1 lc u. fst ?c = Inr (l, p1) \<and> check_required_params ''cancel_loan'' (given_params p1) = Inr u
      \<and> engine w ''cancel'' p1 l = Inr lc")
    case True
    then obtain p1 lc u where t: "fst ?c = Inr (l, p1)"
        "check_required_params ''cancel_loan'' (given_params p1) = Inr u" "engine w ''cancel'' p1 l = Inr lc" by blast
    from t(3) obtain a d where "l_state l = Some a" "l_state lc = Some d" "(d, ''cancel'') \<in> set (LOAN_TRANSITIONS a)"
      by (rule engine_result [OF assms(1)])
    then have "l_state lc = Some CANCELLED" by (cases a) auto
    moreover have "snd ?m = snd (status_update w True (s\<lparr>loans := put_loan lc (loans s)\<rparr>))"
      using t by (simp add: m split: sum.splits prod.splits)
    ultimately show thesis using engine_moves [OF assms(1) t(3)] by (intro that [of lc]) simp_all
  next
    case False
    have "snd ?m = s \<and> (\<exists>e. fst ?m = Inl e)"
    proof (cases "fst ?c")
      case (Inr a)
      with c(2) [of a] False show ?thesis by (cases a) (auto simp: m split: sum.splits)
    qed (simp add: m)
    then show thesis by (intro that [of l]) (auto simp: put_loan_same [OF h])
  qed
qed

text \<open>The states an update of a cancelled request may write, and the states it starts from.\<close>

lemma cancel_decision_update:
  "cancel_decision st states ip = Inr plan \<Longrightarrow> plan_loan_update plan = Some d \<Longrightarrow>
     d = ITEM_IN_TRANSIT_TO_HOUSE \<and> (st = ITEM_IN_TRANSIT_FOR_PICKUP \<or> st = ITEM_AT_DESK) \<and> plan_cancel_loan plan"
  by (auto simp: cancel_decision_def no_plan_def split: if_splits)

lemma cancel_decision_pending:
  "cancel_decision st states ip = Inr plan \<Longrightarrow> plan_validate_first_pending plan \<Longrightarrow>
     st \<in> {ITEM_AT_DESK, ITEM_IN_TRANSIT_FOR_PICKUP, ITEM_IN_TRANSIT_TO_HOUSE} \<and> PENDING \<in> set states
     \<and> \<not> plan_cancel_loan plan \<and> plan_loan_update plan = None"
  by (auto simp: cancel_decision_def no_plan_def split: if_splits)

lemma checks_plan:
  assumes "checks_before_a_cancel_item_request w lo p s = Inr plan"
  obtains l st where "lo = Some l" and "l_state l = Some st"
    and "\<exists>ip. cancel_decision st (get_loans_states_by_item_pid_exclude_loan_pid (l_pid l) (loans s)) ip = Inr plan"
  using assms by (cases lo; cases "l_state (the lo)") (auto simp: checks_before_a_cancel_item_request_def and_then_eq_Inr)

text \<open>A request sent home: the loan is cancelled, for the log of the operation, and then stored again
  as it was read, in its new state.\<close>

definition cancel_and_update :: "world \<Rightarrow> loan \<Rightarrow> loan_state \<Rightarrow> params \<Rightarrow> actions_done handler" where
  "cancel_and_update w l st p =
     andthen (cancel_loan w (p\<lparr>p_pid := Some (l_pid l)\<rparr>)) (\<lambda>acts.
     andthen (store_loan (l\<lparr>l_state := Some st\<rparr>)) (\<lambda>_.
     andthen (status_update w True) (\<lambda>_. return (dict_set UPDATE (l\<lparr>l_state := Some st\<rparr>) acts))))"

lemma cancel_and_update_effect:
  assumes "engine_contract w" and "holds l s" and "l_pid l \<noteq> []"
    and "l_state l = Some a" and "a = ITEM_IN_TRANSIT_FOR_PICKUP \<or> a = ITEM_AT_DESK"
  shows "evolves s (snd (cancel_and_update w l ITEM_IN_TRANSIT_TO_HOUSE p s))
    \<and> active_count (loans (snd (cancel_and_update w l ITEM_IN_TRANSIT_TO_HOUSE p s))) \<le> active_count (loans s)"
proof -
  let ?l = "l\<lparr>l_state := Some ITEM_IN_TRANSIT_TO_HOUSE\<rparr>"
  let ?m = "cancel_loan w (p\<lparr>p_pid := Some (l_pid l)\<rparr>)"
  have moved: "loan_moved l ?l"
    using assms(4,5) by (auto simp: loan_moved_def intro: moved_step loan_step.intros)
  have act: "active l" using assms(4,5) by (auto simp: active_def in_states_def ACTIVE_def)
  from cancel_loan_effect [OF assms(1-3), of p] obtain lc where lc: "loan_moved l lc"
      "loans (snd (?m s)) = put_loan lc (loans s)" "item_pid (snd (?m s)) = item_pid s"
      "item_library (snd (?m s)) = item_library s" .
  have p: "l_pid lc = l_pid l" using lc(1) by (simp add: loan_moved_def)
  show ?thesis
  proof (cases "fst (?m s)")
    case (Inl e)
    then have r: "snd (cancel_and_update w l ITEM_IN_TRANSIT_TO_HOUSE p s) = snd (?m s)"
      by (simp add: cancel_and_update_def snd_andthen)
    have "evolves s (snd (?m s))"
      using put_loan_moved [OF assms(2) lc(1)] lc by (intro same_length_evolves) simp_all
    then show ?thesis using active_count_put [OF assms(2) p] act by (simp add: r lc(2))
  next
    case (Inr acts)
    let ?t = "snd (cancel_and_update w l ITEM_IN_TRANSIT_TO_HOUSE p s)"
    have t: "loans ?t = put_loan ?l (put_loan lc (loans s))" "item_pid ?t = item_pid s" "item_library ?t = item_library s"
      using Inr lc by (auto simp: cancel_and_update_def snd_andthen store_loan_def return_def split: sum.splits)
    have same: "put_loan ?l (put_loan lc (loans s)) = put_loan ?l (loans s)"
      by (rule put_loan_put_loan) (simp add: p)
    have "evolves s ?t"
      using put_loan_moved [OF assms(2) moved] t same by (intro same_length_evolves) simp_all
    then show ?thesis using active_count_put [OF assms(2), of ?l] act t same by simp
  qed
qed

text \<open>The next request takes the item over while it is on its way: it goes in transit, and then the
  loan is cancelled. In between two loans are active.\<close>

definition redirect_and_cancel :: "world \<Rightarrow> loan \<Rightarrow> loan \<Rightarrow> params \<Rightarrow> actions_done handler" where
  "redirect_and_cancel w l pending p =
     andthen (store_loan (pending\<lparr>l_state := Some ITEM_IN_TRANSIT_FOR_PICKUP\<rparr>)) (\<lambda>_.
     andthen (cancel_loan w (p\<lparr>p_pid := Some (l_pid l)\<rparr>)) (\<lambda>c.
     andthen (status_update w True) (\<lambda>_. return (dict_set UPDATE l c))))"

lemma redirect_and_cancel_effect:
  assumes "engine_contract w" and "holds l s" and "l_pid l \<noteq> []" and "active l"
    and "holds k s" and "l_state k = Some PENDING"
  shows "evolves s (snd (redirect_and_cancel w l k p s))
    \<and> (\<forall>acts. fst (redirect_and_cancel w l k p s) = Inr acts \<longrightarrow>
         active_count (loans (snd (redirect_and_cancel w l k p s))) = active_count (loans s))"
proof -
  let ?k = "k\<lparr>l_state := Some ITEM_IN_TRANSIT_FOR_PICKUP\<rparr>"
  let ?s = "s\<lparr>loans := put_loan ?k (loans s)\<rparr>"
  let ?m = "cancel_loan w (p\<lparr>p_pid := Some (l_pid l)\<rparr>)"
  have idle: "\<not> active k" "active ?k"
    using assms(6) by (simp_all add: active_def in_states_def ACTIVE_def)
  with assms(4) have "l \<noteq> k" by auto
  with same_pid_same_loan [OF assms(5), of l] assms(2) have ne: "l_pid l \<noteq> l_pid k" by (auto simp: holds_def)
  have moved: "loan_moved k ?k"
    using assms(6) by (auto simp: loan_moved_def intro: moved_step loan_step.intros)
  have h: "holds l ?s"
    using assms(2) ne by (auto simp: holds_def well_formed_def intro: put_loan_other)
  have up: "active_count (loans ?s) = active_count (loans s) + 1"
    using active_count_exchange [OF assms(5), of ?k] idle by simp
  from cancel_loan_effect [OF assms(1) h assms(3), of p] obtain lc where lc: "loan_moved l lc"
      "loans (snd (?m ?s)) = put_loan lc (loans ?s)" "item_pid (snd (?m ?s)) = item_pid ?s"
      "item_library (snd (?m ?s)) = item_library ?s"
      "\<forall>acts. fst (?m ?s) = Inr acts \<longrightarrow> l_state lc = Some CANCELLED" .
  have down: "active_count (loans (snd (?m ?s))) = active_count (loans s)" if "fst (?m ?s) = Inr acts" for acts
  proof -
    have "\<not> active lc" using that lc(5) by (auto simp: active_def in_states_def ACTIVE_def)
    with active_count_exchange [OF h, of lc] lc(1,2) up assms(4) show ?thesis by (simp add: loan_moved_def)
  qed
  have step1: "evolves s ?s" by (rule put_loan_evolves [OF assms(5) moved])
  have step2: "evolves ?s (snd (?m ?s))"
    using put_loan_moved [OF h lc(1)] lc by (intro same_length_evolves) simp_all
  have ev: "evolves s (snd (?m ?s))" by (rule evolves_trans [OF step1 step2])
  have same: "evolves s (snd (status_update w True (snd (?m ?s))))"
    by (rule evolves_trans [OF ev]) (simp add: same_length_evolves all_moved_refl)
  have run: "store_loan ?k s = (Inr (), ?s)" by (simp add: store_loan_def)
  show ?thesis
  proof (cases "fst (?m ?s)")
    case (Inl e)
    with ev run show ?thesis by (simp add: redirect_and_cancel_def snd_andthen andthen_Inr)
  next
    case (Inr acts)
    with same ev down run show ?thesis
      by (auto simp: redirect_and_cancel_def snd_andthen andthen_Inr return_def split: sum.splits)
  qed
qed

definition cancel_and_validate :: "world \<Rightarrow> loan \<Rightarrow> loan \<Rightarrow> params \<Rightarrow> actions_done handler" where
  "cancel_and_validate w l pending p =
     andthen (cancel_loan w (p\<lparr>p_pid := Some (l_pid l)\<rparr>)) (\<lambda>c.
     andthen (validate_request w
         (p\<lparr>p_pid := Some (l_pid pending), p_trans_loc := pickup_location l, p_trans_lib := None\<rparr>))
       (\<lambda>v. return (merge c v)))"

lemma cancel_and_validate_kept:
  assumes "engine_contract w"
  shows "spec kept well_formed (cancel_and_validate w l k p) (\<lambda>_. well_formed)"
  unfolding cancel_and_validate_def
  by (intro one_loan.andthen [OF cancel_loan_kept [OF assms]] one_loan.andthen [OF validate_request_kept [OF assms]]
      one_loan.return)

text \<open>The handler, by the plan of its checks.\<close>

lemma cancel_item_request_plan:
  assumes "loan_by_pid (Some pid) (loans s) = Some l" and "checks_before_a_cancel_item_request w (Some l) p s = Inr plan"
  shows "plan_loan_update plan = Some st \<Longrightarrow> plan_cancel_loan plan \<Longrightarrow>
      cancel_item_request w pid p s = cancel_and_update w l st p s"
    and "plan_loan_update plan = None \<Longrightarrow> \<not> plan_validate_first_pending plan \<Longrightarrow> plan_cancel_loan plan \<Longrightarrow>
      cancel_item_request w pid p s = cancel_loan w (p\<lparr>p_pid := Some (l_pid l)\<rparr>) s"
    and "plan_loan_update plan = None \<Longrightarrow> \<not> plan_validate_first_pending plan \<Longrightarrow> \<not> plan_cancel_loan plan \<Longrightarrow>
      cancel_item_request w pid p s = (Inr [], s)"
    and "plan_loan_update plan = None \<Longrightarrow> plan_validate_first_pending plan \<Longrightarrow> \<not> plan_cancel_loan plan \<Longrightarrow>
      cancel_item_request w pid p s =
        (case get_first_loan_by_state PENDING (loans s) of
           None \<Rightarrow> (Inl AttributeError, s)
         | Some k \<Rightarrow>
             if l_state l = Some ITEM_AT_DESK \<and> pickup_location l = pickup_location k
             then cancel_and_validate w l k p s else redirect_and_cancel w l k p s)"
  using assms
  by (auto simp: cancel_item_request_def required_def cancel_and_update_def cancel_and_validate_def
      redirect_and_cancel_def first_loan_def handler_defs Let_def split: sum.splits prod.splits option.splits)

lemma cancel_item_request_refused:
  assumes "\<nexists>l plan. loan_by_pid (Some pid) (loans s) = Some l \<and> checks_before_a_cancel_item_request w (Some l) p s = Inr plan"
  shows "snd (cancel_item_request w pid p s) = s" and "\<exists>e. fst (cancel_item_request w pid p s) = Inl e"
proof -
  obtain e where "checks_before_a_cancel_item_request w (loan_by_pid (Some pid) (loans s)) p s = Inl e"
    using assms
    by (cases "loan_by_pid (Some pid) (loans s)";
        cases "checks_before_a_cancel_item_request w (loan_by_pid (Some pid) (loans s)) p s")
      (auto elim: checks_plan)
  then show "snd (cancel_item_request w pid p s) = s" "\<exists>e. fst (cancel_item_request w pid p s) = Inl e"
    by (auto simp: cancel_item_request_def handler_defs)
qed

lemma cancel_item_request_effect:
  assumes "engine_contract w" and "well_formed s"
  shows "evolves s (snd (cancel_item_request w pid p s))
    \<and> (\<forall>acts. fst (cancel_item_request w pid p s) = Inr acts \<longrightarrow>
         active_count (loans (snd (cancel_item_request w pid p s))) \<le> max 1 (active_count (loans s)))"
proof (cases "\<exists>l plan. loan_by_pid (Some pid) (loans s) = Some l \<and> checks_before_a_cancel_item_request w (Some l) p s = Inr plan")
  case False
  then show ?thesis using cancel_item_request_refused [of pid s w p] by (auto simp: evolution.stays)
next
  case True
  then obtain l plan where l: "loan_by_pid (Some pid) (loans s) = Some l"
      and plan: "checks_before_a_cancel_item_request w (Some l) p s = Inr plan" by blast
  have h: "holds l s" "l_pid l \<noteq> []"
    using l loan_by_pid_in [OF l] assms(2) by (auto simp: holds_def loan_by_pid_def given_def split: if_splits)
  from checks_plan [OF plan] obtain a states ip where a: "l_state l = Some a" "cancel_decision a states ip = Inr plan"
    by blast
  note run = cancel_item_request_plan [OF l plan]
  have calm: ?thesis if "spec kept well_formed m (\<lambda>_. well_formed)" "cancel_item_request w pid p s = m s" for m
    using that assms(2) by (auto simp: spec_def kept_def)
  show ?thesis
  proof (cases "plan_loan_update plan")
    case (Some st)
    from cancel_decision_update [OF a(2) Some] have st: "st = ITEM_IN_TRANSIT_TO_HOUSE"
        "a = ITEM_IN_TRANSIT_FOR_PICKUP \<or> a = ITEM_AT_DESK" "plan_cancel_loan plan" by auto
    from run(1) [OF Some st(3)] cancel_and_update_effect [OF assms(1) h a(1) st(2), of p] st(1)
    show ?thesis by auto
  next
    case None
    show ?thesis
    proof (cases "plan_validate_first_pending plan")
      case False
      then show ?thesis
        using run(2,3) [OF None False] calm [OF cancel_loan_kept [OF assms(1)]] evolution.stays
        by (cases "plan_cancel_loan plan") auto
    next
      case True
      from cancel_decision_pending [OF a(2) True] have p: "active l" "\<not> plan_cancel_loan plan"
        using a(1) by (auto simp: active_def in_states_def ACTIVE_def)
      show ?thesis
      proof (cases "get_first_loan_by_state PENDING (loans s)")
        case None': None
        then show ?thesis using run(4) [OF None True p(2)] by (simp add: evolution.stays)
      next
        case (Some k)
        then have k: "holds k s" "l_state k = Some PENDING" using get_first_in [OF Some] assms(2) by (auto simp: holds_def)
        show ?thesis
          using run(4) [OF None True p(2)] Some calm [OF cancel_and_validate_kept [OF assms(1)]]
            redirect_and_cancel_effect [OF assms(1) h p(1) k, of p]
          by (auto split: if_splits)
      qed
    qed
  qed
qed

section \<open>All the handlers\<close>

text \<open>The handlers that keep the active loan of an item alone whatever they return, and all of them.\<close>

definition calm_handlers :: "world \<Rightarrow> params \<Rightarrow> actions_done handler set" where
  "calm_handlers w p =
     {request w p, checkin w p, validate_request w p, receive w p, cancel_loan w p, extend_loan w p}"

definition circulation_handlers :: "world \<Rightarrow> string \<Rightarrow> params \<Rightarrow> actions_done handler set" where
  "circulation_handlers w pid p = {checkout w p, cancel_item_request w pid p} \<union> calm_handlers w p"

lemma in_handlers:
  "checkin w p \<in> calm_handlers w p" "checkin w p \<in> circulation_handlers w pid p"
  "checkin w p \<in> insert (checkout w p) (calm_handlers w p)" "checkout w p \<in> circulation_handlers w pid p"
  by (simp_all add: circulation_handlers_def calm_handlers_def)

lemma calm_handlers_kept:
  assumes "engine_contract w" and "h \<in> calm_handlers w p"
  shows "spec kept well_formed h (\<lambda>_. well_formed)"
  using assms(2) request_kept [OF assms(1)] checkin_kept [OF assms(1)] validate_request_kept [OF assms(1)]
    receive_kept [OF assms(1)] cancel_loan_kept [OF assms(1)] extend_loan_kept [OF assms(1)]
  unfolding calm_handlers_def by blast

lemma circulation_handlers_evolve:
  assumes "engine_contract w" and "well_formed s" and "h \<in> circulation_handlers w pid p"
  shows "evolves s (snd (h s))"
proof -
  consider "h = checkout w p" | "h = cancel_item_request w pid p" | "h \<in> calm_handlers w p"
    using assms(3) by (auto simp: circulation_handlers_def)
  then show ?thesis
  proof cases
    case 1
    with checkout_evolves [OF assms(1), of p] assms(2) show ?thesis by (simp add: spec_def)
  next
    case 2
    with cancel_item_request_effect [OF assms(1,2)] show ?thesis by blast
  next
    case 3
    with kept_evolves [OF calm_handlers_kept [OF assms(1)]] assms(2) show ?thesis unfolding spec_def by blast
  qed
qed

section \<open>The status of the item\<close>

definition status_consistent :: "world \<Rightarrow> circ \<Rightarrow> bool" where
  "status_consistent w s \<longleftrightarrow>
     (case get_loan_for_item w (loans s) of
        Some l \<Rightarrow> (\<exists>st. l_state l = Some st \<and> statuses st = Some (item_status s))
      | None \<Rightarrow> item_status s = ON_SHELF \<or> item_status s = MISSING)"

lemma status_update_consistent:
  "fst (status_update w True s) = Inr u \<Longrightarrow> status_consistent w (snd (status_update w True s))"
  by (auto simp: status_update_def status_consistent_def split: option.splits if_splits)

lemma decorated_consistent:
  assumes "fst (add_action_parameters_and_flush_indexes w name prior action p s) = Inr a"
  shows "status_consistent w (snd (add_action_parameters_and_flush_indexes w name prior action p s))"
proof -
  from assms obtain u t where t: "fst (status_update w True t) = Inr u"
      "snd (add_action_parameters_and_flush_indexes w name prior action p s) = snd (status_update w True t)"
    by (auto simp: add_action_parameters_and_flush_indexes_def andthen_Inr snd_andthen change_status_commit_and_reindex_def
        return_def split: prod.splits sum.splits)
  then show ?thesis using status_update_consistent by metis
qed

lemma decorated_prior_error:
  "prior p s = (Inl e, t) \<Longrightarrow> add_action_parameters_and_flush_indexes w name prior action p s = (Inl e, t)"
  by (simp add: add_action_parameters_and_flush_indexes_def andthen_def)

lemma allowed_Inr:
  "fst (check_operation_allowed w op action p s) = Inr a \<Longrightarrow>
     check_operation_allowed w op action p s = action (p\<lparr>override_blocking := False\<rparr>) s"
  by (auto simp: check_operation_allowed_def Let_def andthen_def lift_result_def split: if_splits sum.splits)

end
