(* ===== verification/ItemProperties.thy ===== *)
theory ItemProperties
  imports ItemLifecycle
begin

text \<open>
  The properties of the circulation of an item, stated on the handlers of \<open>ItemCirculation\<close>, with a
  transition engine on which they are exercised. The engine of the samples follows the table of the
  configuration and keeps its contract.
\<close>

section \<open>An engine that keeps the contract\<close>

definition sample_guard :: "loan_state \<Rightarrow> loan \<Rightarrow> params \<Rightarrow> bool" where
  "sample_guard d l p =
     (case (pickup_location l, p_trans_loc p) of
        (Some a, Some b) \<Rightarrow>
          (case validate_item_pickup_transaction_locations d (take 1 a) (take 1 b) of None \<Rightarrow> True | Some ok \<Rightarrow> ok)
      | _ \<Rightarrow> True)"

definition sample_engine :: "string \<Rightarrow> params \<Rightarrow> loan \<Rightarrow> py_error + loan" where
  "sample_engine name p l =
     (case l_state l of
        None \<Rightarrow> Inl NoValidTransitionAvailableError
      | Some s \<Rightarrow>
          (case find (\<lambda>(d, t). t = name \<and> sample_guard d l p) (LOAN_TRANSITIONS s) of
             None \<Rightarrow> Inl NoValidTransitionAvailableError
           | Some (d, _) \<Rightarrow> Inr (l\<lparr>l_state := Some d, transaction_location := p_trans_loc p\<rparr>)))"

definition sample_world :: world where
  "sample_world =
     \<lparr>engine = sample_engine, get_loan_for_item = find active, states_active = ACTIVE,
      location_library = (\<lambda>loc. Some (take 1 loc)), get_transaction_location_pid = (\<lambda>lib. Inr (lib @ ''1'')),
      new_loan_pid = (\<lambda>ls. replicate (Suc (sum_list (map (\<lambda>l. length (l_pid l)) ls))) (CHR ''n'')),
      calendar_of = (\<lambda>_. sample_week), to_local = (\<lambda>d. d), recurrences = (\<lambda>p n s u. []),
      now = \<lparr>day = 737990, us = 5\<rparr>, operation_checks = (\<lambda>_ _ _. [])\<rparr>"

lemma sample_new_pid:
  "replicate (Suc (sum_list (map (\<lambda>l. length (l_pid l)) ls))) c \<notin> l_pid ` set ls"
proof
  assume "replicate (Suc (sum_list (map (\<lambda>l. length (l_pid l)) ls))) c \<in> l_pid ` set ls"
  then obtain l where l: "l \<in> set ls" "length (l_pid l) = Suc (sum_list (map (\<lambda>l. length (l_pid l)) ls))"
    by (metis imageE length_replicate)
  have "length (l_pid l) \<le> sum_list (map (\<lambda>l. length (l_pid l)) ls)"
    using l(1) by (intro member_le_sum_list) auto
  with l(2) show False by simp
qed

lemma sample_contract: "engine_contract sample_world"
  unfolding engine_contract_def
proof (intro conjI allI impI)
  fix name p l l' assume "engine sample_world name p l = Inr l'"
  then show "l_pid l' = l_pid l"
      "\<exists>s d. l_state l = Some s \<and> l_state l' = Some d \<and> (d, name) \<in> set (LOAN_TRANSITIONS s)"
    by (auto simp: sample_world_def sample_engine_def split: option.splits prod.splits dest!: find_Some_in)
next
  fix ls show "new_loan_pid sample_world ls \<notin> l_pid ` set ls"
    using sample_new_pid by (simp add: sample_world_def)
next
  fix ls show "case get_loan_for_item sample_world ls of None \<Rightarrow> \<forall>l \<in> set ls. \<not> active l | Some l \<Rightarrow> l \<in> set ls \<and> active l"
    by (auto simp: sample_world_def find_None_iff split: option.splits dest: find_Some_in)
qed (simp add: sample_world_def)

definition on_loan_item :: circ where
  "on_loan_item =
     \<lparr>item_pid = ''i1'', item_library = ''a'', item_status = ON_LOAN,
      loans = [sample_loan,
               sample_loan\<lparr>l_pid := ''2'', l_state := Some PENDING, l_patron := ''p2'',
                           pickup_location := Some ''a2''\<rparr>]\<rparr>"

definition desk_params :: params where
  "desk_params = no_params\<lparr>p_trans_loc := Some ''a1'', p_user := Some ''u1''\<rparr>"

lemma sample_well_formed: "well_formed on_loan_item"
  by (simp add: well_formed_def on_loan_item_def sample_loan_def)

section \<open>Life cycle\<close>

text \<open>C10. Every handler of the circulation, whatever it returns or raises, moves the loans of the item
  along their life cycle: no loan disappears or changes its pid, and each goes from its state to one that
  the transitions of the configuration, or the changes the smart actions write, can reach. The item stays in
  its library.\<close>

theorem loans_follow_life_cycle:
  assumes "engine_contract w" and "well_formed s" and "h \<in> circulation_handlers w pid p"
  shows "evolves s (snd (h s))"
  by (rule circulation_handlers_evolve [OF assms])

theorem loans_follow_life_cycle_witness: "evolves on_loan_item (snd (checkin sample_world desk_params on_loan_item))"
  by (rule loans_follow_life_cycle [OF sample_contract sample_well_formed in_handlers(2)])

text \<open>A loan that is returned or cancelled stays as it is: after any handler, the loan with its pid
  is still in the same state.\<close>

theorem concluded_loans_stay:
  assumes "engine_contract w" and "well_formed s" and "l \<in> set (loans s)" and "l_state l = Some st" and "st \<in> set CONCLUDED"
    and "h \<in> circulation_handlers w pid p"
  shows "\<exists>l' \<in> set (loans (snd (h s))). l_pid l' = l_pid l \<and> l_state l' = Some st"
proof -
  from circulation_handlers_evolve [OF assms(1,2,6)]
  obtain old new where o: "loans (snd (h s)) = old @ new" "list_all2 loan_moved (loans s) old"
    unfolding evolves_def by blast
  from assms(3) obtain i where i: "i < length (loans s)" "loans s ! i = l" by (auto simp: in_set_conv_nth)
  with o(2) have m: "loan_moved l (old ! i)" "old ! i \<in> set old"
    by (auto simp: list_all2_conv_all_nth)
  then have "l_state (old ! i) = Some st"
    using assms(4,5) concluded_is_final by (auto simp: loan_moved_def moved_def)
  with m o(1) show ?thesis by (auto simp: loan_moved_def)
qed

definition returned_loan :: loan where
  "returned_loan = sample_loan\<lparr>l_pid := ''9'', l_state := Some ITEM_RETURNED\<rparr>"

theorem concluded_loans_stay_witness:
  "\<exists>l' \<in> set (loans (snd (checkout sample_world desk_params (on_loan_item\<lparr>loans := [returned_loan]\<rparr>)))).
     l_pid l' = ''9'' \<and> l_state l' = Some ITEM_RETURNED"
  using concluded_loans_stay [where w = sample_world and s = "on_loan_item\<lparr>loans := [returned_loan]\<rparr>"
      and l = returned_loan and st = ITEM_RETURNED, OF sample_contract _ _ _ _ in_handlers(4)]
  by (simp add: well_formed_def returned_loan_def CONCLUDED_def)

text \<open>C11. At most one loan of an item is active: if that holds before a request, a check-in, a validation,
  a reception, a cancellation or an extension, it holds after it, also when the handler raises half way.\<close>

theorem at_most_one_active_loan:
  assumes "engine_contract w" and "well_formed s" and "active_count (loans s) \<le> 1" and "h \<in> calm_handlers w p"
  shows "active_count (loans (snd (h s))) \<le> 1"
  using calm_handlers_kept [OF assms(1,4)] assms(2,3) by (auto simp: spec_def kept_def)

theorem at_most_one_active_loan_witness:
  "active_count (loans (snd (checkin sample_world desk_params on_loan_item))) \<le> 1"
  by (rule at_most_one_active_loan [OF sample_contract sample_well_formed _ in_handlers(1)])
    (simp add: on_loan_item_def active_count_def active_def in_states_def ACTIVE_def sample_loan_def)

text \<open>The cancellation of a request leaves at most one active loan when it succeeds, also when it
  hands the item over to the next request on the way.\<close>

theorem cancellation_leaves_one_active_loan:
  assumes "engine_contract w" and "well_formed s" and "active_count (loans s) \<le> 1"
    and "fst (cancel_item_request w pid p s) = Inr acts"
  shows "active_count (loans (snd (cancel_item_request w pid p s))) \<le> 1"
  using cancel_item_request_effect [OF assms(1,2), of pid p] assms(3,4) by auto

definition in_transit_item :: circ where
  "in_transit_item =
     on_loan_item\<lparr>item_status := IN_TRANSIT,
       loans := [sample_loan\<lparr>l_state := Some ITEM_IN_TRANSIT_FOR_PICKUP\<rparr>,
                 sample_loan\<lparr>l_pid := ''2'', l_state := Some PENDING, l_patron := ''p2''\<rparr>]\<rparr>"

lemma in_transit_item_cancelled:
  "fst (cancel_item_request sample_world ''1'' desk_params in_transit_item)
     = Inr [(CANCEL, sample_loan\<lparr>l_state := Some CANCELLED, transaction_location := Some ''a1''\<rparr>),
            (UPDATE, sample_loan\<lparr>l_state := Some ITEM_IN_TRANSIT_FOR_PICKUP\<rparr>)]"
  by code_simp

theorem cancellation_leaves_one_active_loan_witness:
  "active_count (loans (snd (cancel_item_request sample_world ''1'' desk_params in_transit_item))) \<le> 1"
  by (rule cancellation_leaves_one_active_loan [OF sample_contract _ _ in_transit_item_cancelled])
    (simp_all add: well_formed_def in_transit_item_def on_loan_item_def active_count_def active_def in_states_def
      ACTIVE_def sample_loan_def)

text \<open>When the arguments lack the user of the transaction, the cancellation fails after the next request
  was stored in transit: two loans are active.\<close>

lemma failed_cancellation_leaves_two_active_loans:
  "active_count (loans (snd (cancel_item_request sample_world ''1'' (desk_params\<lparr>p_user := None\<rparr>) in_transit_item))) = 2"
  by code_simp

text \<open>C12. When an action of the circulation succeeds, the item has the status of its active loan; without
  one it is on its shelf, or missing.\<close>

theorem status_follows_active_loan:
  assumes "h \<in> insert (checkout w p) (calm_handlers w p)" and "fst (h s) = Inr acts"
  shows "status_consistent w (snd (h s))"
proof -
  have allowed: "status_consistent w (snd (check_operation_allowed w op
      (add_action_parameters_and_flush_indexes w name prior action) p s))"
    if "fst (check_operation_allowed w op (add_action_parameters_and_flush_indexes w name prior action) p s) = Inr acts"
    for op name prior action
    using allowed_Inr [OF that] that decorated_consistent by metis
  have decorated: "status_consistent w (snd (add_action_parameters_and_flush_indexes w name prior action p s))"
    if "fst (add_action_parameters_and_flush_indexes w name prior action p s) = Inr acts" for name prior action
    using that by (rule decorated_consistent)
  show ?thesis
    using assms allowed decorated
    unfolding calm_handlers_def checkout_def request_def checkin_def validate_request_def receive_def cancel_loan_def
      extend_loan_def by blast
qed

lemma sample_checkin_succeeds: "\<exists>acts. fst (checkin sample_world desk_params on_loan_item) = Inr acts"
proof -
  have "(case fst (checkin sample_world desk_params on_loan_item) of Inl _ \<Rightarrow> False | Inr _ \<Rightarrow> True)" by code_simp
  then show ?thesis by (auto split: sum.splits)
qed

theorem status_follows_active_loan_witness:
  "status_consistent sample_world (snd (checkin sample_world desk_params on_loan_item))"
proof -
  from sample_checkin_succeeds obtain acts where "fst (checkin sample_world desk_params on_loan_item) = Inr acts" by blast
  then show ?thesis by (rule status_follows_active_loan [OF in_handlers(3)])
qed

section \<open>Cancelling, checking in, offering actions\<close>

text \<open>The cases in which a cancellation does nothing and says nothing: the loan is created, concluded
  or on loan while the item has other open loans, or it is at the desk or in transit and no other loan
  of the item is pending. A loan that is on loan is refused only when it is the single open loan.\<close>

lemma silent_cancellations:
  "(cancel_decision st states item_pickup = Inr no_plan) =
     (st \<in> {CREATED, ITEM_RETURNED, CANCELLED}
      \<or> states \<noteq> [] \<and> st = ITEM_ON_LOAN
      \<or> states \<noteq> [] \<and> st \<in> {ITEM_AT_DESK, ITEM_IN_TRANSIT_FOR_PICKUP, ITEM_IN_TRANSIT_TO_HOUSE} \<and> PENDING \<notin> set states
      \<or> states \<noteq> [] \<and> st = PENDING \<and> set states \<subseteq> {CREATED, ITEM_RETURNED, CANCELLED})"
proof -
  have others: "(\<forall>x \<in> set states. x \<in> {CREATED, ITEM_RETURNED, CANCELLED}) \<longleftrightarrow>
      (\<forall>x \<in> {ITEM_AT_DESK, ITEM_ON_LOAN, ITEM_IN_TRANSIT_FOR_PICKUP, ITEM_IN_TRANSIT_TO_HOUSE, PENDING}. x \<notin> set states)"
    by (metis (full_types) insert_iff loan_state.exhaust loan_state.distinct empty_iff)
  show ?thesis
    using others by (cases st) (auto simp: cancel_decision_def no_plan_def)
qed

text \<open>A check-in of an item without an open loan is always refused and leaves its loans alone: at its
  own library the item goes back to its shelf, unless it is missing; anywhere else it goes in transit.\<close>

theorem checkin_without_loans:
  assumes "engine_contract w" and "get_loan_states_for_an_item (loans s) = []"
    and "compare_item_pickup_transaction_libraries w (item_library s) p = Inr found"
    and "transaction_location_or_library w p = Inr q"
  shows "checkin w p s =
    (Inl (NoCirculationAction (''No circulation action performed: '' @
       (if \<not> transaction_item_libraries found then ''in transit added''
        else if item_status s = ON_SHELF then ''on shelf''
        else ''item returned at owning library''))),
     s\<lparr>item_status :=
        (if \<not> transaction_item_libraries found then IN_TRANSIT
         else if item_status s = MISSING then MISSING else ON_SHELF)\<rparr>)"
proof -
  have "\<forall>l \<in> set (loans s). \<not> active l"
    using assms(2) by (auto simp: get_loan_states_for_an_item_def filter_empty_conv active_def in_states_def ACTIVE_def
        split: option.splits)
  then have none: "get_loan_for_item w (loans s) = None"
    using engine_active [OF assms(1)] by (cases "get_loan_for_item w (loans s)") auto
  have prior: "prior_checkin_actions w p s = checkin_item_on_shelf w p s"
    using assms(2) by (simp add: prior_checkin_actions_def andthen_def read_def)
  have status: "status_update w True s
      = (Inr (), s\<lparr>item_status := (if item_status s = MISSING then MISSING else ON_SHELF)\<rparr>)"
      "status_update w False (s\<lparr>item_status := IN_TRANSIT\<rparr>) = (Inr (), s\<lparr>item_status := IN_TRANSIT\<rparr>)"
    using none by (simp_all add: status_update_def)
  have "prior_checkin_actions w p s =
    (Inl (NoCirculationAction (''No circulation action performed: '' @
       (if \<not> transaction_item_libraries found then ''in transit added''
        else if item_status s = ON_SHELF then ''on shelf''
        else ''item returned at owning library''))),
     s\<lparr>item_status :=
        (if \<not> transaction_item_libraries found then IN_TRANSIT
         else if item_status s = MISSING then MISSING else ON_SHELF)\<rparr>)"
    unfolding prior using assms(3,4) status
    by (cases "transaction_item_libraries found"; cases "item_status s = ON_SHELF")
      (simp_all add: checkin_item_on_shelf_def compare_libraries_def set_status_def handler_defs)
  then show ?thesis unfolding checkin_def by (rule decorated_prior_error)
qed

theorem checkin_without_loans_witness:
  "snd (checkin sample_world (desk_params\<lparr>p_trans_loc := Some ''b1''\<rparr>)
     (on_loan_item\<lparr>item_status := MISSING, loans := [returned_loan]\<rparr>))
   = on_loan_item\<lparr>item_status := IN_TRANSIT, loans := [returned_loan]\<rparr>"
proof -
  let ?p = "desk_params\<lparr>p_trans_loc := Some ''b1''\<rparr>" and ?s = "on_loan_item\<lparr>item_status := MISSING, loans := [returned_loan]\<rparr>"
  have "get_loan_states_for_an_item (loans ?s) = []" by code_simp
  moreover have "compare_item_pickup_transaction_libraries sample_world (item_library ?s) ?p
      = Inr \<lparr>transaction_item_libraries = False, transaction_pickup_libraries = True, item_pickup_libraries = False\<rparr>"
    by code_simp
  moreover have "transaction_location_or_library sample_world ?p = Inr ?p" by code_simp
  ultimately show ?thesis
    using checkin_without_loans [OF sample_contract, of ?s ?p] by (simp add: on_loan_item_def)
qed

lemma first_refusal_allows: "first_refusal cs = Inr () \<longleftrightarrow> (\<forall>c \<in> set cs. \<exists>rs. c = Inr (True, rs))"
  by (induction cs rule: first_refusal.induct) (auto split: sum.splits prod.splits)

lemma can_loop_allows: "(\<exists>rs. can_loop (b, rs0) cs = Inr (True, rs)) \<longleftrightarrow> b \<and> (\<forall>c \<in> set cs. \<exists>rs. c = Inr (True, rs))"
  by (induction "(b, rs0)" cs arbitrary: b rs0 rule: can_loop.induct) (auto split: sum.splits prod.splits)

text \<open>C13. The decorator and the permission agree: an action whose checks are not overridden runs exactly when
  \<open>Item.can\<close> answers that it may; otherwise it raises and changes nothing.\<close>

theorem action_runs_iff_item_can:
  "if override_blocking p \<or> (\<exists>rs. item_can w operation (p\<lparr>override_blocking := False\<rparr>) s = Inr (True, rs))
   then check_operation_allowed w operation action p s = action (p\<lparr>override_blocking := False\<rparr>) s
   else (\<exists>e. check_operation_allowed w operation action p s = (Inl e, s))"
proof -
  let ?q = "p\<lparr>override_blocking := False\<rparr>"
  let ?cs = "operation_checks w operation ?q s"
  have can: "(\<exists>rs. item_can w operation ?q s = Inr (True, rs)) \<longleftrightarrow> first_refusal ?cs = Inr ()"
    unfolding item_can_def can_loop_allows first_refusal_allows by simp
  show ?thesis
    by (cases "first_refusal ?cs") (auto simp: can check_operation_allowed_def Let_def andthen_def lift_result_def)
qed

lemma request_rank_position:
  "if p \<in> l_patron ` set rs
   then (\<exists>i < length rs. request_rank k p rs = k + i \<and> l_patron (rs ! i) = p \<and> p \<notin> l_patron ` set (take i rs))
   else request_rank k p rs = 0"
proof (induction k p rs rule: request_rank.induct)
  case (2 k p r rs)
  show ?case
  proof (cases "l_patron r = p \<or> p \<notin> l_patron ` set rs")
    case False
    with 2 obtain i where i: "i < length rs" "request_rank (k + 1) p rs = k + 1 + i" "l_patron (rs ! i) = p"
        "p \<notin> l_patron ` set (take i rs)" by auto
    with False show ?thesis by (auto intro!: exI [of _ "Suc i"])
  qed (use 2 in auto)
qed simp

text \<open>The rank of a patron is the position, from 1, of the first request on the item that is theirs, in
  the order of creation; 0 when they have none.\<close>

lemma rank_is_position_of_first_request:
  "if p \<in> l_patron ` set (get_requests ls)
   then (\<exists>i < length (get_requests ls). patron_request_rank (Some p) ls = i + 1
          \<and> l_patron (get_requests ls ! i) = p \<and> p \<notin> l_patron ` set (take i (get_requests ls)))
   else patron_request_rank (Some p) ls = 0"
  using request_rank_position [of p "get_requests ls" 1] by (auto simp: patron_request_rank_def)

lemma actions_loop_in:
  "actions_loop f as = Inr A \<Longrightarrow> a \<in> A \<Longrightarrow> \<exists>b \<in> set as. \<exists>v n. f b = Inr (v, n) \<and> (v \<and> a = b \<or> n = Some a)"
proof (induction f as arbitrary: A rule: actions_loop.induct)
  case (2 f b bs)
  from "2.prems"(1) obtain v n rest where r: "f b = Inr (v, n)" "actions_loop f bs = Inr rest"
      "A = (if v then {b} else {}) \<union> (case n of None \<Rightarrow> {} | Some c \<Rightarrow> {c}) \<union> rest"
    by (auto simp: and_then_eq_Inr)
  with "2.prems"(2) consider "v \<and> a = b \<or> n = Some a" | "a \<in> rest"
    by (auto split: if_splits option.splits)
  then show ?case
  proof cases
    case 2
    with "2.IH" [OF r(1) _ r(2)] show ?thesis by simp
  qed (use r(1) in auto)
qed simp

lemma action_filter_new:
  assumes "action_filter may policy l patron b = Inr (v, Some a)"
  shows "a = ''checkout'' \<and> l_state l = Some ITEM_IN_TRANSIT_FOR_PICKUP"
proof (cases policy)
  case None
  with assms show ?thesis by (auto simp: action_filter_def and_then_eq_Inr split: if_split_asm)
next
  case (Some c)
  define ready where "ready \<longleftrightarrow> can_checkout c \<and> l_state l = Some ITEM_IN_TRANSIT_FOR_PICKUP \<and> Some (l_patron l) = patron"
  from assms have "ready \<and> a = ''checkout''"
    by (simp add: action_filter_def and_then_eq_Inr Some ready_def split: if_split_asm)
  then show ?thesis by (simp add: ready_def)
qed

text \<open>The actions offered on an item: never \<open>cancel\<close>, \<open>request\<close> or \<open>extend\<close>, and each is a trigger of a
  transition from the state of the active loan (from the initial state, without one), where \<open>extend_loan\<close>
  stands for \<open>extend\<close>, or the checkout that replaces the reception of a request by its own patron.\<close>

theorem offered_actions:
  assumes "item_actions w may_extend policy s = Inr as" and "a \<in> as"
  shows "a \<notin> {''cancel'', ''request'', ''extend''} \<and>
    (\<exists>st. st = (case get_loan_for_item w (loans s) of None \<Rightarrow> CREATED | Some l \<Rightarrow> the (l_state l)) \<and>
       (a \<in> snd ` set (LOAN_TRANSITIONS st)
        \<or> a = ''extend_loan'' \<and> ''extend'' \<in> snd ` set (LOAN_TRANSITIONS st)
        \<or> a = ''checkout'' \<and> st = ITEM_IN_TRANSIT_FOR_PICKUP))"
proof -
  from assms(1) obtain as0 where as0: "as = rename_extend (as0 - {''cancel'', ''request''})"
      "(case get_loan_for_item w (loans s) of
          Some l \<Rightarrow>
            (case l_state l of
               None \<Rightarrow> Inl (KeyError ''state'')
             | Some st \<Rightarrow> actions_loop (action_filter may_extend policy l (Some (l_patron l))) (map snd (LOAN_TRANSITIONS st)))
        | None \<Rightarrow> Inr (set (map snd (LOAN_TRANSITIONS CREATED)))) = Inr as0"
    by (auto simp: item_actions_def and_then_eq_Inr)
  let ?st = "case get_loan_for_item w (loans s) of None \<Rightarrow> CREATED | Some l \<Rightarrow> the (l_state l)"
  have in0: "b \<in> snd ` set (LOAN_TRANSITIONS ?st) \<or> b = ''checkout'' \<and> ?st = ITEM_IN_TRANSIT_FOR_PICKUP" if "b \<in> as0" for b
  proof (cases "get_loan_for_item w (loans s)")
    case None
    with as0(2) that show ?thesis by auto
  next
    case (Some l)
    with as0(2) obtain st where st: "l_state l = Some st"
        "actions_loop (action_filter may_extend policy l (Some (l_patron l))) (map snd (LOAN_TRANSITIONS st)) = Inr as0"
      by (auto split: option.splits)
    from actions_loop_in [OF st(2) that] action_filter_new st(1) Some show ?thesis by fastforce
  qed
  have kinds: "a = ''extend_loan'' \<and> ''extend'' \<in> as0 \<or> a \<in> as0 \<and> a \<notin> {''cancel'', ''request'', ''extend''}"
    using assms(2) unfolding as0(1) rename_extend_def
    by (cases "''extend'' \<in> as0 - {''cancel'', ''request''}") auto
  then show ?thesis
  proof
    assume e: "a = ''extend_loan'' \<and> ''extend'' \<in> as0"
    then have "''extend'' \<in> snd ` set (LOAN_TRANSITIONS ?st)" using in0 [of "''extend''"] by simp
    with e show ?thesis by simp
  next
    assume a: "a \<in> as0 \<and> a \<notin> {''cancel'', ''request'', ''extend''}"
    then have "a \<in> snd ` set (LOAN_TRANSITIONS ?st) \<or> a = ''checkout'' \<and> ?st = ITEM_IN_TRANSIT_FOR_PICKUP"
      by (intro in0) (rule conjunct1)
    then show ?thesis
      by (intro conjI [OF conjunct2 [OF a]] exI [of _ ?st] conjI [OF refl]) (elim disjE; simp only: simp_thms)
  qed
qed

theorem offered_actions_witness:
  "item_actions sample_world (Inr granted) (Some sample_cipo) on_loan_item = Inr {''checkin'', ''extend_loan''}
   \<and> ''extend_loan'' \<notin> {''cancel'', ''request'', ''extend''}"
proof -
  have run: "item_actions sample_world (Inr granted) (Some sample_cipo) on_loan_item = Inr {''checkin'', ''extend_loan''}"
    by code_simp
  with offered_actions [OF run, of "''extend_loan''"] show ?thesis by simp
qed

end
