(* ===== verification/Holdings.thy ===== *)
theory Holdings
  imports Patrons
begin

text \<open>
  Holdings and the issues of serials: class \<open>Holding\<close> of \<open>rero_ils/modules/holdings/api.py\<close> (the
  prediction of the next issue, its display text, the previews, the reception of an issue, the
  validation and the availability), the task on late issues of \<open>holdings/utils.py\<close>, and what class
  \<open>ItemRecord\<close> of \<open>items/api/record.py\<close> does with an issue.

  Dates without a time are days, as in \<open>Calendar\<close>. The addition of a \<open>relativedelta\<close> and the Jinja template
  of the display text are third-party code and parameters of the model.
\<close>

section \<open>Frequencies\<close>

record delta =
  d_years :: int
  d_months :: int
  d_days :: int
  d_hours :: int

definition no_delta :: delta where
  "no_delta = \<lparr>d_years = 0, d_months = 0, d_days = 0, d_hours = 0\<rparr>"

text \<open>\<open>relativedelta(weeks=n)\<close> is seven days a week.\<close>

definition frequencies :: "(string, delta) dict" where
  "frequencies =
     [(''rdafr:1001'', no_delta\<lparr>d_days := 1\<rparr>),
      (''rdafr:1002'', no_delta\<lparr>d_days := 2, d_hours := 8\<rparr>),
      (''rdafr:1003'', no_delta\<lparr>d_days := 14\<rparr>),
      (''rdafr:1004'', no_delta\<lparr>d_days := 7\<rparr>),
      (''rdafr:1005'', no_delta\<lparr>d_days := 3, d_hours := 12\<rparr>),
      (''rdafr:1006'', no_delta\<lparr>d_days := 10\<rparr>),
      (''rdafr:1007'', no_delta\<lparr>d_months := 2\<rparr>),
      (''rdafr:1008'', no_delta\<lparr>d_months := 1\<rparr>),
      (''rdafr:1009'', no_delta\<lparr>d_days := 15\<rparr>),
      (''rdafr:1010'', no_delta\<lparr>d_months := 3\<rparr>),
      (''rdafr:1011'', no_delta\<lparr>d_months := 4\<rparr>),
      (''rdafr:1012'', no_delta\<lparr>d_months := 6\<rparr>),
      (''rdafr:1013'', no_delta\<lparr>d_years := 1\<rparr>),
      (''rdafr:1014'', no_delta\<lparr>d_years := 2\<rparr>),
      (''rdafr:1015'', no_delta\<lparr>d_years := 3\<rparr>)]"

section \<open>Patterns\<close>

record level =
  number_name :: "string option"
  list_name :: "string option"
  starting_value :: "int option"
  completion_value :: "int option"
  mapping_values :: "string list"
  next_value :: "int option"

record pattern =
  pattern_name :: string
  levels :: "level list"

record patterns =
  template :: string
  frequency :: "string option"
  next_expected_date :: "int option"
  pattern_values :: "pattern list"

definition start_of :: "level \<Rightarrow> int" where
  "start_of l = (case starting_value l of None \<Rightarrow> 1 | Some v \<Rightarrow> v)"

definition current :: "level \<Rightarrow> int" where
  "current l = (case next_value l of None \<Rightarrow> start_of l | Some v \<Rightarrow> v)"

definition max_value :: "level \<Rightarrow> int option" where
  "max_value l = (if mapping_values l \<noteq> [] then Some (int (length (mapping_values l))) else completion_value l)"

text \<open>The loop over the levels of a pattern, from the last one: a level that is complete starts again and
  passes on, the first that is not goes on by one and ends the loop.\<close>

fun increment_levels :: "level list \<Rightarrow> level list" where
  "increment_levels [] = []"
| "increment_levels (l # ls) =
     (if max_value l = Some (current l)
      then l\<lparr>next_value := Some (start_of l)\<rparr> # increment_levels ls
      else l\<lparr>next_value := Some (current l + 1)\<rparr> # ls)"

definition increment_pattern :: "pattern \<Rightarrow> pattern" where
  "increment_pattern p = p\<lparr>levels := rev (increment_levels (rev (levels p)))\<rparr>"

text \<open>A frequency that is absent or empty leaves the date alone. The new date is written without the
  time of day that the addition of hours may have produced.\<close>

definition increment_date :: "(stamp \<Rightarrow> delta \<Rightarrow> stamp) \<Rightarrow> patterns \<Rightarrow> py_error + int option" where
  "increment_date add_delta ps =
     (case frequency ps of
        None \<Rightarrow> Inr (next_expected_date ps)
      | Some f \<Rightarrow>
          if f = [] then Inr (next_expected_date ps)
          else case next_expected_date ps of
              None \<Rightarrow> Inl TypeError
            | Some d \<Rightarrow>
                (case dict_get frequencies f of
                   None \<Rightarrow> Inl (KeyError f)
                 | Some step \<Rightarrow>
                     let e = add_delta \<lparr>day = d, us = 0\<rparr> step in
                     if in_range e then Inr (Some (day e)) else Inl OverflowError))"

definition increment_next_prediction :: "(stamp \<Rightarrow> delta \<Rightarrow> stamp) \<Rightarrow> patterns \<Rightarrow> py_error + patterns" where
  "increment_next_prediction add_delta ps =
     and_then (increment_date add_delta ps) (\<lambda>d.
       Inr (ps\<lparr>pattern_values := map increment_pattern (pattern_values ps), next_expected_date := d\<rparr>))"

section \<open>Display of an issue\<close>

text \<open>Indexing a Python list: a negative index counts from the end.\<close>

definition py_index :: "'a list \<Rightarrow> int \<Rightarrow> py_error + 'a" where
  "py_index xs i =
     (if 0 \<le> i \<and> i < int (length xs) then Inr (xs ! nat i)
      else if - int (length xs) \<le> i \<and> i < 0 then Inr (xs ! nat (int (length xs) + i))
      else Inl IndexError)"

definition level_text :: "level \<Rightarrow> py_error + string" where
  "level_text l =
     (if mapping_values l \<noteq> [] then py_index (mapping_values l) (current l - 1) else Inr (show_int (current l)))"

definition level_name :: "level \<Rightarrow> string option" where
  "level_name l = (case number_name l of None \<Rightarrow> list_name l | Some n \<Rightarrow> Some n)"

type_synonym level_data = "(string option, string) dict"
type_synonym issue_data = "(string, level_data) dict"

fun level_texts :: "level_data \<Rightarrow> level list \<Rightarrow> py_error + level_data" where
  "level_texts acc [] = Inr acc"
| "level_texts acc (l # ls) = and_then (level_text l) (\<lambda>t. level_texts (dict_set (level_name l) t acc) ls)"

fun pattern_texts :: "issue_data \<Rightarrow> pattern list \<Rightarrow> py_error + issue_data" where
  "pattern_texts acc [] = Inr acc"
| "pattern_texts acc (p # ps) =
     and_then (level_texts [] (levels p)) (\<lambda>d. pattern_texts (dict_set (pattern_name p) d acc) ps)"

definition get_next_issue_display_text ::
  "(string \<Rightarrow> issue_data \<Rightarrow> int \<Rightarrow> string) \<Rightarrow> patterns \<Rightarrow> py_error + string \<times> int" where
  "get_next_issue_display_text render ps =
     and_then (pattern_texts [] (pattern_values ps)) (\<lambda>texts.
       case next_expected_date ps of
         None \<Rightarrow> Inl TypeError
       | Some d \<Rightarrow> Inr (render (template ps) texts d, d))"

text \<open>The preview of a holding works on a deep copy; that of a pattern works on the argument itself, which
  is left at the prediction after the last one shown.\<close>

fun preview_loop ::
  "(stamp \<Rightarrow> delta \<Rightarrow> stamp) \<Rightarrow> (string \<Rightarrow> issue_data \<Rightarrow> int \<Rightarrow> string) \<Rightarrow> nat \<Rightarrow> patterns
     \<Rightarrow> py_error + (string \<times> int) list \<times> patterns" where
  "preview_loop add_delta render 0 ps = Inr ([], ps)"
| "preview_loop add_delta render (Suc n) ps =
     and_then (get_next_issue_display_text render ps) (\<lambda>t.
     and_then (increment_next_prediction add_delta ps) (\<lambda>ps'.
     and_then (preview_loop add_delta render n ps') (\<lambda>(ts, end_ps). Inr (t # ts, end_ps))))"

definition prediction_issues_preview_for_pattern ::
  "(stamp \<Rightarrow> delta \<Rightarrow> stamp) \<Rightarrow> (string \<Rightarrow> issue_data \<Rightarrow> int \<Rightarrow> string) \<Rightarrow> nat \<Rightarrow> patterns
     \<Rightarrow> py_error + (string \<times> int) list \<times> patterns" where
  "prediction_issues_preview_for_pattern add_delta render n ps =
     (if pattern_values ps = [] then Inr ([], ps) else preview_loop add_delta render n ps)"

section \<open>The numbering is a counter\<close>

text \<open>The contract of a counter: its steps count on, modulo the capacity when there is one.\<close>

definition tick :: "nat option \<Rightarrow> nat \<Rightarrow> nat \<Rightarrow> nat" where
  "tick c n v = (case c of None \<Rightarrow> v + n | Some m \<Rightarrow> (v + n) mod m)"

lemma tick_tick: "tick c (Suc 0) (tick c n v) = tick c (Suc n) v"
  by (cases c) (simp_all add: tick_def mod_Suc_eq)

locale counter =
  fixes step :: "'a \<Rightarrow> 'a"
    and number :: "'a \<Rightarrow> nat"
    and capacity :: "'a \<Rightarrow> nat option"
    and ok :: "'a \<Rightarrow> bool"
  assumes ok_step: "ok x \<Longrightarrow> ok (step x)"
    and capacity_step: "ok x \<Longrightarrow> capacity (step x) = capacity x"
    and number_step: "ok x \<Longrightarrow> number (step x) = tick (capacity x) 1 (number x)"
    and below: "ok x \<Longrightarrow> capacity x = Some c \<Longrightarrow> number x < c"
begin

lemma ok_steps: "ok x \<Longrightarrow> ok ((step ^^ n) x)"
  by (induction n) (simp_all add: ok_step)

lemma capacity_steps: "ok x \<Longrightarrow> capacity ((step ^^ n) x) = capacity x"
  by (induction n) (simp_all add: ok_steps capacity_step)

lemma number_steps: "ok x \<Longrightarrow> number ((step ^^ n) x) = tick (capacity x) n (number x)"
proof (induction n)
  case 0
  then show ?case using below [of x] by (simp add: tick_def split: option.splits)
next
  case (Suc n)
  then show ?case by (simp add: number_step ok_steps capacity_steps tick_tick)
qed

lemma full_turn: "ok x \<Longrightarrow> capacity x = Some c \<Longrightarrow> number ((step ^^ c) x) = number x"
  using below [of x c] by (simp add: number_steps tick_def)

end

text \<open>A level is within its bounds when the schema holds (a list starts at 1) and its current value lies
  between the first and the last one.\<close>

definition in_bounds :: "level \<Rightarrow> bool" where
  "in_bounds l \<longleftrightarrow>
     start_of l \<le> current l \<and> (case max_value l of None \<Rightarrow> True | Some m \<Rightarrow> current l \<le> m)
     \<and> (mapping_values l \<noteq> [] \<longrightarrow> 1 \<le> start_of l)"

definition digit :: "level \<Rightarrow> nat" where
  "digit l = nat (current l - start_of l)"

definition base :: "level \<Rightarrow> nat option" where
  "base l = map_option (\<lambda>m. nat (m - start_of l + 1)) (max_value l)"

text \<open>The number that a list of levels shows, the lowest level first: mixed radix, where a level without
  a last value takes all that follows.\<close>

fun levels_number :: "level list \<Rightarrow> nat" where
  "levels_number [] = 0"
| "levels_number (l # ls) =
     (case base l of None \<Rightarrow> digit l | Some b \<Rightarrow> digit l + b * levels_number ls)"

fun levels_capacity :: "level list \<Rightarrow> nat option" where
  "levels_capacity [] = Some 1"
| "levels_capacity (l # ls) =
     (case base l of None \<Rightarrow> None | Some b \<Rightarrow> map_option (\<lambda>c. b * c) (levels_capacity ls))"

definition pattern_number :: "pattern \<Rightarrow> nat" where
  "pattern_number p = levels_number (rev (levels p))"

definition pattern_capacity :: "pattern \<Rightarrow> nat option" where
  "pattern_capacity p = levels_capacity (rev (levels p))"

definition pattern_ok :: "pattern \<Rightarrow> bool" where
  "pattern_ok p \<longleftrightarrow> list_all in_bounds (levels p)"

lemma level_set_next [simp]:
  "start_of (l\<lparr>next_value := Some v\<rparr>) = start_of l"
  "max_value (l\<lparr>next_value := Some v\<rparr>) = max_value l"
  "current (l\<lparr>next_value := Some v\<rparr>) = v"
  "base (l\<lparr>next_value := Some v\<rparr>) = base l"
  by (simp_all add: start_of_def max_value_def current_def base_def)

lemma in_bounds_first: "in_bounds l \<Longrightarrow> in_bounds (l\<lparr>next_value := Some (start_of l)\<rparr>)"
  by (auto simp: in_bounds_def split: option.splits)

lemma in_bounds_next:
  "in_bounds l \<Longrightarrow> max_value l \<noteq> Some (current l) \<Longrightarrow> in_bounds (l\<lparr>next_value := Some (current l + 1)\<rparr>)"
  by (auto simp: in_bounds_def split: option.splits)

lemma increment_levels_in_bounds: "list_all in_bounds ls \<Longrightarrow> list_all in_bounds (increment_levels ls)"
  by (induction ls) (auto simp: in_bounds_first in_bounds_next)

lemma increment_levels_capacity: "levels_capacity (increment_levels ls) = levels_capacity ls"
  by (induction ls) (auto split: option.splits)

lemma digit_below_base: "in_bounds l \<Longrightarrow> base l = Some b \<Longrightarrow> digit l < b"
  by (auto simp: in_bounds_def base_def digit_def split: option.splits)

lemma levels_number_below: "list_all in_bounds ls \<Longrightarrow> levels_capacity ls = Some c \<Longrightarrow> levels_number ls < c"
proof (induction ls arbitrary: c)
  case Nil
  then show ?case by simp
next
  case (Cons l ls)
  then obtain b c' where b: "base l = Some b" and c: "levels_capacity ls = Some c'" "c = b * c'"
    by (auto split: option.splits)
  with Cons have d: "digit l < b" and n: "Suc (levels_number ls) \<le> c'"
    by (auto simp: digit_below_base)
  have "digit l + b * levels_number ls < b * Suc (levels_number ls)" using d by simp
  also have "\<dots> \<le> b * c'" by (rule mult_le_mono2 [OF n])
  finally show ?case using b c by simp
qed

lemma mod_carry: "Suc d = b \<Longrightarrow> 0 < c \<Longrightarrow> b * ((v + 1) mod c) = (d + b * v + 1) mod (b * c)"
  by (metis Suc_eq_plus1 add.commute add_Suc_right mult.commute mult_mod_right mult_Suc_right)

lemma tick_carry:
  "Suc d = b \<Longrightarrow> (\<And>m. c = Some m \<Longrightarrow> 0 < m) \<Longrightarrow>
   b * tick c 1 v = tick (map_option (\<lambda>c. b * c) c) 1 (d + b * v)"
  using mod_carry [of d b] by (cases c) (auto simp: tick_def)

lemma increment_levels_number:
  "list_all in_bounds ls \<Longrightarrow>
   levels_number (increment_levels ls) = tick (levels_capacity ls) 1 (levels_number ls)"
proof (induction ls)
  case Nil
  then show ?case by (simp add: tick_def)
next
  case (Cons l ls)
  show ?case
  proof (cases "max_value l = Some (current l)")
    case True
    define b where "b = nat (current l - start_of l + 1)"
    from Cons.prems have "0 \<le> current l - start_of l" by (simp add: in_bounds_def)
    with True have b: "base l = Some b" "Suc (digit l) = b"
      by (simp_all add: base_def digit_def b_def nat_add_distrib)
    have "0 < m" if "levels_capacity ls = Some m" for m
      using levels_number_below [of ls m] that Cons.prems by simp
    then have "b * tick (levels_capacity ls) 1 (levels_number ls)
        = tick (map_option (\<lambda>c. b * c) (levels_capacity ls)) 1 (digit l + b * levels_number ls)"
      using b(2) by (intro tick_carry) auto
    moreover have "digit (l\<lparr>next_value := Some (start_of l)\<rparr>) = 0" by (simp add: digit_def)
    ultimately show ?thesis using True Cons b(1) by simp
  next
    case False
    from Cons.prems have "start_of l \<le> current l" by (simp add: in_bounds_def)
    then have "digit (l\<lparr>next_value := Some (current l + 1)\<rparr>) = digit l + 1"
      unfolding digit_def level_set_next by arith
    moreover have "digit l + b * levels_number ls + 1 < b * c"
      if "base l = Some b" "levels_capacity ls = Some c" for b c
    proof -
      from False Cons.prems that have "digit l + 1 < b"
        by (auto simp: base_def digit_def in_bounds_def split: option.splits)
      then have "digit l + b * levels_number ls + 1 < b * Suc (levels_number ls)" by simp
      also have "\<dots> \<le> b * c"
        using levels_number_below [of ls c] that Cons.prems by (intro mult_le_mono2) simp
      finally show ?thesis .
    qed
    ultimately show ?thesis using False
      by (auto simp: tick_def split: option.splits)
  qed
qed

interpretation level_counter: counter increment_levels levels_number levels_capacity "list_all in_bounds"
  by unfold_locales
    (auto simp: increment_levels_in_bounds increment_levels_capacity increment_levels_number levels_number_below)

interpretation pattern_counter: counter increment_pattern pattern_number pattern_capacity pattern_ok
  using level_counter.ok_step level_counter.capacity_step level_counter.number_step level_counter.below
  by unfold_locales
    (auto simp: increment_pattern_def pattern_number_def pattern_capacity_def pattern_ok_def)

end
