(* ===== verification/Issues.thy ===== *)
theory Issues
  imports Holdings
begin

text \<open>
  Holdings as records, and the issues of serials as items: class \<open>Holding\<close> of
  \<open>rero_ils/modules/holdings/api.py\<close> (validation, availability, deletion, notes, reception of an
  issue), class \<open>ItemRecord\<close> of \<open>items/api/record.py\<close> (validation, creation and update, the holding an
  item is linked to, temporary locations and types, call numbers), the extensions of
  \<open>items/extensions.py\<close> and the nightly tasks on late issues of \<open>holdings/utils.py\<close> and \<open>items/utils.py\<close>.

  These methods work on the JSON of a record, so that a record is here a dict of \<open>json\<close> values. Dates
  and times, which JSON has as strings, have their own constructors, as has the URL of a \<open>$ref\<close>. The
  schema validation, the search index and the clock are arguments (record \<open>services\<close> and \<open>clocks\<close>).
\<close>

section \<open>JSON\<close>

datatype json =
    JNull
  | JBool bool
  | JNum int
  | JStr string
  | JDate int
  | JStamp stamp
  | JRef string string
  | JArr "json list"
  | JObj "(string \<times> json) list"

type_synonym data = "(string, json) dict"

fun jtrue :: "json \<Rightarrow> bool" where
  "jtrue JNull = False"
| "jtrue (JBool b) = b"
| "jtrue (JNum n) = (n \<noteq> 0)"
| "jtrue (JStr s) = (s \<noteq> [])"
| "jtrue (JDate d) = True"
| "jtrue (JStamp d) = True"
| "jtrue (JRef t p) = True"
| "jtrue (JArr xs) = (xs \<noteq> [])"
| "jtrue (JObj d) = (d \<noteq> [])"

text \<open>\<open>data.get(key)\<close>, and \<open>value.get(key)\<close> on a value that should be an object.\<close>

definition field :: "data \<Rightarrow> string \<Rightarrow> json" where
  "field d k = (case dict_get d k of None \<Rightarrow> JNull | Some v \<Rightarrow> v)"

fun subfield :: "json \<Rightarrow> string \<Rightarrow> py_error + json" where
  "subfield (JObj d) k = Inr (field d k)"
| "subfield _ k = Inl AttributeError"

definition dict_pop :: "string \<Rightarrow> data \<Rightarrow> data" where
  "dict_pop k d = filter (\<lambda>(k', v). k' \<noteq> k) d"

definition dict_update :: "data \<Rightarrow> data \<Rightarrow> data" where
  "dict_update d new = fold (\<lambda>(k, v). dict_set k v) new d"

definition get_ref :: "string \<Rightarrow> string \<Rightarrow> json" where
  "get_ref t p = JObj [(''$ref'', JRef t p)]"

text \<open>\<open>extracted_data_from_ref\<close> for the pid.\<close>

fun ref_pid :: "json \<Rightarrow> py_error + string" where
  "ref_pid (JRef t p) = Inr p"
| "ref_pid (JObj d) = (case field d ''$ref'' of JRef t p \<Rightarrow> Inr p | _ \<Rightarrow> Inl AttributeError)"
| "ref_pid _ = Inl AttributeError"

definition jstr :: "string option \<Rightarrow> json" where
  "jstr s = (case s of None \<Rightarrow> JNull | Some t \<Rightarrow> JStr t)"

lemma field_dict_set [simp]: "field (dict_set k v d) k' = (if k' = k then v else field d k')"
  by (simp add: field_def)

lemma field_Nil [simp]: "field [] k = JNull"
  by (simp add: field_def)

lemma field_Cons [simp]: "field ((k, v) # d) k' = (if k' = k then v else field d k')"
  by (simp add: field_def dict_get_def)

lemma field_dict_pop [simp]: "field (dict_pop k d) k' = (if k' = k then JNull else field d k')"
  by (induction d) (auto simp: dict_pop_def)

lemma dict_update_simps [simp]:
  "dict_update d [] = d" "dict_update d ((k, v) # new) = dict_update (dict_set k v d) new"
  by (simp_all add: dict_update_def)

lemma dict_get_update: "dict_get (dict_update d new) k
    = (case dict_get (rev new) k of None \<Rightarrow> dict_get d k | Some v \<Rightarrow> Some v)"
  by (induction new arbitrary: d)
    (auto simp: dict_update_def dict_get_def dict_set_def update_conv' map_add_def map_of_append split: option.splits)

section \<open>Holdings\<close>

record holding =
  h_pid :: string
  h_data :: data
  h_patterns :: "patterns option"

definition holdings_type :: "holding \<Rightarrow> json" where
  "holdings_type h = field (h_data h) ''holdings_type''"

definition is_serial :: "holding \<Rightarrow> bool" where
  "is_serial h \<longleftrightarrow> holdings_type h = JStr ''serial''"

definition is_electronic :: "holding \<Rightarrow> bool" where
  "is_electronic h \<longleftrightarrow> holdings_type h = JStr ''electronic''"

fun note_of :: "json \<Rightarrow> py_error + json \<times> json" where
  "note_of (JObj d) = Inr (field d ''type'', field d ''content'')"
| "note_of _ = Inl AttributeError"

text \<open>\<open>self.get("notes", [])\<close>, each note as its type and content.\<close>

definition notes_of :: "data \<Rightarrow> py_error + (json \<times> json) list" where
  "notes_of d =
     (case dict_get d ''notes'' of
        None \<Rightarrow> Inr []
      | Some (JArr xs) \<Rightarrow> map_result note_of xs
      | Some _ \<Rightarrow> Inl TypeError)"

definition get_note :: "data \<Rightarrow> string \<Rightarrow> py_error + json" where
  "get_note d t =
     and_then (notes_of d) (\<lambda>ns.
       Inr (case map snd (filter (\<lambda>n. fst n = JStr t) ns) of [] \<Rightarrow> JNull | c # cs \<Rightarrow> c))"

definition serial_fields :: "string list" where
  "serial_fields =
     [''enumerationAndChronology'', ''notes'', ''index'', ''missing_issues'', ''supplementaryContent'',
      ''acquisition_status'', ''acquisition_method'', ''acquisition_expected_end_date'',
      ''general_retention_policy'', ''completeness'', ''composite_copy_report'', ''issue_binding'']"

definition multiple_notes :: "data \<Rightarrow> py_error + string option" where
  "multiple_notes d =
     and_then (notes_of d) (\<lambda>ns.
       Inr (if distinct (map fst ns) then None else Some ''Cannot have multiple notes of the same type.''))"

text \<open>The message of a refusal, \<open>None\<close> for the answer \<open>True\<close>.\<close>

definition holding_validation :: "(string \<Rightarrow> bool) \<Rightarrow> holding \<Rightarrow> py_error + string option" where
  "holding_validation document_exists h =
     and_then (subfield (field (h_data h) ''document'') ''$ref'') (\<lambda>r.
     and_then (ref_pid r) (\<lambda>doc.
       if \<not> document_exists doc then Inr (Some (''Document '' @ doc @ '' does not exist.''))
       else case (if \<not> (is_serial h \<noteq> is_electronic h)
                  then find (\<lambda>f. jtrue (field (h_data h) f)) serial_fields else None) of
           Some f \<Rightarrow> Inr (Some (f @ '' only allowed for serial holdings.''))
         | None \<Rightarrow> multiple_notes (h_data h)))"

text \<open>The items of the index that are available, and those of them with an active loan.\<close>

definition holding_available :: "holding \<Rightarrow> string list \<Rightarrow> (string list \<Rightarrow> string list) \<Rightarrow> bool" where
  "holding_available h available_items with_active_loan =
     (if jtrue (field (h_data h) ''_masked'') then False
      else if is_electronic h then True
      else if available_items = [] then False
      else \<not> list_all (\<lambda>i. i \<in> set (with_active_loan available_items)) available_items)"

definition holding_can_request :: "holding option \<Rightarrow> verdict" where
  "holding_can_request h =
     (case h of
        None \<Rightarrow> granted
      | Some h \<Rightarrow>
          if \<not> is_serial h then (False, [(''holding_not_serial'', ''Only serial holdings can be requested.'')])
          else granted)"

text \<open>The reasons against a deletion: the items of a serial that have reasons of their own, all the items
  of another holding.\<close>

definition holding_reasons_not_to_delete :: "holding \<Rightarrow> bool list \<Rightarrow> (string \<times> nat) list" where
  "holding_reasons_not_to_delete h item_has_reasons =
     (if is_serial h
      then (let n = length (filter id item_has_reasons) in
            if n \<noteq> 0 then [(''items_with_loans_or_fees'', n)] else [])
      else if item_has_reasons = [] then [] else [(''items'', length item_has_reasons)])"

text \<open>The number of items that the deletion removes with the holding. Whether the deletion is forced has no
  effect here: a reason against it raises before the parent class is asked.\<close>

definition holding_delete :: "bool \<Rightarrow> holding \<Rightarrow> bool list \<Rightarrow> py_error + nat" where
  "holding_delete force h item_has_reasons =
     (if holding_reasons_not_to_delete h item_has_reasons = []
      then Inr (if is_serial h then length item_has_reasons else 0)
      else Inl NotDeleted)"

text \<open>\<open>increment_next_prediction\<close> of a holding answers \<open>None\<close> without patterns or values.\<close>

definition increment_holding :: "(stamp \<Rightarrow> delta \<Rightarrow> stamp) \<Rightarrow> holding \<Rightarrow> py_error + holding option" where
  "increment_holding add_delta h =
     (case h_patterns h of
        None \<Rightarrow> Inr None
      | Some ps \<Rightarrow>
          if pattern_values ps = [] then Inr None
          else and_then (increment_next_prediction add_delta ps) (\<lambda>ps'.
            Inr (Some (h\<lparr>h_patterns := Some ps'\<rparr>))))"

definition prediction_issues_preview ::
  "(stamp \<Rightarrow> delta \<Rightarrow> stamp) \<Rightarrow> (string \<Rightarrow> issue_data \<Rightarrow> int \<Rightarrow> string) \<Rightarrow> nat \<Rightarrow> holding
     \<Rightarrow> py_error + (string \<times> int) list" where
  "prediction_issues_preview add_delta render n h =
     (case h_patterns h of
        None \<Rightarrow> Inr []
      | Some ps \<Rightarrow>
          if pattern_values ps = [] then Inr []
          else and_then (preview_loop add_delta render n ps) (\<lambda>(ts, end_ps). Inr ts))"

definition next_issue_display_text ::
  "(string \<Rightarrow> issue_data \<Rightarrow> int \<Rightarrow> string) \<Rightarrow> holding \<Rightarrow> py_error + string option" where
  "next_issue_display_text render h =
     (case h_patterns h of
        None \<Rightarrow> Inr None
      | Some ps \<Rightarrow> and_then (get_next_issue_display_text render ps) (\<lambda>(t, d). Inr (Some t)))"

section \<open>The clock, the index and the database\<close>

text \<open>\<open>datetime.now(UTC)\<close>, the naive local \<open>datetime.now()\<close>, and the barcode made of the latter.\<close>

record clocks =
  now_utc :: stamp
  now_local :: stamp
  clock_barcode :: string

record services =
  item_schema_ok :: "data \<Rightarrow> bool"
  holding_schema_ok :: "holding \<Rightarrow> bool"
  item_pids_exist :: "data \<Rightarrow> string option"
  document_exists :: "string \<Rightarrow> bool"
  barcode_taken :: "string \<Rightarrow> string \<Rightarrow> bool"
  org_lib_of_location :: "string \<Rightarrow> (string \<times> string) option"
  search_holding :: "string \<Rightarrow> string \<Rightarrow> string \<Rightarrow> string \<Rightarrow> string option"
  add_delta :: "stamp \<Rightarrow> delta \<Rightarrow> stamp"
  render :: "string \<Rightarrow> issue_data \<Rightarrow> int \<Rightarrow> string"

record library_db =
  db_holdings :: "(string, holding) dict"
  db_items :: "(string, data) dict"
  last_pid :: nat

definition schema_for :: "string \<Rightarrow> json" where
  "schema_for t = JRef ''schema'' t"

section \<open>The record of an issue to receive\<close>

definition issue_defaults :: "clocks \<Rightarrow> string \<Rightarrow> json \<Rightarrow> data" where
  "issue_defaults t status expected =
     [(''status'', JStr status), (''status_date'', JStamp (now_utc t)), (''expected_date'', expected),
      (''regular'', JBool True)]
     @ (if status = ''received'' then [(''received_date'', JDate (day (now_local t)))] else [])"

definition forced_data :: "holding \<Rightarrow> data" where
  "forced_data h =
     [(''$schema'', schema_for ''item''),
      (''organisation'', field (h_data h) ''organisation''),
      (''library'', field (h_data h) ''library''),
      (''location'', field (h_data h) ''location''),
      (''document'', field (h_data h) ''document''),
      (''item_type'', field (h_data h) ''circulation_category''),
      (''type'', JStr ''issue''),
      (''holding'', get_ref ''hold'' (h_pid h))]"

text \<open>The issue given by the caller overrides the defaults, the forced fields override everything.\<close>

definition prepare_issue_record ::
  "clocks \<Rightarrow> holding \<Rightarrow> string \<Rightarrow> data \<Rightarrow> string option \<Rightarrow> json \<Rightarrow> py_error + data" where
  "prepare_issue_record t h status item issue_display expected =
     and_then
       (if jtrue (field item ''issue'')
        then (case field item ''issue'' of
                JObj d \<Rightarrow> Inr (dict_update (issue_defaults t status expected) d)
              | _ \<Rightarrow> Inl TypeError)
        else Inr (issue_defaults t status expected))
       (\<lambda>issue.
         let defaults =
               [(''issue'', JObj issue), (''enumerationAndChronology'', jstr issue_display), (''status'', JStr ''on_shelf'')] in
         Inr (dict_update (dict_update defaults (dict_pop ''issue'' item)) (forced_data h)))"

section \<open>Items as records\<close>

definition item_issue :: "data \<Rightarrow> string \<Rightarrow> json" where
  "item_issue d k = (case field d ''issue'' of JObj i \<Rightarrow> field i k | _ \<Rightarrow> JNull)"

definition set_item_issue :: "string \<Rightarrow> json \<Rightarrow> data \<Rightarrow> data" where
  "set_item_issue k v d =
     (case field d ''issue'' of
        JObj i \<Rightarrow> dict_set ''issue'' (JObj (dict_set k v i)) d
      | _ \<Rightarrow> dict_set ''issue'' (JObj [(k, v)]) d)"

definition is_issue :: "data \<Rightarrow> bool" where
  "is_issue d \<longleftrightarrow> field d ''type'' = JStr ''issue''"

text \<open>\<open>_set_issue_status_date\<close>: the date moves with the status of an issue that is stored already, and is
  set for a new one.\<close>

definition set_issue_status_date :: "clocks \<Rightarrow> library_db \<Rightarrow> data \<Rightarrow> data" where
  "set_issue_status_date t db d =
     (if \<not> is_issue d then d
      else
        let status = item_issue d ''status'';
            stored = (case field d ''pid'' of JStr p \<Rightarrow> dict_get (db_items db) p | _ \<Rightarrow> None) in
        case stored of
          Some old \<Rightarrow>
            if jtrue status \<and> status \<noteq> item_issue old ''status''
            then set_item_issue ''status_date'' (JStamp (now_utc t)) d else d
        | None \<Rightarrow> if jtrue status then set_item_issue ''status_date'' (JStamp (now_utc t)) d else d)"

text \<open>\<open>IssueStatusExtension._control_status\<close>: a late issue has no date of reception, and one that is expected
  in the future is not late.\<close>

definition control_status :: "clocks \<Rightarrow> data \<Rightarrow> py_error + data" where
  "control_status t d =
     (if item_issue d ''status'' \<noteq> JStr ''late'' then Inr d
      else
        let d' = (case field d ''issue'' of
                    JObj i \<Rightarrow>
                      if jtrue (field i ''received_date'')
                      then dict_set ''issue'' (JObj (dict_pop ''received_date'' i)) d else d
                  | _ \<Rightarrow> d) in
        if \<not> is_issue d' then Inr d'
        else case item_issue d' ''expected_date'' of
            JDate e \<Rightarrow>
              Inr (if earlier \<lparr>day = e, us = 0\<rparr> (now_local t) then d'
                   else set_item_issue ''status'' (JStr ''expected'') d')
          | JNull \<Rightarrow> Inl TypeError
          | _ \<Rightarrow> Inl (ValueError ''date''))"

text \<open>\<open>IssueSortDateExtension.pre_commit\<close>: a changed expected date leaves the old one as the sort date.\<close>

definition control_sort_date :: "data \<Rightarrow> data \<Rightarrow> data" where
  "control_sort_date old d =
     (if \<not> is_issue d \<or> jtrue (item_issue d ''sort_date'') then d
      else if item_issue old ''expected_date'' = item_issue d ''expected_date'' then d
      else set_item_issue ''sort_date''
        (if jtrue (item_issue old ''expected_date'') then item_issue old ''expected_date''
         else item_issue d ''expected_date'') d)"

text \<open>\<open>extended_validation\<close>: the message of a refusal, \<open>None\<close> for \<open>True\<close>.\<close>

definition text_of :: "json \<Rightarrow> string" where
  "text_of j = (case j of JStr s \<Rightarrow> s | _ \<Rightarrow> [])"

definition temporary_type_validation :: "clocks \<Rightarrow> data \<Rightarrow> py_error + string option" where
  "temporary_type_validation t d =
     (if \<not> jtrue (field d ''temporary_item_type'') then Inr None
      else and_then (ref_pid (field d ''temporary_item_type'')) (\<lambda>tmp.
        and_then (ref_pid (field d ''item_type'')) (\<lambda>pid.
          if tmp = pid
          then Inr (Some ''Temporary circulation category cannot be the same than default circulation category.'')
          else and_then (subfield (field d ''temporary_item_type'') ''end_date'') (\<lambda>e.
            case e of
              JDate e \<Rightarrow>
                Inr (if earlier (now_utc t) \<lparr>day = e, us = 0\<rparr> then None
                     else Some ''Temporary circulation category end date must be a date in the future.'')
            | JStamp e \<Rightarrow>
                Inr (if earlier (now_utc t) e then None
                     else Some ''Temporary circulation category end date must be a date in the future.'')
            | _ \<Rightarrow> Inr None))))"

definition item_validation :: "services \<Rightarrow> clocks \<Rightarrow> library_db \<Rightarrow> data \<Rightarrow> py_error + string option" where
  "item_validation sv t db d =
     (if jtrue (field d ''barcode'') \<and> barcode_taken sv (text_of (field d ''pid'')) (text_of (field d ''barcode''))
      then Inr (Some ''Barcode is already taken.'')
      else and_then (subfield (field d ''holding'') ''$ref'') (\<lambda>r.
        and_then (ref_pid r) (\<lambda>hold.
          if dict_get (db_holdings db) hold = None
          then Inr (Some (''Holdings '' @ hold @ '' does not exist.''))
          else if jtrue (field d ''issue'') \<and> field d ''type'' = JStr ''standard''
          then Inr (Some ''Standard item cannot have a issue field.'')
          else if is_issue d \<and> \<not> jtrue (field d ''issue'')
          then Inr (Some ''Issue item must have an issue field.'')
          else if is_issue d \<and> \<not> jtrue (field d ''enumerationAndChronology'')
          then Inr (Some ''enumerationAndChronology field is required for an issue item'')
          else and_then (multiple_notes d) (\<lambda>m.
            if m \<noteq> None then Inr m else temporary_type_validation t d))))"

text \<open>\<open>_validate\<close> of a record: the schema, the validation of the class, the references that must exist. A
  draft is not validated.\<close>

definition validate_item :: "services \<Rightarrow> clocks \<Rightarrow> library_db \<Rightarrow> data \<Rightarrow> py_error + unit" where
  "validate_item sv t db d =
     (if jtrue (field d ''_draft'') then Inr ()
      else if \<not> item_schema_ok sv d then Inl (ValidationError ''schema'')
      else and_then (item_validation sv t db d) (\<lambda>m.
        case m of
          Some msg \<Rightarrow> Inl (ValidationError msg)
        | None \<Rightarrow>
            (case item_pids_exist sv d of None \<Rightarrow> Inr () | Some msg \<Rightarrow> Inl (ValidationError msg))))"

definition validate_holding :: "services \<Rightarrow> holding \<Rightarrow> py_error + unit" where
  "validate_holding sv h =
     (if \<not> holding_schema_ok sv h then Inl (ValidationError ''schema'')
      else and_then (holding_validation (document_exists sv) h) (\<lambda>m.
        case m of None \<Rightarrow> Inr () | Some msg \<Rightarrow> Inl (ValidationError msg)))"

section \<open>Creation of a holding\<close>

definition add_org_and_lib :: "services \<Rightarrow> data \<Rightarrow> py_error + data" where
  "add_org_and_lib sv d =
     and_then (ref_pid (field d ''location'')) (\<lambda>loc.
       case org_lib_of_location sv loc of
         None \<Rightarrow> Inl AttributeError
       | Some (org, lib) \<Rightarrow>
           Inr (dict_set ''library'' (get_ref ''lib'' lib) (dict_set ''organisation'' (get_ref ''org'' org) d)))"

definition org_lib_pre_create :: "services \<Rightarrow> data \<Rightarrow> py_error + data" where
  "org_lib_pre_create sv d =
     (if jtrue (field d ''organisation'') \<and> jtrue (field d ''library'') then Inr d else add_org_and_lib sv d)"

text \<open>The function \<open>create_holding\<close> up to \<open>Holding.create\<close>: \<open>optional\<close> holds the arguments that go into the record
  as they are, in the order of the code, with empty ones left out.\<close>

definition create_holding_data ::
  "string \<Rightarrow> string \<Rightarrow> string \<Rightarrow> string \<Rightarrow> bool \<Rightarrow> data \<Rightarrow> json \<Rightarrow> string \<Rightarrow> patterns option
     \<Rightarrow> py_error + data \<times> patterns option" where
  "create_holding_data document location_pid item_type kind masked optional electronic_location vendor ps =
     (if document = [] \<or> location_pid = [] \<or> item_type = []
      then Inl (MissingRequiredParameterError ''document_pid location_pid item_type_pid'')
      else
        let d = [(''$schema'', schema_for ''hold''), (''_masked'', JBool masked), (''holdings_type'', JStr kind),
                 (''location'', get_ref ''loc'' location_pid), (''circulation_category'', get_ref ''itty'' item_type),
                 (''document'', get_ref ''doc'' document)] @ optional;
            d = filter (\<lambda>(k, v). jtrue v) d;
            d = (if jtrue electronic_location then dict_set ''electronic_location'' (JArr [electronic_location]) d else d);
            d = (if vendor \<noteq> [] then dict_set ''vendor'' (get_ref ''vndr'' vendor) d else d) in
        Inr (d, if kind = ''serial'' then ps else None))"

definition new_pid :: "library_db \<Rightarrow> string" where
  "new_pid db = digits (Suc (last_pid db))"

definition store_holding :: "services \<Rightarrow> library_db \<Rightarrow> data \<times> patterns option \<Rightarrow> py_error + library_db \<times> string" where
  "store_holding sv db = (\<lambda>(d, ps).
     and_then (org_lib_pre_create sv (dict_set ''pid'' (JStr (new_pid db)) d)) (\<lambda>d.
       let h = \<lparr>h_pid = new_pid db, h_data = d, h_patterns = ps\<rparr> in
       and_then (validate_holding sv h) (\<lambda>_.
         Inr (db\<lparr>db_holdings := dict_set (h_pid h) h (db_holdings db), last_pid := Suc (last_pid db)\<rparr>, h_pid h))))"

section \<open>Creation and update of an item\<close>

definition require :: "data \<Rightarrow> string \<Rightarrow> py_error + json" where
  "require d k = (case dict_get d k of None \<Rightarrow> Inl (KeyError k) | Some v \<Rightarrow> Inr v)"

definition require_pid :: "data \<Rightarrow> string \<Rightarrow> py_error + string" where
  "require_pid d k = and_then (require d k) ref_pid"

definition holdings_type_of_pid :: "library_db \<Rightarrow> string \<Rightarrow> json" where
  "holdings_type_of_pid db p = (case dict_get (db_holdings db) p of None \<Rightarrow> JNull | Some h \<Rightarrow> holdings_type h)"

definition old_holding_pid :: "data \<Rightarrow> py_error + string option" where
  "old_holding_pid d =
     (if jtrue (field d ''holding'') then and_then (ref_pid (field d ''holding'')) (\<lambda>p. Inr (Some p)) else Inr None)"

definition item_record_type :: "data \<Rightarrow> string" where
  "item_record_type d = (case dict_get d ''type'' of None \<Rightarrow> ''standard'' | Some j \<Rightarrow> text_of j)"

definition link_item_to_holding :: "services \<Rightarrow> library_db \<Rightarrow> bool \<Rightarrow> data \<Rightarrow> py_error + library_db \<times> data" where
  "link_item_to_holding sv db creating d =
     and_then (old_holding_pid d) (\<lambda>old.
       let old_type = (case old of None \<Rightarrow> JNull | Some p \<Rightarrow> holdings_type_of_pid db p) in
       if (creating \<and> jtrue (field d ''holding'')) \<or> old_type = JStr ''serial'' \<or> old_type = JStr ''electronic''
       then Inr (db, d)
       else
         and_then (require_pid d ''document'') (\<lambda>doc.
         and_then (require_pid d ''location'') (\<lambda>loc.
         and_then (require_pid d ''item_type'') (\<lambda>itty.
         and_then
           (case search_holding sv doc loc itty (item_record_type d) of
              Some p \<Rightarrow> Inr (db, p)
            | None \<Rightarrow>
                if item_record_type d \<noteq> ''serial''
                then and_then (create_holding_data doc loc itty ''standard'' False [] JNull [] None) (store_holding sv db)
                else Inr (db, ''None''))
           (\<lambda>(db, p).
             Inr (db, if old = None \<or> old \<noteq> Some p then dict_set ''holding'' (get_ref ''hold'' p) d else d))))))"

definition trim_barcode :: "data \<Rightarrow> data" where
  "trim_barcode d =
     (case field d ''barcode'' of JStr s \<Rightarrow> if s = [] then d else dict_set ''barcode'' (JStr (strip s)) d | _ \<Rightarrow> d)"

definition generate_item_barcode :: "clocks \<Rightarrow> data \<Rightarrow> data" where
  "generate_item_barcode t d =
     (if jtrue (field d ''barcode'') then d else dict_set ''barcode'' (JStr (clock_barcode t)) d)"

definition prepare_item_record ::
  "services \<Rightarrow> clocks \<Rightarrow> library_db \<Rightarrow> bool \<Rightarrow> data \<Rightarrow> py_error + library_db \<times> data" where
  "prepare_item_record sv t db creating d =
     link_item_to_holding sv db creating (generate_item_barcode t (trim_barcode d))"

text \<open>\<open>IlsRecord.create\<close>: the pid, the extensions, the validation.\<close>

definition store_item :: "services \<Rightarrow> clocks \<Rightarrow> library_db \<Rightarrow> data \<Rightarrow> py_error + library_db \<times> data" where
  "store_item sv t db d =
     (let p = (if jtrue (field d ''pid'') then text_of (field d ''pid'') else new_pid db) in
      if jtrue (field d ''pid'') \<and> dict_get (db_items db) p \<noteq> None then Inl PidAlreadyUsed
      else
        and_then (control_status t (dict_set ''pid'' (JStr p) d)) (\<lambda>d.
        and_then (org_lib_pre_create sv d) (\<lambda>d.
        and_then (validate_item sv t db d) (\<lambda>_.
          Inr (db\<lparr>db_items := dict_set p d (db_items db), last_pid := Suc (last_pid db)\<rparr>, d)))))"

text \<open>A holding without values in its patterns has no next prediction: its update with \<open>None\<close> raises.\<close>

definition increment_next_prediction_for_holding :: "services \<Rightarrow> library_db \<Rightarrow> data \<Rightarrow> py_error + library_db" where
  "increment_next_prediction_for_holding sv db d =
     (if \<not> is_issue d \<or> \<not> jtrue (item_issue d ''regular'') then Inr db
      else
        and_then (ref_pid (field d ''holding'')) (\<lambda>p.
        case dict_get (db_holdings db) p of
          None \<Rightarrow> Inl AttributeError
        | Some h \<Rightarrow>
            if \<not> is_serial h \<or> h_patterns h = None then Inr db
            else
              and_then (increment_holding (add_delta sv) h) (\<lambda>r.
              case r of
                None \<Rightarrow> Inl AttributeError
              | Some h' \<Rightarrow>
                  and_then (add_org_and_lib sv (h_data h')) (\<lambda>d'.
                  let h'' = h'\<lparr>h_data := d'\<rparr> in
                  and_then (validate_holding sv h'') (\<lambda>_.
                    Inr (db\<lparr>db_holdings := dict_set p h'' (db_holdings db)\<rparr>))))))"

definition create_item :: "services \<Rightarrow> clocks \<Rightarrow> library_db \<Rightarrow> data \<Rightarrow> py_error + library_db \<times> data" where
  "create_item sv t db d =
     and_then (prepare_item_record sv t db True d) (\<lambda>(db, d).
     and_then (store_item sv t db (set_issue_status_date t db d)) (\<lambda>(db, d).
     and_then (increment_next_prediction_for_holding sv db d) (\<lambda>db. Inr (db, d))))"

text \<open>\<open>update\<close> of the item stored under \<open>p\<close>, with its \<open>commit\<close>.\<close>

definition update_item :: "services \<Rightarrow> clocks \<Rightarrow> library_db \<Rightarrow> string \<Rightarrow> data \<Rightarrow> data \<Rightarrow> py_error + library_db \<times> data" where
  "update_item sv t db p self new =
     and_then (prepare_item_record sv t db False (set_issue_status_date t db new)) (\<lambda>(db, new).
       case dict_get (db_items db) p of
         None \<Rightarrow> Inl NotFoundError
       | Some old \<Rightarrow>
           if jtrue (field new ''pid'') \<and> field new ''pid'' \<noteq> JStr p then Inl PidChange
           else
             let d = dict_update self new;
                 d = (if jtrue (field new ''$schema'') then d else dict_set ''$schema'' (schema_for ''item'') d) in
             and_then (control_status t (control_sort_date old d)) (\<lambda>d.
             and_then (add_org_and_lib sv d) (\<lambda>d.
             and_then (validate_item sv t db d) (\<lambda>_.
               Inr (db\<lparr>db_items := dict_set p d (db_items db)\<rparr>, d)))))"

section \<open>Reception of issues\<close>

definition create_regular_issue ::
  "services \<Rightarrow> clocks \<Rightarrow> library_db \<Rightarrow> holding \<Rightarrow> string \<Rightarrow> data \<Rightarrow> py_error + library_db \<times> data" where
  "create_regular_issue sv t db h status item =
     (if \<not> is_serial h then Inl RegularReceiveNotAllowed
      else case h_patterns h of
          None \<Rightarrow> Inl AttributeError
        | Some ps \<Rightarrow>
            and_then (get_next_issue_display_text (render sv) ps) (\<lambda>(txt, d).
            and_then (prepare_issue_record t h status item (Some txt) (JDate d)) (create_item sv t db)))"

text \<open>The holdings that the task looks for: serials that are currently received, whose next issue was expected
  before today.\<close>

definition is_late :: "clocks \<Rightarrow> holding \<Rightarrow> bool" where
  "is_late t h \<longleftrightarrow>
     is_serial h \<and> field (h_data h) ''acquisition_status'' = JStr ''currently_received''
     \<and> (case h_patterns h of
          None \<Rightarrow> False
        | Some ps \<Rightarrow> (case next_expected_date ps of None \<Rightarrow> False | Some d \<Rightarrow> d \<le> day (now_utc t) - 1))"

definition get_late_serial_holdings :: "clocks \<Rightarrow> library_db \<Rightarrow> string list" where
  "get_late_serial_holdings t db = map fst (filter (\<lambda>(p, h). is_late t h) (db_holdings db))"

text \<open>The loop of \<open>create_next_late_expected_issues\<close>: an exception other than \<open>RegularReceiveNotAllowed\<close> ends it,
  with the issues before it in the database.\<close>

fun late_issues_loop ::
  "services \<Rightarrow> (nat \<Rightarrow> clocks) \<Rightarrow> library_db \<Rightarrow> nat \<Rightarrow> nat \<Rightarrow> string list \<Rightarrow> library_db \<times> (py_error + nat)" where
  "late_issues_loop sv ts db n made [] = (db, Inr made)"
| "late_issues_loop sv ts db n made (p # pids) =
     (case dict_get (db_holdings db) p of
        None \<Rightarrow> (db, Inl NotFoundError)
      | Some h \<Rightarrow>
          (case create_regular_issue sv (ts n) db h ''late'' [] of
             Inr (db', d) \<Rightarrow> late_issues_loop sv ts db' (Suc n) (Suc made) pids
           | Inl RegularReceiveNotAllowed \<Rightarrow> late_issues_loop sv ts db (Suc n) made pids
           | Inl e \<Rightarrow> (db, Inl e)))"

definition create_next_late_expected_issues ::
  "services \<Rightarrow> (nat \<Rightarrow> clocks) \<Rightarrow> library_db \<Rightarrow> library_db \<times> (py_error + nat)" where
  "create_next_late_expected_issues sv ts db =
     late_issues_loop sv ts db 0 0 (get_late_serial_holdings (ts 0) db)"

definition passed_expected_issue :: "clocks \<Rightarrow> data \<Rightarrow> bool" where
  "passed_expected_issue t d \<longleftrightarrow>
     is_issue d \<and> item_issue d ''status'' = JStr ''expected''
     \<and> (case item_issue d ''expected_date'' of JDate e \<Rightarrow> e \<le> day (now_utc t) - 1 | _ \<Rightarrow> False)"

fun update_late_loop ::
  "services \<Rightarrow> clocks \<Rightarrow> library_db \<Rightarrow> nat \<Rightarrow> string list \<Rightarrow> library_db \<times> (py_error + nat)" where
  "update_late_loop sv t db made [] = (db, Inr made)"
| "update_late_loop sv t db made (p # pids) =
     (case dict_get (db_items db) p of
        None \<Rightarrow> (db, Inl NotFoundError)
      | Some d \<Rightarrow>
          let d' = set_item_issue ''status'' (JStr ''late'') d in
          (case update_item sv t db p d' d' of
             Inl e \<Rightarrow> (db, Inl e)
           | Inr (db', d'') \<Rightarrow> update_late_loop sv t db' (Suc made) pids))"

definition update_late_expected_issue :: "services \<Rightarrow> clocks \<Rightarrow> library_db \<Rightarrow> library_db \<times> (py_error + nat)" where
  "update_late_expected_issue sv t db =
     update_late_loop sv t db 0 (map fst (filter (\<lambda>(p, d). passed_expected_issue t d) (db_items db)))"

section \<open>What an item inherits\<close>

definition is_over :: "clocks \<Rightarrow> json \<Rightarrow> bool" where
  "is_over t e =
     (case e of
        JDate e \<Rightarrow> earlier \<lparr>day = e, us = 0\<rparr> (now_utc t)
      | JStamp e \<Rightarrow> earlier e (now_utc t)
      | _ \<Rightarrow> False)"

text \<open>The location for circulation operations: the temporary one, unless it is over.\<close>

definition circulation_location_pid :: "clocks \<Rightarrow> data \<Rightarrow> py_error + string" where
  "circulation_location_pid t d =
     (case field d ''temporary_location'' of
        JObj tmp \<Rightarrow>
          if tmp = [] \<or> is_over t (field tmp ''end_date'') then require_pid d ''location'' else require_pid tmp ''$ref''
      | _ \<Rightarrow> require_pid d ''location'')"

definition item_type_pid :: "data \<Rightarrow> py_error + string option" where
  "item_type_pid d =
     (if jtrue (field d ''item_type'') then and_then (ref_pid (field d ''item_type'')) (\<lambda>p. Inr (Some p)) else Inr None)"

definition temporary_item_type_pid :: "clocks \<Rightarrow> data \<Rightarrow> py_error + string option" where
  "temporary_item_type_pid t d =
     (case field d ''temporary_item_type'' of
        JObj tmp \<Rightarrow>
          if tmp = [] \<or> is_over t (field tmp ''end_date'') then Inr None
          else and_then (ref_pid (field tmp ''$ref'')) (\<lambda>p. Inr (Some p))
      | _ \<Rightarrow> Inr None)"

definition item_type_circulation_category_pid :: "clocks \<Rightarrow> data \<Rightarrow> py_error + string option" where
  "item_type_circulation_category_pid t d =
     and_then (temporary_item_type_pid t d) (\<lambda>tmp.
       case tmp of None \<Rightarrow> item_type_pid d | Some p \<Rightarrow> if p = [] then item_type_pid d else Inr (Some p))"

definition call_number_keys :: "string list" where
  "call_number_keys = [''call_number'', ''second_call_number'']"

text \<open>A standard item has its own call numbers; any other inherits from its holding those that it lacks.\<close>

definition call_numbers :: "library_db \<Rightarrow> data \<Rightarrow> py_error + json list" where
  "call_numbers db d =
     (if field d ''type'' = JStr ''standard'' then Inr (filter jtrue (map (field d) call_number_keys))
      else
        and_then (ref_pid (field d ''holding'')) (\<lambda>p.
          case dict_get (db_holdings db) p of
            None \<Rightarrow>
              if list_all (\<lambda>k. jtrue (field d k)) call_number_keys
              then Inr (map (field d) call_number_keys) else Inl AttributeError
          | Some h \<Rightarrow>
              Inr (filter jtrue
                (map (\<lambda>k. if jtrue (field d k) then field d k else field (h_data h) k) call_number_keys))))"

definition inherited_call_number :: "library_db \<Rightarrow> string \<Rightarrow> data \<Rightarrow> py_error + json" where
  "inherited_call_number db k d =
     (if \<not> is_issue d \<or> jtrue (field d k) then Inr JNull
      else and_then (ref_pid (field d ''holding'')) (\<lambda>p.
        case dict_get (db_holdings db) p of None \<Rightarrow> Inl AttributeError | Some h \<Rightarrow> Inr (field (h_data h) k)))"

definition is_new_acquisition :: "clocks \<Rightarrow> data \<Rightarrow> bool" where
  "is_new_acquisition t d =
     (case field d ''acquisition_date'' of JDate a \<Rightarrow> earlier \<lparr>day = a, us = 0\<rparr> (now_local t) | _ \<Rightarrow> False)"

end
