(* ===== verification/HoldingProperties.thy ===== *)
theory HoldingProperties
  imports Issues
begin

text \<open>
  The properties of holdings and issues: the numbering of a pattern is a counter in mixed radix, valid
  patterns can always be displayed, the issues received are those that the preview showed, and a
  frequency with hours loses them.
\<close>

section \<open>Display of valid patterns\<close>

lemma level_text_in_bounds: "in_bounds l \<Longrightarrow> \<exists>t. level_text l = Inr t"
  by (cases "mapping_values l = []") (auto simp: level_text_def py_index_def in_bounds_def max_value_def)

lemma level_texts_in_bounds: "list_all in_bounds ls \<Longrightarrow> \<exists>d. level_texts acc ls = Inr d"
proof (induction ls arbitrary: acc)
  case Nil
  then show ?case by simp
next
  case (Cons l ls)
  then show ?case using level_text_in_bounds [of l] by fastforce
qed

lemma pattern_texts_ok: "list_all pattern_ok ps \<Longrightarrow> \<exists>d. pattern_texts acc ps = Inr d"
proof (induction ps arbitrary: acc)
  case Nil
  then show ?case by simp
next
  case (Cons p ps)
  then have "list_all in_bounds (levels p)" by (simp add: pattern_ok_def)
  from level_texts_in_bounds [OF this] obtain d where "level_texts [] (levels p) = Inr d" by blast
  with Cons show ?case by simp
qed

text \<open>What the schema asks of the patterns of a holding, and numbers that lie within the bounds of their
  levels.\<close>

definition valid_patterns :: "patterns \<Rightarrow> bool" where
  "valid_patterns ps \<longleftrightarrow>
     pattern_values ps \<noteq> [] \<and> list_all pattern_ok (pattern_values ps) \<and> next_expected_date ps \<noteq> None
     \<and> (case frequency ps of None \<Rightarrow> False | Some f \<Rightarrow> f \<noteq> [] \<and> f \<in> set (map fst frequencies))"

lemma display_valid:
  "valid_patterns ps \<Longrightarrow> \<exists>t. get_next_issue_display_text rd ps = Inr t"
  using pattern_texts_ok [of "pattern_values ps" "[]"]
  by (auto simp: valid_patterns_def get_next_issue_display_text_def)

lemma frequencies_defined: "f \<in> set (map fst frequencies) \<Longrightarrow> \<exists>step. dict_get frequencies f = Some step"
  unfolding dict_get_def by (metis list.set_map map_of_eq_None_iff not_None_eq)

lemma increment_date_valid:
  assumes "valid_patterns ps"
  shows "outcome (\<lambda>e. e = OverflowError) (\<lambda>d. d \<noteq> None) (increment_date ad ps)"
proof -
  from assms obtain f d where f: "frequency ps = Some f" "f \<noteq> []" "f \<in> set (map fst frequencies)"
    and d: "next_expected_date ps = Some d"
    by (auto simp: valid_patterns_def split: option.splits)
  from frequencies_defined [OF f(3)] obtain step where "dict_get frequencies f = Some step" ..
  with f d show ?thesis by (simp add: increment_date_def Let_def)
qed

lemma increment_valid:
  assumes "valid_patterns ps"
  shows "outcome (\<lambda>e. e = OverflowError) valid_patterns (increment_next_prediction ad ps)"
  unfolding increment_next_prediction_def
proof (rule outcome_and_then [OF increment_date_valid [OF assms]])
  fix d assume "d \<noteq> (None :: int option)"
  with assms show "outcome (\<lambda>e. e = OverflowError) valid_patterns
      (Inr (ps\<lparr>pattern_values := map increment_pattern (pattern_values ps), next_expected_date := d\<rparr>))"
    by (auto simp: valid_patterns_def list_all_iff pattern_counter.ok_step split: option.splits)
qed

lemma preview_valid:
  "valid_patterns ps \<Longrightarrow>
   outcome (\<lambda>e. e = OverflowError) (\<lambda>(ts, ps'). length ts = n) (preview_loop ad rd n ps)"
proof (induction n arbitrary: ps)
  case 0
  then show ?case by simp
next
  case (Suc n)
  obtain t where t: "get_next_issue_display_text rd ps = Inr t" using display_valid [OF Suc.prems] ..
  from increment_valid [OF Suc.prems, of ad] show ?case
  proof (cases "increment_next_prediction ad ps")
    case (Inr ps')
    with increment_valid [OF Suc.prems, of ad] have "valid_patterns ps'" by simp
    from Suc.IH [OF this] t Inr show ?thesis by (cases "preview_loop ad rd n ps'") auto
  qed (use t in simp)
qed

section \<open>One reception\<close>

lemma create_with_holding:
  "jtrue (field d ''holding'') \<Longrightarrow> ref_pid (field d ''holding'') = Inr p \<Longrightarrow>
   link_item_to_holding sv db True d = Inr (db, d)"
  by (simp add: link_item_to_holding_def old_holding_pid_def)

text \<open>The steps between the prepared record and the stored item keep every field but those they set.\<close>

lemma field_trim: "k \<noteq> ''barcode'' \<Longrightarrow> field (trim_barcode d) k = field d k"
  by (simp add: trim_barcode_def split: json.splits)

lemma field_generate: "k \<noteq> ''barcode'' \<Longrightarrow> field (generate_item_barcode t d) k = field d k"
  by (simp add: generate_item_barcode_def)

lemma field_set_item_issue: "k \<noteq> ''issue'' \<Longrightarrow> field (set_item_issue j v d) k = field d k"
  by (simp add: set_item_issue_def split: json.splits)

lemma item_issue_set: "item_issue (set_item_issue j v d) k = (if k = j then v else item_issue d k)"
  by (simp add: set_item_issue_def item_issue_def split: json.splits)

lemma field_status_date: "k \<noteq> ''issue'' \<Longrightarrow> field (set_issue_status_date t db d) k = field d k"
  by (simp add: set_issue_status_date_def Let_def field_set_item_issue split: option.splits)

lemma item_issue_status_date:
  "k \<noteq> ''status_date'' \<Longrightarrow> item_issue (set_issue_status_date t db d) k = item_issue d k"
  by (simp add: set_issue_status_date_def Let_def item_issue_set split: option.splits)

lemma field_control_status:
  "control_status t d = Inr d' \<Longrightarrow> k \<noteq> ''issue'' \<Longrightarrow> field d' k = field d k"
  by (auto simp: control_status_def Let_def field_set_item_issue split: json.splits if_splits)

lemma field_org_lib:
  "org_lib_pre_create sv d = Inr d' \<Longrightarrow> k \<noteq> ''organisation'' \<Longrightarrow> k \<noteq> ''library'' \<Longrightarrow> field d' k = field d k"
  by (auto simp: org_lib_pre_create_def add_org_and_lib_def and_then_eq_Inr split: if_splits option.splits)

lemma item_issue_control_status:
  assumes "control_status t d = Inr d'" "k \<noteq> ''status''" "k \<noteq> ''received_date''"
  shows "item_issue d' k = item_issue d k"
proof -
  define e where "e = (case field d ''issue'' of
      JObj i \<Rightarrow> if jtrue (field i ''received_date'') then dict_set ''issue'' (JObj (dict_pop ''received_date'' i)) d else d
    | _ \<Rightarrow> d)"
  have "item_issue e k = item_issue d k"
    using assms(3) by (simp add: e_def item_issue_def split: json.splits)
  with assms(1,2) show ?thesis
    by (auto simp: control_status_def Let_def e_def [symmetric] item_issue_set split: if_splits json.splits)
qed

lemma item_issue_eq: "field d' ''issue'' = field d ''issue'' \<Longrightarrow> item_issue d' k = item_issue d k"
  by (simp add: item_issue_def)

lemma ref_pid_get_ref [simp]: "ref_pid (get_ref t p) = Inr p" "jtrue (get_ref t p)"
  by (simp_all add: get_ref_def)

text \<open>The fields that a created item has from the record it was prepared from.\<close>

definition inherited :: "string list" where
  "inherited = [''type'', ''holding'', ''location'', ''document'', ''item_type'', ''enumerationAndChronology'']"

definition inherited_issue :: "string list" where
  "inherited_issue = [''expected_date'', ''regular'']"

definition same_item :: "data \<Rightarrow> data \<Rightarrow> bool" where
  "same_item r d \<longleftrightarrow>
     list_all (\<lambda>k. field d k = field r k) inherited \<and> list_all (\<lambda>k. item_issue d k = item_issue r k) inherited_issue"

lemmas same_item_defs = same_item_def inherited_def inherited_issue_def

lemma same_item_trans: "same_item a b \<Longrightarrow> same_item b c \<Longrightarrow> same_item a c"
  by (simp add: same_item_defs)

lemma same_item_prepared: "same_item d (set_issue_status_date t db (generate_item_barcode t (trim_barcode d)))"
proof -
  have "field (generate_item_barcode t (trim_barcode d)) ''issue'' = field d ''issue''"
    by (simp add: field_generate field_trim)
  from item_issue_eq [OF this] show ?thesis
    by (simp add: same_item_defs field_status_date field_generate field_trim item_issue_status_date)
qed

lemma same_item_control: "control_status t d = Inr d' \<Longrightarrow> same_item d d'"
  by (simp add: same_item_defs field_control_status item_issue_control_status)

lemma same_item_org_lib:
  assumes "org_lib_pre_create sv d = Inr d'"
  shows "same_item d d'"
  using field_org_lib [OF assms] item_issue_eq [OF field_org_lib [OF assms, of "''issue''"]]
  by (simp add: same_item_defs)

lemma same_item_pid: "same_item d (dict_set ''pid'' v d)"
  by (simp add: same_item_defs item_issue_def)

lemma store_item_same:
  assumes "store_item sv t db d = Inr (db', d')"
  shows "same_item d d' \<and> db_holdings db' = db_holdings db"
proof -
  define p where "p = (if jtrue (field d ''pid'') then text_of (field d ''pid'') else new_pid db)"
  from assms obtain d1 where "control_status t (dict_set ''pid'' (JStr p) d) = Inr d1"
      and "org_lib_pre_create sv d1 = Inr d'" "db_holdings db' = db_holdings db"
    by (auto simp: store_item_def Let_def p_def [symmetric] and_then_eq_Inr split: if_splits)
  with same_item_pid [of d "JStr p"] same_item_control same_item_org_lib same_item_trans show ?thesis by blast
qed

lemma create_item_cases:
  assumes "create_item sv t db r = Inr (db', d)" "field r ''holding'' = get_ref ''hold'' p"
  obtains db1 where "same_item r d" "db_holdings db1 = db_holdings db"
    "increment_next_prediction_for_holding sv db1 d = Inr db'"
proof -
  let ?r = "generate_item_barcode t (trim_barcode r)"
  have "prepare_item_record sv t db True r = Inr (db, ?r)"
    using assms(2) create_with_holding [of ?r p sv db]
    by (simp add: prepare_item_record_def field_generate field_trim)
  with assms(1) obtain db1 where s: "store_item sv t db (set_issue_status_date t db ?r) = Inr (db1, d)"
    and "increment_next_prediction_for_holding sv db1 d = Inr db'"
    by (auto simp: create_item_def and_then_eq_Inr)
  with that store_item_same [OF s] same_item_trans [OF same_item_prepared [of r t db]] show thesis by blast
qed

lemma prepared_forced:
  assumes "prepare_issue_record t h status item label e = Inr r"
  shows "field r ''holding'' = get_ref ''hold'' (h_pid h)" "field r ''type'' = JStr ''issue''"
    "field r ''location'' = field (h_data h) ''location''" "field r ''document'' = field (h_data h) ''document''"
    "field r ''item_type'' = field (h_data h) ''circulation_category''"
  using assms
  by (auto simp: prepare_issue_record_def and_then_eq_Inr Let_def forced_data_def)

lemma prepared_plain:
  assumes "prepare_issue_record t h status [] label e = Inr r"
  shows "field r ''enumerationAndChronology'' = jstr label" "item_issue r ''expected_date'' = e"
    "item_issue r ''regular'' = JBool True"
  using assms
  by (auto simp: prepare_issue_record_def forced_data_def dict_pop_def issue_defaults_def
      item_issue_def Let_def)

text \<open>The reception of an issue advances the holding by one prediction, when the item is a regular issue.\<close>

lemma increment_for_holding_cases:
  assumes "increment_next_prediction_for_holding sv db d = Inr db'"
    and "is_issue d" "jtrue (item_issue d ''regular'')" "field d ''holding'' = get_ref ''hold'' p"
    and "dict_get (db_holdings db) p = Some h" "is_serial h" "h_patterns h = Some ps"
  obtains ps' h' where "pattern_values ps \<noteq> []" "increment_next_prediction (add_delta sv) ps = Inr ps'"
    "dict_get (db_holdings db') p = Some h'" "h_patterns h' = Some ps'" "h_pid h' = h_pid h"
proof -
  from assms obtain r where r: "increment_holding (add_delta sv) h = Inr r"
    and rest: "(case r of None \<Rightarrow> Inl AttributeError
      | Some h' \<Rightarrow> and_then (add_org_and_lib sv (h_data h')) (\<lambda>d'.
          let h'' = h'\<lparr>h_data := d'\<rparr> in
          and_then (validate_holding sv h'') (\<lambda>_.
            Inr (db\<lparr>db_holdings := dict_set p h'' (db_holdings db)\<rparr>)))) = Inr db'"
    by (auto simp: increment_next_prediction_for_holding_def and_then_eq_Inr)
  from rest obtain h1 d' where h1: "r = Some h1"
    and db': "db' = db\<lparr>db_holdings := dict_set p (h1\<lparr>h_data := d'\<rparr>) (db_holdings db)\<rparr>"
    by (auto simp: and_then_eq_Inr Let_def split: option.splits)
  from r h1 assms(7) obtain ps' where "pattern_values ps \<noteq> []"
      and "increment_next_prediction (add_delta sv) ps = Inr ps'" "h1 = h\<lparr>h_patterns := Some ps'\<rparr>"
    by (auto simp: increment_holding_def and_then_eq_Inr split: if_splits)
  with db' that show thesis by simp
qed

lemma create_regular_issue_cases:
  assumes "create_regular_issue sv t db h status item = Inr (db', d)"
  obtains ps label e r db1 where "is_serial h" "h_patterns h = Some ps"
    "get_next_issue_display_text (render sv) ps = Inr (label, e)"
    "prepare_issue_record t h status item (Some label) (JDate e) = Inr r"
    "same_item r d" "db_holdings db1 = db_holdings db" "increment_next_prediction_for_holding sv db1 d = Inr db'"
proof -
  from assms obtain ps label e r where h: "is_serial h" "h_patterns h = Some ps"
      and label: "get_next_issue_display_text (render sv) ps = Inr (label, e)"
      and r: "prepare_issue_record t h status item (Some label) (JDate e) = Inr r"
      and c: "create_item sv t db r = Inr (db', d)"
    by (auto simp: create_regular_issue_def and_then_eq_Inr split: if_splits option.splits)
  from create_item_cases [OF c prepared_forced(1) [OF r]] that [OF h label r] show thesis by blast
qed

lemma receive_step:
  assumes "create_regular_issue sv t db h status [] = Inr (db', d)"
    and "dict_get (db_holdings db) (h_pid h) = Some h" "h_patterns h = Some ps"
  obtains label e ps' h' where "get_next_issue_display_text (render sv) ps = Inr (label, e)"
    "increment_next_prediction (add_delta sv) ps = Inr ps'" "pattern_values ps \<noteq> []"
    "field d ''enumerationAndChronology'' = JStr label" "item_issue d ''expected_date'' = JDate e"
    "dict_get (db_holdings db') (h_pid h) = Some h'" "h_patterns h' = Some ps'" "h_pid h' = h_pid h"
proof -
  from create_regular_issue_cases [OF assms(1)] obtain ps1 label e r db1 where h: "is_serial h" "h_patterns h = Some ps1"
      and label: "get_next_issue_display_text (render sv) ps1 = Inr (label, e)"
      and r: "prepare_issue_record t h status [] (Some label) (JDate e) = Inr r"
      and d: "same_item r d" and db1: "db_holdings db1 = db_holdings db"
      and i: "increment_next_prediction_for_holding sv db1 d = Inr db'"
    by blast
  note f = prepared_forced [OF r] prepared_plain [OF r]
  from d f have "is_issue d" "jtrue (item_issue d ''regular'')" "field d ''holding'' = get_ref ''hold'' (h_pid h)"
    "field d ''enumerationAndChronology'' = JStr label" "item_issue d ''expected_date'' = JDate e"
    by (simp_all add: same_item_defs is_issue_def jstr_def)
  with increment_for_holding_cases [OF i, of "h_pid h" h ps] h assms db1 label that show thesis by auto
qed

text \<open>A client that receives the next issue of a holding again and again, each time with the holding read
  from the database.\<close>

fun receive_issues ::
  "services \<Rightarrow> (nat \<Rightarrow> clocks) \<Rightarrow> string \<Rightarrow> string \<Rightarrow> nat \<Rightarrow> library_db \<Rightarrow> py_error + data list \<times> library_db" where
  "receive_issues sv ts p status 0 db = Inr ([], db)"
| "receive_issues sv ts p status (Suc n) db =
     (case dict_get (db_holdings db) p of
        None \<Rightarrow> Inl NotFoundError
      | Some h \<Rightarrow>
          and_then (create_regular_issue sv (ts n) db h status []) (\<lambda>(db, d).
          and_then (receive_issues sv ts p status n db) (\<lambda>(ds, db). Inr (d # ds, db))))"

definition shown :: "data \<Rightarrow> json \<times> json" where
  "shown d = (field d ''enumerationAndChronology'', item_issue d ''expected_date'')"

lemma receive_issues_preview_loop:
  assumes "receive_issues sv ts p status n db = Inr (ds, db')"
    and "dict_get (db_holdings db) p = Some h" "h_pid h = p" "h_patterns h = Some ps"
  shows "\<exists>texts ps'. preview_loop (add_delta sv) (render sv) n ps = Inr (texts, ps')
           \<and> map shown ds = map (\<lambda>(t, e). (JStr t, JDate e)) texts"
  using assms
proof (induction n arbitrary: db ds h ps)
  case 0
  then show ?case by simp
next
  case (Suc n)
  from Suc.prems obtain db1 d ds1 where c: "create_regular_issue sv (ts n) db h status [] = Inr (db1, d)"
      and rest: "receive_issues sv ts p status n db1 = Inr (ds1, db')" "ds = d # ds1"
    by (auto simp: and_then_eq_Inr)
  from receive_step [OF c _ Suc.prems(4)] Suc.prems(2,3) obtain label e ps1 h1
    where s: "get_next_issue_display_text (render sv) ps = Inr (label, e)"
      "increment_next_prediction (add_delta sv) ps = Inr ps1"
      "field d ''enumerationAndChronology'' = JStr label" "item_issue d ''expected_date'' = JDate e"
      "dict_get (db_holdings db1) p = Some h1" "h_patterns h1 = Some ps1" "h_pid h1 = p"
    by metis
  from Suc.IH [OF rest(1) s(5,7,6)] s rest(2) show ?case by (auto simp: shown_def)
qed

lemma receive_needs_values:
  assumes "receive_issues sv ts p status (Suc n) db = Inr (ds, db')"
    and "dict_get (db_holdings db) p = Some h" "h_pid h = p" "h_patterns h = Some ps"
  shows "pattern_values ps \<noteq> []"
proof -
  from assms(1,2) obtain db1 d where "create_regular_issue sv (ts n) db h status [] = Inr (db1, d)"
    by (auto simp: and_then_eq_Inr)
  from receive_step [OF this _ assms(4)] assms(2,3) show ?thesis by metis
qed

section \<open>Dates of the preview\<close>

text \<open>The documented sum of a time and a \<open>relativedelta\<close> of days and hours.\<close>

definition plus_days_hours :: "delta \<Rightarrow> stamp \<Rightarrow> stamp" where
  "plus_days_hours step s =
     (let t = us s + d_hours step * 3600000000 in
      \<lparr>day = day s + d_days step + t div us_per_day, us = t mod us_per_day\<rparr>)"

lemma preview_dates:
  assumes "preview_loop ad rd n ps = Inr (ts, ps')"
    and "frequency ps = Some f" "f \<noteq> []" "dict_get frequencies f = Some step" "next_expected_date ps = Some d"
    and "\<And>d. day (ad \<lparr>day = d, us = 0\<rparr> step) = d + k"
  shows "map snd ts = map (\<lambda>i. d + k * int i) [0..<n]"
  using assms(1,2,5)
proof (induction n arbitrary: ps ts d)
  case 0
  then show ?case by simp
next
  case (Suc n)
  from Suc.prems obtain t ps1 ts1 where t: "get_next_issue_display_text rd ps = Inr t"
      and i: "increment_next_prediction ad ps = Inr ps1" and l: "preview_loop ad rd n ps1 = Inr (ts1, ps')"
      and ts: "ts = t # ts1"
    by (auto simp: and_then_eq_Inr)
  from t Suc.prems(3) have "snd t = d" by (auto simp: get_next_issue_display_text_def and_then_eq_Inr)
  moreover from i Suc.prems(2,3) assms(3,4,6) have "frequency ps1 = Some f" "next_expected_date ps1 = Some (d + k)"
    by (auto simp: increment_next_prediction_def increment_date_def and_then_eq_Inr Let_def split: if_splits)
  from Suc.IH [OF l this] have "map snd ts1 = map (\<lambda>i. d + k + k * int i) [0..<n]" .
  moreover have "map (\<lambda>i. d + k * int i) [0..<Suc n] = d # map (\<lambda>i. d + k + k * int i) [0..<n]"
    by (simp add: upt_conv_Cons map_Suc_upt [symmetric] algebra_simps comp_def del: upt_Suc)
  ultimately show ?case using ts by simp
qed

section \<open>The properties\<close>

definition volume_and_issue :: pattern where
  "volume_and_issue =
     \<lparr>pattern_name = ''first_chronology'',
      levels = [\<lparr>number_name = Some ''Volume'', list_name = None, starting_value = Some 1, completion_value = None,
                 mapping_values = [], next_value = Some 7\<rparr>,
                \<lparr>number_name = None, list_name = Some ''Month'', starting_value = None, completion_value = None,
                 mapping_values = [''winter'', ''spring'', ''summer'', ''autumn''], next_value = Some 3\<rparr>]\<rparr>"

definition sample_patterns :: patterns where
  "sample_patterns =
     \<lparr>template = ''Vol. {{first_chronology.Volume}}'', frequency = Some ''rdafr:1002'', next_expected_date = Some 737425,
      pattern_values = [volume_and_issue]\<rparr>"

definition sample_render :: "string \<Rightarrow> issue_data \<Rightarrow> int \<Rightarrow> string" where
  "sample_render t d e = concat (map (\<lambda>(n, l). concat (map (\<lambda>(k, v). v @ '' '') l)) d)"

text \<open>C14. The numbers of a pattern are a counter: after \<open>n\<close> increments a pattern whose levels are within
  their bounds shows its number plus \<open>n\<close>, modulo the number of issues of a full turn when the top level has
  a last value.\<close>

theorem prediction_counts:
  "pattern_ok p \<Longrightarrow>
   pattern_number ((increment_pattern ^^ n) p) = tick (pattern_capacity p) n (pattern_number p)"
  by (rule pattern_counter.number_steps)

theorem prediction_counts_witness:
  "pattern_number ((increment_pattern ^^ 5) volume_and_issue) = 31"
proof -
  have "pattern_ok volume_and_issue" "tick (pattern_capacity volume_and_issue) 5 (pattern_number volume_and_issue) = 31"
    by code_simp+
  with prediction_counts [of volume_and_issue 5] show ?thesis by simp
qed



definition sample_holding :: holding where
  "sample_holding =
     \<lparr>h_pid = ''4'',
      h_data = [(''holdings_type'', JStr ''serial''), (''document'', get_ref ''doc'' ''1''), (''location'', get_ref ''loc'' ''2''),
                (''circulation_category'', get_ref ''itty'' ''1''), (''organisation'', get_ref ''org'' ''1''),
                (''library'', get_ref ''lib'' ''1'')],
      h_patterns = Some sample_patterns\<rparr>"

definition sample_services :: services where
  "sample_services =
     \<lparr>item_schema_ok = (\<lambda>d. True), holding_schema_ok = (\<lambda>h. True), item_pids_exist = (\<lambda>d. None),
      document_exists = (\<lambda>p. p = ''1''), barcode_taken = (\<lambda>p b. False),
      org_lib_of_location = (\<lambda>l. if l = ''2'' then Some (''1'', ''1'') else None),
      search_holding = (\<lambda>d l i t. None), add_delta = (\<lambda>s step. plus_days_hours step s), render = sample_render\<rparr>"

definition sample_clocks :: "nat \<Rightarrow> clocks" where
  "sample_clocks n =
     \<lparr>now_utc = \<lparr>day = 737430, us = int n\<rparr>, now_local = \<lparr>day = 737430, us = int n\<rparr>, clock_barcode = ''f-'' @ digits n\<rparr>"

definition sample_db :: library_db where
  "sample_db = \<lparr>db_holdings = [(''4'', sample_holding)], db_items = [], last_pid = 10\<rparr>"

text \<open>C16. The preview tells what will be received: when \<open>n\<close> regular issues of a holding are received one after
  another, their texts and expected dates are those of the first \<open>n\<close> issues of its preview.\<close>

theorem received_as_previewed:
  assumes "receive_issues sv ts p status n db = Inr (ds, db')"
    and "dict_get (db_holdings db) p = Some h" "h_pid h = p"
  shows "\<exists>texts. prediction_issues_preview (add_delta sv) (render sv) n h = Inr texts
           \<and> map shown ds = map (\<lambda>(t, e). (JStr t, JDate e)) texts"
proof (cases n)
  case 0
  with assms show ?thesis by (auto simp: prediction_issues_preview_def split: option.splits)
next
  case (Suc m)
  with assms obtain db1 d where c: "create_regular_issue sv (ts m) db h status [] = Inr (db1, d)"
    by (auto simp: and_then_eq_Inr)
  obtain ps where ps: "h_patterns h = Some ps" by (rule create_regular_issue_cases [OF c])
  from receive_needs_values [OF assms(1) [unfolded Suc] assms(2,3) ps]
    receive_issues_preview_loop [OF assms ps]
  show ?thesis by (auto simp: prediction_issues_preview_def ps)
qed

theorem received_as_previewed_witness:
  "\<exists>ds db'. receive_issues sample_services sample_clocks ''4'' ''late'' 2 sample_db = Inr (ds, db')
     \<and> map shown ds = [(JStr ''7 summer '', JDate 737425), (JStr ''7 autumn '', JDate 737427)]"
proof -
  have "\<not> (case receive_issues sample_services sample_clocks ''4'' ''late'' 2 sample_db of Inl e \<Rightarrow> True | Inr r \<Rightarrow> False)"
    by code_simp
  then obtain ds db' where r: "receive_issues sample_services sample_clocks ''4'' ''late'' 2 sample_db = Inr (ds, db')"
    by (cases "receive_issues sample_services sample_clocks ''4'' ''late'' 2 sample_db") auto
  have h: "dict_get (db_holdings sample_db) ''4'' = Some sample_holding" "h_pid sample_holding = ''4''"
    by (simp_all add: sample_db_def sample_holding_def dict_get_def)
  have "prediction_issues_preview (add_delta sample_services) (render sample_services) 2 sample_holding
      = Inr [(''7 summer '', 737425), (''7 autumn '', 737427)]"
    by code_simp
  with received_as_previewed [OF r h] r show ?thesis by auto
qed

text \<open>C17. Whatever the caller sends, an issue that is received belongs to the holding that receives it: its
  holding, type, location, document and circulation category are those of the holding.\<close>

theorem received_issue_belongs_to_holding:
  "create_regular_issue sv t db h status item = Inr (db', d) \<Longrightarrow>
   is_serial h \<and> field d ''type'' = JStr ''issue'' \<and> field d ''holding'' = get_ref ''hold'' (h_pid h)
   \<and> field d ''location'' = field (h_data h) ''location'' \<and> field d ''document'' = field (h_data h) ''document''
   \<and> field d ''item_type'' = field (h_data h) ''circulation_category''"
  by (erule create_regular_issue_cases) (use prepared_forced in \<open>fastforce simp: same_item_defs\<close>)

theorem received_issue_belongs_to_holding_witness:
  "\<exists>db' d. create_regular_issue sample_services (sample_clocks 0) sample_db sample_holding ''received''
       [(''location'', get_ref ''loc'' ''9'')] = Inr (db', d) \<and> field d ''location'' = get_ref ''loc'' ''2''"
proof -
  let ?r = "create_regular_issue sample_services (sample_clocks 0) sample_db sample_holding ''received''
    [(''location'', get_ref ''loc'' ''9'')]"
  have "\<not> (case ?r of Inl e \<Rightarrow> True | Inr r \<Rightarrow> False)" by code_simp
  then obtain db' d where r: "?r = Inr (db', d)" by (cases ?r) auto
  moreover have "field (h_data sample_holding) ''location'' = get_ref ''loc'' ''2''" by code_simp
  ultimately show ?thesis using received_issue_belongs_to_holding [OF r] by auto
qed

text \<open>A serial that appears three times a week has a frequency of two days and eight hours, but the time of
  day is lost with every prediction: the issues are predicted two days apart, seven of them in fourteen days
  instead of more than sixteen.\<close>

lemma three_times_a_week_drifts:
  assumes "preview_loop ad rd n ps = Inr (ts, ps')"
    and "frequency ps = Some ''rdafr:1002''" "next_expected_date ps = Some d"
    and "\<And>s step. ad s step = plus_days_hours step s"
  shows "map snd ts = map (\<lambda>i. d + 2 * int i) [0..<n]"
proof -
  have "dict_get frequencies ''rdafr:1002'' = Some (no_delta\<lparr>d_days := 2, d_hours := 8\<rparr>)" by code_simp
  from preview_dates [OF assms(1,2) _ this assms(3)] show ?thesis
    by (simp add: assms(4) plus_days_hours_def no_delta_def us_per_day_def)
qed

lemma three_times_a_week_drifts_witness:
  "\<exists>ts ps'. preview_loop (\<lambda>s step. plus_days_hours step s) sample_render 8 sample_patterns = Inr (ts, ps')
     \<and> snd (ts ! 7) = 737425 + 14"
proof -
  let ?r = "preview_loop (\<lambda>s step. plus_days_hours step s) sample_render 8 sample_patterns"
  have "\<not> (case ?r of Inl e \<Rightarrow> True | Inr r \<Rightarrow> False)" by code_simp
  then obtain ts ps' where r: "?r = Inr (ts, ps')" by (cases ?r) auto
  have "frequency sample_patterns = Some ''rdafr:1002''" "next_expected_date sample_patterns = Some 737425"
    by (simp_all add: sample_patterns_def)
  from three_times_a_week_drifts [OF r this] have m: "map snd ts = map (\<lambda>i. 737425 + 2 * int i) [0..<8]" by simp
  then have "length ts = 8" by (metis diff_zero length_map length_upt)
  with arg_cong [OF m, of "\<lambda>xs. xs ! 7"] r show ?thesis by simp
qed

end
