(* ===== verification/AcqAccounts.thy ===== *)
theory AcqAccounts
  imports Records "HOL-Library.Char_ord" "HOL-Library.List_Lexorder"
begin

text \<open>
  Acquisition accounts: class \<open>AcqAccount\<close> of \<open>rero_ils/modules/acquisition/acq_accounts/api.py\<close>, its
  extension \<open>ParentAccountDistributionCheck\<close>, its indexer and \<open>sort_accounts_as_tree\<close>.

  Amounts are whole cents: the code keeps them as floats rounded to two decimals. The state has the
  records of the database and, apart from them, those of the search index: the sums over the children
  of an account are read from the index, which a commit without reindexing leaves behind. What is spent
  on an account itself (encumbrance and expenditure of its order and receipt lines) is an argument.
\<close>

section \<open>Accounts, database and index\<close>

record account =
  account_name :: string
  account_parent :: "string option"
  allocated :: int
  account_budget :: string
  account_library :: string
  encumbrance_exceedance :: int
  expenditure_exceedance :: int

type_synonym accounts = "(string, account) dict"

record accounting =
  stored :: accounts
  indexed :: accounts

definition account_of :: "accounting \<Rightarrow> string \<Rightarrow> account option" where
  "account_of s p = dict_get (stored s) p"

text \<open>The sum of the allocated amounts of the children of an account, over a list of records.\<close>

definition allocated_to_children :: "accounts \<Rightarrow> string \<Rightarrow> int" where
  "allocated_to_children accs p = sum_list (map (allocated \<circ> snd) (filter (\<lambda>(q, a). account_parent a = Some p) accs))"

definition distribution :: "accounting \<Rightarrow> string \<Rightarrow> int" where
  "distribution s p = allocated_to_children (indexed s) p"

definition children_count :: "accounting \<Rightarrow> string \<Rightarrow> nat" where
  "children_count s p = length (filter (\<lambda>(q, a). account_parent a = Some p) (indexed s))"

text \<open>The first component of \<open>remaining_balance\<close>, for the record \<open>a\<close> of the account \<open>p\<close>.\<close>

definition self_balance :: "(string \<Rightarrow> int) \<Rightarrow> accounting \<Rightarrow> string \<Rightarrow> account \<Rightarrow> int" where
  "self_balance spent s p a = allocated a - distribution s p - spent p"

text \<open>\<open>get_exceedance\<close>: a rate in percent of the allocated amount, rounded to the cent as \<open>round\<close> does, half to
  even. In cents and with whole rates the division by 100 is the one that is rounded.\<close>

definition round_half_even :: "int \<Rightarrow> int \<Rightarrow> int" where
  "round_half_even n d =
     (let q = n div d; r = n mod d in
      if 2 * r < d \<or> (2 * r = d \<and> even q) then q else q + 1)"

datatype exceedance_type = ENCUMBRANCE | EXPENDITURE

definition get_exceedance :: "account \<Rightarrow> exceedance_type \<Rightarrow> int" where
  "get_exceedance a t =
     round_half_even
       (allocated a * (case t of ENCUMBRANCE \<Rightarrow> encumbrance_exceedance a | EXPENDITURE \<Rightarrow> expenditure_exceedance a)) 100"

section \<open>The tree of accounts\<close>

text \<open>\<open>get_ancestors\<close> follows the parents as long as they exist. On a cycle the recursion of the code ends in a
  \<open>RecursionError\<close>; here it does when more parents have been followed than there are accounts.\<close>

fun ancestors :: "nat \<Rightarrow> accounting \<Rightarrow> string \<Rightarrow> py_error + string list" where
  "ancestors 0 s p = Inl RecursionError"
| "ancestors (Suc n) s p =
     (case account_of s p of
        None \<Rightarrow> Inr []
      | Some a \<Rightarrow>
          (case account_parent a of
             None \<Rightarrow> Inr []
           | Some q \<Rightarrow>
               (case account_of s q of
                  None \<Rightarrow> Inr []
                | Some b \<Rightarrow> and_then (ancestors n s q) (\<lambda>ps. Inr (q # ps)))))"

definition get_ancestors :: "accounting \<Rightarrow> string \<Rightarrow> py_error + string list" where
  "get_ancestors s p = ancestors (Suc (length (stored s))) s p"

definition depth :: "accounting \<Rightarrow> string \<Rightarrow> py_error + nat" where
  "depth s p = and_then (get_ancestors s p) (\<lambda>ps. Inr (length ps))"

section \<open>Update of an account\<close>

text \<open>\<open>reindex\<close>: the indexer indexes the account, then reindexes its parent, and so on up to the root.\<close>

definition index_accounts :: "string list \<Rightarrow> accounting \<Rightarrow> accounting" where
  "index_accounts ps s =
     fold (\<lambda>p s. case account_of s p of None \<Rightarrow> s | Some a \<Rightarrow> s\<lparr>indexed := dict_set p a (indexed s)\<rparr>) ps s"

definition reindex :: "string \<Rightarrow> accounting \<Rightarrow> py_error + accounting" where
  "reindex p s = and_then (get_ancestors s p) (\<lambda>ps. Inr (index_accounts (p # ps) s))"

text \<open>\<open>ParentAccountDistributionCheck._check_balance\<close> before the record \<open>new\<close> of \<open>p\<close> is committed.\<close>

definition check_balance :: "(string \<Rightarrow> int) \<Rightarrow> accounting \<Rightarrow> string \<Rightarrow> account \<Rightarrow> py_error + unit" where
  "check_balance spent s p new =
     (let original = account_of s p;
          amount_to_check = allocated new - (case original of None \<Rightarrow> 0 | Some a \<Rightarrow> allocated a);
          parent = (case account_parent new of None \<Rightarrow> None
                    | Some q \<Rightarrow> (case account_of s q of None \<Rightarrow> None | Some b \<Rightarrow> Some (q, b))) in
      if amount_to_check > 0 \<and> (case parent of None \<Rightarrow> False | Some (q, b) \<Rightarrow> self_balance spent s q b < amount_to_check)
      then Inl (ValidationError ''Parent account available amount too low'')
      else if amount_to_check < 0 \<and> children_count s p \<noteq> 0
        \<and> (case original of None \<Rightarrow> False | Some a \<Rightarrow> self_balance spent s p a < abs amount_to_check)
      then Inl (ValidationError ''Remaining balance too low'')
      else Inr ())"

text \<open>The schema asks for a non-negative allocated amount.\<close>

definition commit_account :: "(string \<Rightarrow> int) \<Rightarrow> accounting \<Rightarrow> string \<Rightarrow> account \<Rightarrow> py_error + accounting" where
  "commit_account spent s p new =
     and_then (check_balance spent s p new) (\<lambda>_.
       if allocated new < 0 then Inl (ValidationError ''allocated_amount'')
       else Inr (s\<lparr>stored := dict_set p new (stored s)\<rparr>))"

text \<open>Each account is committed on its own: when a later one raises, the earlier ones keep their new amounts.
  The result of a transfer is therefore the state it leaves and, apart from it, the exception.\<close>

type_synonym transfer = "accounting \<times> py_error option"

definition and_also :: "transfer \<Rightarrow> (accounting \<Rightarrow> transfer) \<Rightarrow> transfer" where
  "and_also t f = (case t of (s, None) \<Rightarrow> f s | (s, Some e) \<Rightarrow> (s, Some e))"

definition reindex_account :: "string \<Rightarrow> accounting \<Rightarrow> transfer" where
  "reindex_account p s = (case reindex p s of Inl e \<Rightarrow> (s, Some e) | Inr s' \<Rightarrow> (s', None))"

text \<open>\<open>acc["allocated_amount"] += amount; acc.update(acc, dbcommit=True, reindex=...)\<close>. The code reads the amounts
  before its loops; every loop touches an account once, so that they are those of the database.\<close>

definition add_amount :: "(string \<Rightarrow> int) \<Rightarrow> bool \<Rightarrow> int \<Rightarrow> string \<Rightarrow> accounting \<Rightarrow> transfer" where
  "add_amount spent reindexing amount p s =
     (case account_of s p of
        None \<Rightarrow> (s, Some NotFoundError)
      | Some a \<Rightarrow>
          (case commit_account spent s p (a\<lparr>allocated := allocated a + amount\<rparr>) of
             Inl e \<Rightarrow> (s, Some e)
           | Inr s' \<Rightarrow> if reindexing then reindex_account p s' else (s', None)))"

section \<open>Transfer of funds\<close>

fun add_amounts :: "(string \<Rightarrow> int) \<Rightarrow> bool \<Rightarrow> int \<Rightarrow> string list \<Rightarrow> accounting \<Rightarrow> transfer" where
  "add_amounts spent reindexing amount [] s = (s, None)"
| "add_amounts spent reindexing amount (p # ps) s =
     and_also (add_amount spent reindexing amount p s) (add_amounts spent reindexing amount ps)"

text \<open>\<open>before x xs\<close>: the loop over \<open>xs\<close> that breaks at \<open>x\<close>.\<close>

definition before :: "string \<Rightarrow> string list \<Rightarrow> string list" where
  "before x xs = takeWhile (\<lambda>y. y \<noteq> x) xs"

text \<open>The deepest account that the two chains share. The depths of the common accounts all differ, so that the
  maximum is the first one on the way up.\<close>

definition common_ancestor :: "string list \<Rightarrow> string list \<Rightarrow> string option" where
  "common_ancestor sources targets = find (\<lambda>p. p \<in> set targets) sources"

definition transfer_fund :: "(string \<Rightarrow> int) \<Rightarrow> string \<Rightarrow> string \<Rightarrow> int \<Rightarrow> accounting \<Rightarrow> transfer" where
  "transfer_fund spent source target amount s =
     (case account_of s source of
        None \<Rightarrow> (s, Some NotFoundError)
      | Some a \<Rightarrow>
          if source = target then (s, Some (ValueError ''Cannot transfer fund to myself.''))
          else if self_balance spent s source a < amount
          then (s, Some (ValueError ''Not enough available money from source account.''))
          else case get_ancestors s source of
              Inl e \<Rightarrow> (s, Some e)
            | Inr source_ancestors \<Rightarrow>
                if target \<in> set source_ancestors
                then and_also (add_amounts spent False (- amount) (before target (source # source_ancestors)) s)
                       (reindex_account source)
                else case get_ancestors s target of
                    Inl e \<Rightarrow> (s, Some e)
                  | Inr target_ancestors \<Rightarrow>
                      (case common_ancestor (source # source_ancestors) (target # target_ancestors) of
                         Some common \<Rightarrow>
                           and_also (add_amounts spent True (- amount) (before common (source # source_ancestors)) s)
                             (\<lambda>s. and_also
                               (add_amounts spent False amount (rev (target # before common target_ancestors)) s)
                               (reindex_account target))
                       | None \<Rightarrow>
                           and_also (add_amounts spent True (- amount) (source # source_ancestors) s)
                             (\<lambda>s. and_also (add_amounts spent False amount (rev (target # target_ancestors)) s)
                               (reindex_account target))))"

text \<open>The request \<open>transfer_funds\<close> of the views.\<close>

definition transfer_funds_view ::
  "(string \<Rightarrow> int) \<Rightarrow> (string \<Rightarrow> bool) \<Rightarrow> string \<Rightarrow> string \<Rightarrow> int \<Rightarrow> accounting \<Rightarrow> transfer" where
  "transfer_funds_view spent budget_active source target amount s =
     (case account_of s source of
        None \<Rightarrow> (s, Some (ValueError ''Unable to load source account.''))
      | Some a \<Rightarrow>
          if \<not> budget_active (account_budget a) then (s, Some (ValueError ''Source account is not active.''))
          else case account_of s target of
              None \<Rightarrow> (s, Some (ValueError ''Unable to load target account.''))
            | Some b \<Rightarrow>
                if \<not> budget_active (account_budget b) then (s, Some (ValueError ''Target account is not active.''))
                else if amount < 0 then (s, Some (ValueError ''amount should be a positive number.''))
                else transfer_fund spent source target amount s)"

section \<open>Deletion\<close>

definition account_reasons_not_to_delete ::
  "(string \<Rightarrow> bool) \<Rightarrow> accounting \<Rightarrow> nat \<Rightarrow> nat \<Rightarrow> string \<Rightarrow> account \<Rightarrow> (string \<times> nat) list" where
  "account_reasons_not_to_delete budget_active s order_lines receipts p a =
     (if \<not> budget_active (account_budget a) then [(''rolled_over'', 1)]
      else filter (\<lambda>(k, n). n \<noteq> 0)
        [(''acq_order_lines'', order_lines), (''acq_accounts'', children_count s p), (''acq_receipts'', receipts)])"

section \<open>The accounts as a tree\<close>

text \<open>\<open>sort_accounts_as_tree\<close>: roots by name, each followed by the tree of its children. The recursion of the code
  ends when there are no children; the fuel is the number of accounts.\<close>

definition by_name :: "accounts \<Rightarrow> accounts" where
  "by_name accs = sort_key (account_name \<circ> snd) accs"

definition children_of :: "accounts \<Rightarrow> string \<Rightarrow> accounts" where
  "children_of accs p = by_name (filter (\<lambda>(q, b). account_parent b = Some p) accs)"

fun build_tree :: "nat \<Rightarrow> accounts \<Rightarrow> accounts \<Rightarrow> accounts" where
  "build_tree 0 accs parts = []"
| "build_tree (Suc n) accs parts =
     concat (map (\<lambda>(p, a). (p, a) # build_tree n accs (children_of accs p)) (by_name parts))"

definition sort_accounts_as_tree :: "accounts \<Rightarrow> accounts" where
  "sort_accounts_as_tree accs =
     build_tree (Suc (length accs)) accs (filter (\<lambda>(p, a). account_parent a = None) accs)"

section \<open>Own money\<close>

text \<open>What an account has of its own: its allocated amount without that of its children.\<close>

definition own_amount :: "accounts \<Rightarrow> string \<Rightarrow> int" where
  "own_amount accs p = (case dict_get accs p of None \<Rightarrow> 0 | Some a \<Rightarrow> allocated a) - allocated_to_children accs p"

definition distinct_keys :: "('k, 'v) dict \<Rightarrow> bool" where
  "distinct_keys d \<longleftrightarrow> distinct (map fst d)"

lemma distinct_keys_set [simp]: "distinct_keys d \<Longrightarrow> distinct_keys (dict_set k v d)"
  by (simp add: distinct_keys_def dict_set_def distinct_update)

end
