(* ===== verification/AcqTransfer.thy ===== *)
theory AcqTransfer
  imports AcqAccounts
begin

text \<open>
  What a transfer does to the money of the accounts: the effect of a loop over a chain of parents on the
  own amount of every account, and the conditions under which the loops do not raise.
\<close>

section \<open>Changing one account\<close>

lemma sum_dict_set:
  fixes g :: "'k \<times> 'v \<Rightarrow> int"
  assumes "distinct_keys d" "dict_get d k = Some v"
  shows "sum_list (map g (dict_set k v' d)) = sum_list (map g d) - g (k, v) + g (k, v')"
  using assms by (induction d) (auto simp: distinct_keys_def dict_set_def dict_get_def)

definition shift :: "int \<Rightarrow> string \<Rightarrow> accounts \<Rightarrow> accounts" where
  "shift amount p accs =
     (case dict_get accs p of None \<Rightarrow> accs
      | Some a \<Rightarrow> dict_set p (a\<lparr>allocated := allocated a + amount\<rparr>) accs)"

definition known :: "accounts \<Rightarrow> string \<Rightarrow> bool" where
  "known accs p \<longleftrightarrow> dict_get accs p \<noteq> None"

definition parent_of :: "accounts \<Rightarrow> string \<Rightarrow> string option" where
  "parent_of accs p = (case dict_get accs p of None \<Rightarrow> None | Some a \<Rightarrow> account_parent a)"

lemma known_shift [simp]: "known (shift amount p accs) = known accs"
  by (rule ext) (simp add: known_def shift_def split: option.splits)

lemma parent_of_shift [simp]: "parent_of (shift amount p accs) q = parent_of accs q"
  by (simp add: parent_of_def shift_def split: option.splits)

lemma distinct_keys_shift [simp]: "distinct_keys accs \<Longrightarrow> distinct_keys (shift amount p accs)"
  by (simp add: shift_def split: option.splits)

lemma allocated_to_children_sum:
  "allocated_to_children accs q = sum_list (map (\<lambda>(r, b). if account_parent b = Some q then allocated b else 0) accs)"
  by (induction accs) (auto simp: allocated_to_children_def)

lemma own_amount_shift:
  assumes "distinct_keys accs" "known accs p"
  shows "own_amount (shift amount p accs) q
    = own_amount accs q + (if q = p then amount else 0) - (if parent_of accs p = Some q then amount else 0)"
proof -
  from assms(2) obtain a where a: "dict_get accs p = Some a" by (auto simp: known_def)
  show ?thesis
    using sum_dict_set [OF assms(1) a]
    by (simp add: own_amount_def allocated_to_children_sum shift_def a parent_of_def)
qed

section \<open>Changing a list of accounts\<close>

abbreviation shifts :: "int \<Rightarrow> string list \<Rightarrow> accounts \<Rightarrow> accounts" where
  "shifts amount ps accs \<equiv> fold (shift amount) ps accs"

lemma known_shifts [simp]: "known (shifts amount ps accs) = known accs"
  by (induction ps arbitrary: accs) simp_all

lemma parent_of_shifts [simp]: "parent_of (shifts amount ps accs) q = parent_of accs q"
  by (induction ps arbitrary: accs) simp_all

lemma distinct_keys_shifts [simp]: "distinct_keys accs \<Longrightarrow> distinct_keys (shifts amount ps accs)"
  by (induction ps arbitrary: accs) simp_all

definition children_in :: "accounts \<Rightarrow> string list \<Rightarrow> string \<Rightarrow> nat" where
  "children_in accs ps q = length (filter (\<lambda>p. parent_of accs p = Some q) ps)"

lemma children_in_simps [simp]:
  "children_in accs [] q = 0"
  "children_in accs (p # ps) q = (if parent_of accs p = Some q then 1 else 0) + children_in accs ps q"
  "children_in accs (ps @ qs) q = children_in accs ps q + children_in accs qs q"
  "children_in accs (rev ps) q = children_in accs ps q"
  "children_in (shift amount p accs) ps q = children_in accs ps q"
  "children_in (shifts amount qs accs) ps q = children_in accs ps q"
  by (simp_all add: children_in_def rev_filter [symmetric])

lemma count_list_rev: "count_list (rev xs) x = count_list xs x"
  by (induction xs) simp_all

lemma own_amount_shifts:
  "distinct_keys accs \<Longrightarrow> list_all (known accs) ps \<Longrightarrow>
   own_amount (shifts amount ps accs) q
     = own_amount accs q + amount * int (count_list ps q) - amount * int (children_in accs ps q)"
proof (induction ps arbitrary: accs)
  case Nil
  then show ?case by simp
next
  case (Cons p ps)
  from Cons.IH [of "shift amount p accs"] Cons.prems
  have "own_amount (shifts amount (p # ps) accs) q
      = own_amount (shift amount p accs) q + amount * int (count_list ps q) - amount * int (children_in accs ps q)"
    by simp
  with own_amount_shift [of accs p amount q] Cons.prems show ?case
    by (cases "q = p"; cases "parent_of accs p = Some q") (simp_all add: algebra_simps)
qed

section \<open>Chains of parents\<close>

text \<open>\<open>linked accs ps\<close>: each account of the list is the parent of the one before it.\<close>

fun linked :: "accounts \<Rightarrow> string list \<Rightarrow> bool" where
  "linked accs (p # q # ps) = (parent_of accs p = Some q \<and> linked accs (q # ps))"
| "linked accs ps = True"

lemma linked_append: "linked accs (ps @ qs) \<Longrightarrow> linked accs ps"
  by (induction accs ps rule: linked.induct) auto

lemma linked_middle: "linked accs (ps @ [p, q] @ qs) \<Longrightarrow> parent_of accs p = Some q"
  by (induction ps rule: induct_list012) auto

text \<open>Along a chain, what an account gives to its child it gets from its parent: only the ends are left.\<close>

lemma chain_telescopes:
  "linked accs (p # ps) \<Longrightarrow>
   int (count_list (p # ps) q) - int (children_in accs (p # ps) q)
     = (if q = p then 1 else 0) - (if parent_of accs (last (p # ps)) = Some q then 1 else 0)"
proof (induction ps arbitrary: p)
  case Nil
  then show ?case by simp
next
  case (Cons r ps)
  from Cons.prems have r: "parent_of accs p = Some r" "linked accs (r # ps)" by simp_all
  have "count_list (p # r # ps) q = (if q = p then 1 else 0) + count_list (r # ps) q"
    "children_in accs (p # r # ps) q = (if q = r then 1 else 0) + children_in accs (r # ps) q"
    "last (p # r # ps) = last (r # ps)"
    using r(1) by auto
  with Cons.IH [OF r(2)] show ?case
    by (simp del: count_list.simps children_in_simps last.simps split: if_splits)
qed

lemma own_amount_chain:
  assumes "distinct_keys accs" "list_all (known accs) (p # ps)" "linked accs (p # ps)"
  shows "own_amount (shifts amount (p # ps) accs) q
    = own_amount accs q + (if q = p then amount else 0)
      - (if parent_of accs (last (p # ps)) = Some q then amount else 0)"
proof -
  have "own_amount (shifts amount (p # ps) accs) q
      = own_amount accs q + amount * (int (count_list (p # ps) q) - int (children_in accs (p # ps) q))"
    by (simp only: own_amount_shifts [OF assms(1,2)] right_diff_distrib add_diff_eq)
  also have "\<dots> = own_amount accs q + amount * ((if q = p then 1 else 0)
      - (if parent_of accs (last (p # ps)) = Some q then 1 else 0))"
    by (simp only: chain_telescopes [OF assms(3)])
  also have "\<dots> = own_amount accs q + (if q = p then amount else 0)
      - (if parent_of accs (last (p # ps)) = Some q then amount else 0)"
    by (cases "q = p"; cases "parent_of accs (last (p # ps)) = Some q") (simp_all only: if_True if_False, simp_all)
  finally show ?thesis .
qed

lemma own_amount_shifts_rev:
  assumes "distinct_keys accs" "list_all (known accs) ps"
  shows "own_amount (shifts amount (rev ps) accs) q = own_amount (shifts amount ps accs) q"
proof -
  have "list_all (known accs) (rev ps)" using assms(2) by (simp add: list_all_iff)
  from own_amount_shifts [OF assms(1) this, of amount q] own_amount_shifts [OF assms, of amount q]
  show ?thesis by (simp only: count_list_rev children_in_simps(4))
qed

section \<open>The loops of a transfer\<close>

lemma and_also_eq: "and_also t f = (s', None) \<longleftrightarrow> (\<exists>s. t = (s, None) \<and> f s = (s', None))"
  by (cases t; cases "snd t") (auto simp: and_also_def)

lemma account_of_known: "known (stored s) p \<longleftrightarrow> (\<exists>a. account_of s p = Some a)"
  by (auto simp: known_def account_of_def)

lemma stored_index_accounts [simp]: "stored (index_accounts ps s) = stored s"
proof (induction ps arbitrary: s)
  case Nil
  then show ?case by (simp add: index_accounts_def)
next
  case (Cons p ps)
  have "index_accounts (p # ps) s
      = index_accounts ps (case account_of s p of None \<Rightarrow> s | Some a \<Rightarrow> s\<lparr>indexed := dict_set p a (indexed s)\<rparr>)"
    by (simp add: index_accounts_def)
  then show ?case by (simp add: Cons split: option.splits)
qed

lemma stored_reindex_account [simp]: "stored (fst (reindex_account p s)) = stored s"
  by (cases "get_ancestors s p") (simp_all add: reindex_account_def reindex_def)

lemma add_amount_returns:
  assumes "add_amount spent r amount p s = (s', None)"
  shows "known (stored s) p \<and> stored s' = shift amount p (stored s)"
proof -
  from assms obtain a where a: "account_of s p = Some a" by (auto simp: add_amount_def split: option.splits)
  let ?a = "a\<lparr>allocated := allocated a + amount\<rparr>"
  from assms a obtain s1 where c: "commit_account spent s p ?a = Inr s1"
    and s': "s' = s1 \<or> reindex_account p s1 = (s', None)"
    by (auto simp: add_amount_def split: sum.splits if_splits)
  from c have "stored s1 = dict_set p ?a (stored s)"
    by (auto simp: commit_account_def and_then_eq_Inr split: if_splits)
  moreover from s' have "stored s' = stored s1"
    using stored_reindex_account [of p s1] by (metis fst_conv)
  ultimately show ?thesis using a by (simp add: account_of_known shift_def account_of_def [symmetric])
qed

lemma add_amounts_returns:
  "add_amounts spent r amount ps s = (s', None) \<Longrightarrow>
   list_all (known (stored s)) ps \<and> stored s' = shifts amount ps (stored s)"
proof (induction ps arbitrary: s)
  case Nil
  then show ?case by simp
next
  case (Cons p ps)
  from Cons.prems obtain s1 where s1: "add_amount spent r amount p s = (s1, None)"
    and rest: "add_amounts spent r amount ps s1 = (s', None)"
    by (auto simp: and_also_eq)
  from add_amount_returns [OF s1] Cons.IH [OF rest] show ?case by (simp add: list_all_iff)
qed

section \<open>Ancestors\<close>

lemma ancestors_linked:
  "ancestors n s p = Inr ps \<Longrightarrow>
   linked (stored s) (p # ps) \<and> (known (stored s) p \<longrightarrow> list_all (known (stored s)) ps)
   \<and> (\<forall>q. parent_of (stored s) (last (p # ps)) = Some q \<longrightarrow> \<not> known (stored s) q)"
proof (induction n arbitrary: p ps)
  case 0
  then show ?case by simp
next
  case (Suc n)
  show ?case
  proof (cases "account_of s p")
    case None
    with Suc.prems show ?thesis by (auto simp: parent_of_def account_of_def known_def)
  next
    case (Some a)
    show ?thesis
    proof (cases "account_parent a")
      case None
      with Some Suc.prems show ?thesis by (auto simp: parent_of_def account_of_def)
    next
      case (Some q)
      note a = \<open>account_of s p = Some a\<close> Some
      show ?thesis
      proof (cases "account_of s q")
        case None
        with a Suc.prems show ?thesis by (auto simp: parent_of_def account_of_def known_def)
      next
        case (Some b)
        with a Suc.prems obtain qs where qs: "ancestors n s q = Inr qs" "ps = q # qs"
          by (auto simp: and_then_eq_Inr)
        from Suc.IH [OF qs(1)] qs(2) a Some show ?thesis
          by (auto simp: parent_of_def account_of_def known_def)
      qed
    qed
  qed
qed

lemmas get_ancestors_linked = ancestors_linked [where n = "Suc (length (stored s))" and s = s for s, folded get_ancestors_def]

section \<open>The three cases of a transfer\<close>

lemma before_split: "c \<in> set xs \<Longrightarrow> \<exists>r. xs = before c xs @ c # r"
  by (induction xs) (auto simp: before_def)

lemma before_linked:
  assumes "linked accs xs" "c \<in> set xs" "before c xs = p # ps"
  shows "linked accs (p # ps) \<and> parent_of accs (last (p # ps)) = Some c"
proof -
  from before_split [OF assms(2)] assms(3) obtain r where xs: "xs = (p # ps) @ c # r" by auto
  have "p # ps = butlast (p # ps) @ [last (p # ps)]" by simp
  with xs have "xs = butlast (p # ps) @ [last (p # ps), c] @ r" by (metis append.assoc append_Cons append_Nil)
  with linked_middle assms(1) have "parent_of accs (last (p # ps)) = Some c" by metis
  moreover from linked_append assms(1) xs have "linked accs (p # ps)" by metis
  ultimately show ?thesis by simp
qed

text \<open>Both directions of a loop from \<open>p\<close> up to an account below \<open>c\<close>.\<close>

lemma loop_up:
  assumes "add_amounts spent r amount (before c (p # ps)) s = (s', None)"
    and "distinct_keys (stored s)" "linked (stored s) (p # ps)" "c \<in> set (p # ps)"
  shows "own_amount (stored s') q
    = own_amount (stored s) q + (if q = p then amount else 0) - (if q = c then amount else 0)"
proof (cases "p = c")
  case True
  with assms(1) show ?thesis by (simp add: before_def)
next
  case False
  then obtain ps' where b: "before c (p # ps) = p # ps'" by (simp add: before_def)
  from before_linked [OF assms(3,4) b] add_amounts_returns [OF assms(1)] b
    own_amount_chain [OF assms(2), of p ps' amount q]
  show ?thesis by auto
qed

lemma loop_down:
  assumes "add_amounts spent r amount (rev (p # before c ps)) s = (s', None)"
    and "distinct_keys (stored s)" "linked (stored s) (p # ps)" "c \<in> set ps" "p \<noteq> c"
  shows "own_amount (stored s') q
    = own_amount (stored s) q + (if q = p then amount else 0) - (if q = c then amount else 0)"
proof -
  from assms(5) have b: "before c (p # ps) = p # before c ps" by (simp add: before_def)
  from add_amounts_returns [OF assms(1)] have k: "list_all (known (stored s)) (p # before c ps)"
    and s': "stored s' = shifts amount (rev (p # before c ps)) (stored s)"
    by (simp_all add: list_all_iff)
  from before_linked [OF assms(3) _ b] assms(4) have "linked (stored s) (p # before c ps)"
    and "parent_of (stored s) (last (p # before c ps)) = Some c"
    by simp_all
  with own_amount_shifts_rev [OF assms(2) k] own_amount_chain [OF assms(2) k, of amount q] s'
  show ?thesis by auto
qed

text \<open>A loop over all the ancestors changes nothing but the first account.\<close>

lemma loop_all:
  assumes "stored s' = shifts amount ps' (stored s)" "ps' = p # ps \<or> ps' = rev (p # ps)"
    and "distinct_keys (stored s)" "list_all (known (stored s)) (p # ps)" "linked (stored s) (p # ps)"
    and "\<forall>q. parent_of (stored s) (last (p # ps)) = Some q \<longrightarrow> \<not> known (stored s) q" "known (stored s) q"
  shows "own_amount (stored s') q = own_amount (stored s) q + (if q = p then amount else 0)"
proof -
  from assms(2) own_amount_shifts_rev [OF assms(3,4)]
  have "own_amount (stored s') q = own_amount (shifts amount (p # ps) (stored s)) q"
    unfolding assms(1) by metis
  with own_amount_chain [OF assms(3,4,5), of amount q] assms(6,7) show ?thesis by auto
qed

lemma linked_stored: "stored s' = shifts amount ps (stored s) \<Longrightarrow> linked (stored s') qs = linked (stored s) qs"
  by (induction "stored s" qs rule: linked.induct) auto

lemma reindex_account_returns: "reindex_account p s = (s', e) \<Longrightarrow> stored s' = stored s"
  using stored_reindex_account [of p s] by (metis fst_conv)

lemma common_ancestor_in: "common_ancestor xs ys = Some c \<Longrightarrow> c \<in> set xs \<and> c \<in> set ys"
  by (auto simp: common_ancestor_def find_Some_iff)

lemma transfer_fund_own_amount:
  assumes t: "transfer_fund spent source target amount s = (s', None)"
    and d: "distinct_keys (stored s)" and q: "known (stored s) q"
  shows "own_amount (stored s') q
    = own_amount (stored s) q + (if q = target then amount else 0) - (if q = source then amount else 0)"
proof -
  from t obtain a sa where a: "account_of s source = Some a" and ne: "source \<noteq> target"
    and sa: "get_ancestors s source = Inr sa"
    by (auto simp: transfer_fund_def split: option.splits sum.splits if_splits)
  have ks: "known (stored s) source" using a by (simp add: account_of_known)
  note ls = get_ancestors_linked [OF sa]
  show ?thesis
  proof (cases "target \<in> set sa")
    case True
    with t a ne sa obtain s1 where s1: "add_amounts spent False (- amount) (before target (source # sa)) s = (s1, None)"
      and f: "reindex_account source s1 = (s', None)"
      by (auto simp: transfer_fund_def and_also_eq split: if_splits)
    from loop_up [OF s1 d] ls True reindex_account_returns [OF f] ne show ?thesis by auto
  next
    case False
    with t a ne sa obtain ta where ta: "get_ancestors s target = Inr ta"
      by (auto simp: transfer_fund_def split: sum.splits if_splits)
    note lt = get_ancestors_linked [OF ta]
    show ?thesis
    proof (cases "common_ancestor (source # sa) (target # ta)")
      case (Some c)
      with t a ne sa ta False obtain s1 s2
        where s1: "add_amounts spent True (- amount) (before c (source # sa)) s = (s1, None)"
          and s2: "add_amounts spent False amount (rev (target # before c ta)) s1 = (s2, None)"
          and f: "reindex_account target s2 = (s', None)"
        by (auto simp: transfer_fund_def and_also_eq split: if_splits)
      from common_ancestor_in [OF Some] False ne have c: "c \<in> set (source # sa)" "c \<in> set ta" "target \<noteq> c"
        by auto
      from add_amounts_returns [OF s1] have st: "stored s1 = shifts (- amount) (before c (source # sa)) (stored s)" by simp
      have d1: "distinct_keys (stored s1)" using d by (simp add: st)
      have "linked (stored s1) (target # ta)" using lt by (simp only: linked_stored [OF st])
      from loop_up [OF s1 d _ c(1), of q] ls loop_down [OF s2 d1 this c(2,3), of q] reindex_account_returns [OF f]
      show ?thesis by simp
    next
      case None
      with t a ne sa ta False obtain s1 s2
        where s1: "add_amounts spent True (- amount) (source # sa) s = (s1, None)"
          and s2: "add_amounts spent False amount (rev (target # ta)) s1 = (s2, None)"
          and f: "reindex_account target s2 = (s', None)"
        by (auto simp: transfer_fund_def and_also_eq split: if_splits)
      from add_amounts_returns [OF s1] have st: "stored s1 = shifts (- amount) (source # sa) (stored s)"
        and k: "list_all (known (stored s)) (source # sa)" by simp_all
      from add_amounts_returns [OF s2] have st2: "stored s2 = shifts amount (rev (target # ta)) (stored s1)"
        and k2: "list_all (known (stored s1)) (target # ta)" by (simp_all add: list_all_iff)
      have l1: "linked (stored s1) (target # ta)" using lt by (simp only: linked_stored [OF st])
      have p1: "\<forall>q. parent_of (stored s1) (last (target # ta)) = Some q \<longrightarrow> \<not> known (stored s1) q"
        using lt by (auto simp only: st parent_of_shifts known_shifts)
      have d1: "distinct_keys (stored s1)" "known (stored s1) q" using d q by (simp_all add: st)
      have "own_amount (stored s1) q = own_amount (stored s) q + (if q = source then - amount else 0)"
        using loop_all [OF st _ d k] ls q by simp
      moreover have "own_amount (stored s2) q = own_amount (stored s1) q + (if q = target then amount else 0)"
        using loop_all [OF st2 _ d1(1) k2 l1 p1 d1(2)] by simp
      ultimately show ?thesis using reindex_account_returns [OF f] by simp
    qed
  qed
qed

section \<open>When the fuel of the ancestors is enough\<close>

lemma ancestors_more: "ancestors n s p = Inr ps \<Longrightarrow> n \<le> m \<Longrightarrow> ancestors m s p = Inr ps"
proof (induction n arbitrary: m p ps)
  case 0
  then show ?case by simp
next
  case (Suc n)
  from Suc.prems(2) obtain k where k: "m = Suc k" "n \<le> k" by (cases m) auto
  have step: "ancestors n s q = Inr qs \<Longrightarrow> ancestors k s q = Inr qs" for q qs
    by (rule Suc.IH [OF _ k(2)])
  from Suc.prems(1) show ?case
    unfolding k(1) ancestors.simps by (auto simp: and_then_eq_Inr split: option.splits dest: step)
qed

lemma ancestors_unique: "ancestors n s p = Inr ps \<Longrightarrow> ancestors m s p = Inr qs \<Longrightarrow> ps = qs"
  using ancestors_more [of n s p ps "max n m"] ancestors_more [of m s p qs "max n m"] by simp

lemma ancestors_tail: "ancestors (Suc n) s p = Inr zs \<Longrightarrow> zs \<noteq> [] \<Longrightarrow> \<exists>r ps. zs = r # ps \<and> ancestors n s r = Inr ps"
  by (auto simp: and_then_eq_Inr split: option.splits)

lemma ancestors_suffix: "ancestors n s p = Inr (xs @ q # ys) \<Longrightarrow> \<exists>m\<le>n. ancestors m s q = Inr ys"
proof (induction n arbitrary: p xs)
  case 0
  then show ?case by simp
next
  case (Suc n)
  from ancestors_tail [OF Suc.prems] obtain r ps where r: "xs @ q # ys = r # ps" "ancestors n s r = Inr ps"
    by auto
  show ?case
  proof (cases xs)
    case Nil
    with r show ?thesis by (intro exI [of _ n]) simp
  next
    case (Cons x xs')
    with r Suc.IH [of r xs'] show ?thesis by (auto intro: le_SucI)
  qed
qed

lemma get_ancestors_of_ancestor:
  "get_ancestors s p = Inr ps \<Longrightarrow> q \<in> set (p # ps) \<Longrightarrow> \<exists>qs. get_ancestors s q = Inr qs"
proof -
  assume p: "get_ancestors s p = Inr ps" and q: "q \<in> set (p # ps)"
  show ?thesis
  proof (cases "q = p")
    case False
    with q obtain xs ys where "ps = xs @ q # ys" by (metis set_ConsD split_list)
    with p ancestors_suffix [of _ s p xs q ys] show ?thesis
      unfolding get_ancestors_def using ancestors_more by metis
  qed (use p in simp)
qed

lemma ancestors_distinct: "ancestors n s p = Inr ps \<Longrightarrow> distinct (p # ps)"
proof (induction ps arbitrary: n p)
  case Nil
  then show ?case by simp
next
  case (Cons q qs)
  have "p \<notin> set (q # qs)"
  proof
    assume "p \<in> set (q # qs)"
    then obtain xs ys where "q # qs = xs @ p # ys" by (metis split_list)
    with Cons.prems ancestors_suffix obtain m where "ancestors m s p = Inr ys" by metis
    with Cons.prems ancestors_unique \<open>q # qs = xs @ p # ys\<close> have "ys = xs @ p # ys" by metis
    then have "length ys = length (xs @ p # ys)" by simp
    then show False by simp
  qed
  moreover obtain m where "ancestors m s q = Inr qs" using ancestors_suffix [of n s p "[]"] Cons.prems by auto
  ultimately show ?case using Cons.IH by auto
qed

text \<open>An account tree in which every account lies deeper than its parent has no cycle: \<open>get_ancestors\<close>
  returns, since a chain of distinct accounts is no longer than the database.\<close>

lemma ancestors_too_long:
  "ancestors n s p = Inl e \<Longrightarrow> known (stored s) p \<Longrightarrow>
   \<exists>ps. length ps = n \<and> linked (stored s) (p # ps) \<and> list_all (known (stored s)) (p # ps)"
proof (induction n arbitrary: p)
  case 0
  then show ?case by (intro exI [of _ "[]"]) simp
next
  case (Suc n)
  then obtain a q b where q: "account_of s p = Some a" "account_parent a = Some q" "account_of s q = Some b"
      "ancestors n s q = Inl e"
    by (auto simp: and_then_eq_Inl split: option.splits)
  then have "known (stored s) q" by (simp add: account_of_known)
  from Suc.IH [OF q(4) this] obtain ps
    where "length ps = n" "linked (stored s) (q # ps)" "list_all (known (stored s)) (q # ps)" by blast
  with q Suc.prems(2) show ?case
    by (intro exI [of _ "q # ps"]) (simp add: parent_of_def account_of_def)
qed

lemma linked_ranked:
  "linked accs (p # ps) \<Longrightarrow> (\<And>x y. parent_of accs x = Some y \<Longrightarrow> rank y < (rank x :: nat)) \<Longrightarrow>
   distinct (p # ps) \<and> list_all (\<lambda>q. rank q < rank p) ps"
proof (induction ps arbitrary: p)
  case Nil
  then show ?case by simp
next
  case (Cons q qs)
  from Cons.prems(1) have "parent_of accs p = Some q" "linked accs (q # qs)" by simp_all
  with Cons.IH [of q] Cons.prems(2) show ?case by (fastforce simp: list_all_iff)
qed

lemma get_ancestors_returns:
  assumes "\<And>x y. parent_of (stored s) x = Some y \<Longrightarrow> rank y < (rank x :: nat)"
  shows "\<exists>ps. get_ancestors s p = Inr ps"
proof (cases "get_ancestors s p")
  case (Inl e)
  show ?thesis
  proof (cases "known (stored s) p")
    case True
    with Inl ancestors_too_long obtain ps where ps: "length ps = Suc (length (stored s))"
      "linked (stored s) (p # ps)" "list_all (known (stored s)) (p # ps)"
      unfolding get_ancestors_def by blast
    from linked_ranked [OF ps(2)] assms have "distinct (p # ps)" by blast
    moreover have "set (p # ps) \<subseteq> fst ` set (stored s)"
      using ps(3) by (auto simp: list_all_iff known_def dict_get_def map_of_eq_None_iff)
    ultimately have "length (p # ps) \<le> card (fst ` set (stored s))"
      by (metis card_mono distinct_card finite_imageI finite_set)
    also have "\<dots> \<le> length (stored s)" by (metis card_length card_image_le finite_set le_trans)
    finally show ?thesis using ps(1) by simp
  next
    case False
    with Inl show ?thesis by (auto simp: get_ancestors_def account_of_known split: option.splits)
  qed
qed simp

end
