(* ===== verification/AcqFunds.thy ===== *)
theory AcqFunds
  imports AcqTransfer
begin

text \<open>
  When a transfer succeeds: with the index in step with the database and no ancestor overdrawn, a transfer
  to an account that is no ancestor of the source runs to its end. The properties of transfers and
  of the account tree follow.
\<close>

section \<open>States in step with the index\<close>

definition in_step :: "accounting \<Rightarrow> bool" where
  "in_step s \<longleftrightarrow> indexed s = stored s"

definition sound_accounts :: "accounts \<Rightarrow> bool" where
  "sound_accounts accs \<longleftrightarrow> distinct_keys accs \<and> list_all (\<lambda>(p, a). 0 \<le> allocated a) accs"

definition balance :: "(string \<Rightarrow> int) \<Rightarrow> accounts \<Rightarrow> string \<Rightarrow> int" where
  "balance spent accs p = own_amount accs p - spent p"

lemma self_balance_in_step:
  "in_step s \<Longrightarrow> account_of s p = Some a \<Longrightarrow> self_balance spent s p a = balance spent (stored s) p"
  by (simp add: self_balance_def balance_def own_amount_def distribution_def in_step_def account_of_def)

lemma allocated_to_children_nonneg: "sound_accounts accs \<Longrightarrow> 0 \<le> allocated_to_children accs p"
  unfolding sound_accounts_def allocated_to_children_def by (induction accs) (auto simp: distinct_keys_def)

lemma sound_dict_set: "sound_accounts accs \<Longrightarrow> 0 \<le> allocated a \<Longrightarrow> sound_accounts (dict_set p a accs)"
proof -
  assume s: "sound_accounts accs" and a: "0 \<le> allocated a"
  have "set (dict_set p a accs) \<subseteq> insert (p, a) (set accs)"
    by (induction accs) (auto simp: dict_set_def)
  with s a show ?thesis by (fastforce simp: sound_accounts_def list_all_iff)
qed

lemma sound_allocated: "sound_accounts accs \<Longrightarrow> dict_get accs p = Some a \<Longrightarrow> 0 \<le> allocated a"
  unfolding sound_accounts_def dict_get_def list_all_iff by (blast dest: map_of_SomeD)

lemma dict_set_same: "dict_get d k = Some v \<Longrightarrow> dict_set k v d = d"
  by (induction d) (auto simp: dict_get_def dict_set_def)

lemma ancestors_parent_of:
  "ancestors (Suc n) s p =
     (case parent_of (stored s) p of None \<Rightarrow> Inr []
      | Some q \<Rightarrow> if known (stored s) q then and_then (ancestors n s q) (\<lambda>ps. Inr (q # ps)) else Inr [])"
  by (auto simp: parent_of_def account_of_def known_def split: option.splits)

lemma ancestors_cong:
  assumes "\<And>q. known (stored s') q = known (stored s) q" "\<And>q. parent_of (stored s') q = parent_of (stored s) q"
  shows "ancestors n s' p = ancestors n s p"
proof (induction n arbitrary: p)
  case 0
  then show ?case by simp
next
  case (Suc n)
  show ?case unfolding ancestors_parent_of by (simp add: assms Suc split: option.splits)
qed

lemma length_dict_set: "dict_get d k \<noteq> None \<Longrightarrow> length (dict_set k v d) = length d"
  by (induction d) (auto simp: dict_get_def dict_set_def)

lemma length_shift [simp]: "length (shift amount p accs) = length accs"
  by (simp add: shift_def length_dict_set split: option.splits)

lemma length_shifts [simp]: "length (shifts amount ps accs) = length accs"
  by (induction ps arbitrary: accs) simp_all

lemma get_ancestors_shifts: "stored s' = shifts amount ps (stored s) \<Longrightarrow> get_ancestors s' p = get_ancestors s p"
  unfolding get_ancestors_def by (subst ancestors_cong [of s' s]) (simp_all del: ancestors.simps)

lemma index_accounts_same: "list_all (\<lambda>p. account_of s p = dict_get (indexed s) p) ps \<Longrightarrow> indexed (index_accounts ps s) = indexed s"
proof (induction ps)
  case Nil
  then show ?case by (simp add: index_accounts_def)
next
  case (Cons p ps)
  have "(case account_of s p of None \<Rightarrow> s | Some a \<Rightarrow> s\<lparr>indexed := dict_set p a (indexed s)\<rparr>) = s"
    using Cons.prems by (auto simp: dict_set_same split: option.splits)
  with Cons show ?case by (simp add: index_accounts_def)
qed

section \<open>The way down in amounts: decreasing with the index\<close>

lemma decrease_one:
  assumes s: "in_step s" "sound_accounts (stored s)" and k: "known (stored s) p" and n: "0 \<le> amount" "0 \<le> spent p"
    and b: "amount \<le> balance spent (stored s) p" and an: "get_ancestors s p = Inr ps"
  shows "\<exists>s'. add_amount spent True (- amount) p s = (s', None) \<and> in_step s' \<and> sound_accounts (stored s')
    \<and> stored s' = shift (- amount) p (stored s)"
proof -
  from k obtain a where a: "account_of s p = Some a" by (auto simp: account_of_known)
  let ?a = "a\<lparr>allocated := allocated a - amount\<rparr>"
  have bal: "self_balance spent s p a = balance spent (stored s) p" using s(1) a by (rule self_balance_in_step)
  have "0 \<le> distribution s p" using s by (simp add: distribution_def in_step_def allocated_to_children_nonneg)
  with b bal n have pos: "0 \<le> allocated a - amount" by (simp add: self_balance_def)
  let ?s = "s\<lparr>stored := dict_set p ?a (stored s)\<rparr>"
  have st: "stored ?s = shifts (- amount) [p] (stored s)" using a by (simp add: shift_def account_of_def)
  have c: "commit_account spent s p ?a = Inr ?s"
    using a b bal n pos by (simp add: commit_account_def check_balance_def Let_def)
  have i: "index_accounts (p # ps) ?s = index_accounts ps (?s\<lparr>indexed := stored ?s\<rparr>)"
    using s(1) by (simp add: index_accounts_def account_of_def in_step_def)
  have "indexed (index_accounts (p # ps) ?s) = stored ?s"
    unfolding i by (subst index_accounts_same) (simp_all add: account_of_def list_all_iff)
  then have "in_step (index_accounts (p # ps) ?s)" by (simp add: in_step_def)
  moreover have "reindex_account p ?s = (index_accounts (p # ps) ?s, None)"
    using get_ancestors_shifts [OF st, of p] an by (simp add: reindex_account_def reindex_def)
  moreover have "sound_accounts (stored ?s)" using s(2) pos by (simp add: sound_dict_set)
  ultimately show ?thesis using a c st by (auto simp: add_amount_def)
qed

lemma balance_shift:
  "sound_accounts accs \<Longrightarrow> known accs p \<Longrightarrow>
   balance spent (shift amount p accs) q
     = balance spent accs q + (if q = p then amount else 0) - (if parent_of accs p = Some q then amount else 0)"
  by (simp add: balance_def own_amount_shift sound_accounts_def)

lemma decrease_chain:
  assumes "in_step s" "sound_accounts (stored s)" "list_all (known (stored s)) (p # ps)"
    and "linked (stored s) (p # ps)" "distinct (p # ps)" "0 \<le> amount" "\<And>q. 0 \<le> spent q"
    and "amount \<le> balance spent (stored s) p" "list_all (\<lambda>q. 0 \<le> balance spent (stored s) q) ps"
    and "list_all (\<lambda>q. \<exists>an. get_ancestors s q = Inr an) (p # ps)"
  shows "\<exists>s'. add_amounts spent True (- amount) (p # ps) s = (s', None) \<and> in_step s' \<and> sound_accounts (stored s')"
  using assms(1-5,8-10)
proof (induction ps arbitrary: p s)
  case Nil
  with decrease_one [of s p amount spent] assms(6,7) show ?case by (fastforce simp: and_also_eq)
next
  case (Cons q qs)
  from Cons.prems decrease_one [of s p amount spent] assms(6,7) obtain s1
    where s1: "add_amount spent True (- amount) p s = (s1, None)" "in_step s1" "sound_accounts (stored s1)"
      "stored s1 = shift (- amount) p (stored s)"
    by fastforce
  have b: "balance spent (stored s1) r = balance spent (stored s) r + (if r = p then - amount else 0)
      + (if r = q then amount else 0)" for r
    using balance_shift [of "stored s" p spent "- amount" r] Cons.prems s1(4) by auto
  have st: "stored s1 = shifts (- amount) [p] (stored s)" using s1(4) by simp
  have "\<exists>s'. add_amounts spent True (- amount) (q # qs) s1 = (s', None) \<and> in_step s' \<and> sound_accounts (stored s')"
  proof (rule Cons.IH [OF s1(2,3)])
    show "list_all (known (stored s1)) (q # qs)" "linked (stored s1) (q # qs)" "distinct (q # qs)"
      using Cons.prems by (simp_all only: linked_stored [OF st]) (simp_all add: s1(4))
    show "amount \<le> balance spent (stored s1) q" using Cons.prems b [of q] by auto
    show "list_all (\<lambda>q. 0 \<le> balance spent (stored s1) q) qs" using Cons.prems b by (auto simp: list_all_iff)
    show "list_all (\<lambda>q. \<exists>an. get_ancestors s1 q = Inr an) (q # qs)"
      using Cons.prems by (simp add: get_ancestors_shifts [OF st])
  qed
  with s1(1) show ?case by (simp add: and_also_def)
qed

section \<open>The way up in amounts: increasing before the index follows\<close>

text \<open>What the check sees of an account during the second loop: the amount of the database and the children of
  the index.\<close>

definition seen_balance :: "(string \<Rightarrow> int) \<Rightarrow> accounting \<Rightarrow> string \<Rightarrow> int" where
  "seen_balance spent s p = (case account_of s p of None \<Rightarrow> 0 | Some a \<Rightarrow> self_balance spent s p a)"

fun descending :: "accounts \<Rightarrow> string list \<Rightarrow> bool" where
  "descending accs (p # q # ps) = (parent_of accs q = Some p \<and> descending accs (q # ps))"
| "descending accs ps = True"

lemma linked_snoc: "linked accs (xs @ [a, b]) \<longleftrightarrow> linked accs (xs @ [a]) \<and> parent_of accs a = Some b"
  by (induction xs rule: induct_list012) auto

lemma linked_rev: "linked accs (rev ps) = descending accs ps"
  by (induction accs ps rule: descending.induct) (auto simp: linked_snoc)

lemma descending_shift [simp]: "descending (shift amount p accs) ps = descending accs ps"
  by (induction accs ps rule: descending.induct) simp_all

lemma increase_one:
  assumes k: "known (stored s) p" and n: "0 \<le> amount" and snd: "sound_accounts (stored s)"
    and par: "\<And>q. parent_of (stored s) p = Some q \<Longrightarrow> known (stored s) q \<Longrightarrow> amount \<le> seen_balance spent s q"
  shows "\<exists>s'. add_amount spent False amount p s = (s', None) \<and> stored s' = shift amount p (stored s)
    \<and> indexed s' = indexed s"
proof -
  from k obtain a where a: "account_of s p = Some a" by (auto simp: account_of_known)
  have "0 \<le> allocated a"
    using sound_allocated [OF snd] a by (simp add: account_of_def)
  moreover have "\<not> self_balance spent s q b < amount" if "account_parent a = Some q" "account_of s q = Some b" for q b
    using par [of q] a that by (simp add: parent_of_def account_of_def known_def seen_balance_def)
  ultimately show ?thesis
    using a n by (auto simp: add_amount_def commit_account_def check_balance_def Let_def shift_def account_of_def
        split: option.splits)
qed

lemma sound_shift: "sound_accounts accs \<Longrightarrow> 0 \<le> amount \<Longrightarrow> sound_accounts (shift amount p accs)"
  using sound_allocated [of accs p] by (fastforce simp: shift_def intro!: sound_dict_set split: option.splits)

lemma seen_balance_shift:
  "indexed s' = indexed s \<Longrightarrow> stored s' = shift amount p (stored s) \<Longrightarrow> known (stored s) p \<Longrightarrow>
   seen_balance spent s' q = seen_balance spent s q + (if q = p then amount else 0)"
  by (auto simp: seen_balance_def self_balance_def distribution_def account_of_def shift_def known_def
      split: option.splits)

lemma increase_chain:
  assumes "list_all (known (stored s)) (p # ps)" "descending (stored s) (p # ps)" "distinct (p # ps)"
    and "0 \<le> amount" "sound_accounts (stored s)"
    and "\<And>q. parent_of (stored s) p = Some q \<Longrightarrow> known (stored s) q \<Longrightarrow> amount \<le> seen_balance spent s q"
    and "list_all (\<lambda>q. 0 \<le> seen_balance spent s q) (butlast (p # ps))"
  shows "\<exists>s'. add_amounts spent False amount (p # ps) s = (s', None)"
  using assms(1-3,5-7)
proof (induction ps arbitrary: p s)
  case Nil
  with increase_one [of s p amount spent] assms(4) show ?case by (fastforce simp: and_also_eq)
next
  case (Cons q qs)
  from Cons.prems increase_one [of s p amount spent] assms(4) obtain s1
    where s1: "add_amount spent False amount p s = (s1, None)" "stored s1 = shift amount p (stored s)"
      "indexed s1 = indexed s"
    by fastforce
  note b = seen_balance_shift [OF s1(3,2), of spent]
  have "\<exists>s'. add_amounts spent False amount (q # qs) s1 = (s', None)"
  proof (rule Cons.IH)
    show "list_all (known (stored s1)) (q # qs)" "descending (stored s1) (q # qs)" "distinct (q # qs)"
      using Cons.prems by (simp_all add: s1(2))
    show "sound_accounts (stored s1)" using Cons.prems assms(4) by (simp add: s1(2) sound_shift)
    show "list_all (\<lambda>q. 0 \<le> seen_balance spent s1 q) (butlast (q # qs))"
      using Cons.prems b assms(4) by (auto simp: list_all_iff)
    show "amount \<le> seen_balance spent s1 r" if "parent_of (stored s1) q = Some r" for r
      using that Cons.prems b [of r] s1(2) by auto
  qed
  with s1(1) show ?case by (simp add: and_also_def)
qed

section \<open>Transfers that succeed\<close>

lemma seen_balance_in_step: "in_step s \<Longrightarrow> known (stored s) p \<Longrightarrow> seen_balance spent s p = balance spent (stored s) p"
  by (auto simp: seen_balance_def account_of_known self_balance_in_step)

lemma second_loop:
  assumes "in_step s" "sound_accounts (stored s)" "0 \<le> amount"
    and "list_all (known (stored s)) (p # ps)" "linked (stored s) (p # ps)" "distinct (p # ps)"
    and "list_all (\<lambda>q. 0 \<le> balance spent (stored s) q) ps"
    and "\<And>q. parent_of (stored s) (last (p # ps)) = Some q \<Longrightarrow> known (stored s) q \<Longrightarrow> amount \<le> balance spent (stored s) q"
  shows "\<exists>s'. add_amounts spent False amount (rev (p # ps)) s = (s', None)"
proof -
  obtain q qs where r: "rev (p # ps) = q # qs" by (cases "rev (p # ps)") auto
  then have q: "q = last (p # ps)" and b: "butlast (q # qs) = rev ps" by (metis last_rev list.sel(1) rev_rev_ident) (metis butlast_snoc r rev.simps(2))
  have "list_all (known (stored s)) (q # qs)" using assms(4) r by (metis list_all_rev)
  moreover have "descending (stored s) (q # qs)" using linked_rev [of "stored s" "q # qs"] assms(5) r by (metis rev_rev_ident)
  moreover have "distinct (q # qs)" using assms(6) r by (metis distinct_rev)
  moreover have "list_all (\<lambda>q. 0 \<le> seen_balance spent s q) (butlast (q # qs))"
    using assms(1,4,7) unfolding b by (auto simp: list_all_iff seen_balance_in_step)
  moreover have "amount \<le> seen_balance spent s c" if "parent_of (stored s) q = Some c" "known (stored s) c" for c
    using assms(8) [of c] that q assms(1) by (simp add: seen_balance_in_step)
  ultimately show ?thesis unfolding r using assms(2,3) by (intro increase_chain) auto
qed

lemma balance_own: "own_amount accs' q = own_amount accs q + x - y \<Longrightarrow> balance spent accs' q = balance spent accs q + x - y"
  by (simp add: balance_def)

lemma reindex_after: "get_ancestors s p = Inr ps \<Longrightarrow> stored s' = shifts amount qs (stored s) \<Longrightarrow> \<exists>s''. reindex_account p s' = (s'', None)"
  by (simp add: reindex_account_def reindex_def get_ancestors_shifts)

lemma first_loop:
  assumes "in_step s" "sound_accounts (stored s)" "0 \<le> amount" "\<And>q. 0 \<le> spent q"
    and "known (stored s) source" "amount \<le> balance spent (stored s) source"
    and "get_ancestors s source = Inr sa" "list_all (\<lambda>q. 0 \<le> balance spent (stored s) q) sa"
    and "source # sa = xs @ ys"
  shows "\<exists>s1. add_amounts spent True (- amount) xs s = (s1, None) \<and> in_step s1 \<and> sound_accounts (stored s1)"
proof (cases xs)
  case Nil
  with assms(1,2) show ?thesis by simp
next
  case (Cons p ps)
  with assms(9) have xs: "xs = source # ps" "sa = ps @ ys" by auto
  note l = get_ancestors_linked [OF assms(7)]
  have "linked (stored s) (source # ps)" using l linked_append [of "stored s" "source # ps" ys] xs by simp
  moreover have "distinct (source # ps)" using ancestors_distinct assms(7) xs unfolding get_ancestors_def by fastforce
  moreover have "list_all (\<lambda>q. \<exists>an. get_ancestors s q = Inr an) (source # ps)"
    unfolding list_all_iff using get_ancestors_of_ancestor [OF assms(7)] xs by auto
  moreover have "list_all (known (stored s)) (source # ps)" "list_all (\<lambda>q. 0 \<le> balance spent (stored s) q) ps"
    using l assms(5,8) xs by simp_all
  ultimately show ?thesis unfolding xs(1) using assms(1-4,6) by (intro decrease_chain) auto
qed

lemma common_ancestor_first:
  "common_ancestor (p # ps) ys = Some c \<Longrightarrow> p \<in> set ys \<Longrightarrow> c = p"
  by (simp add: common_ancestor_def)

lemma common_ancestor_none: "common_ancestor xs ys = None \<Longrightarrow> x \<in> set xs \<Longrightarrow> x \<notin> set ys"
  by (auto simp: common_ancestor_def find_None_iff)

lemma transfer_fund_succeeds:
  assumes s: "in_step s" "sound_accounts (stored s)" and n: "0 \<le> amount" "\<And>q. 0 \<le> spent q"
    and k: "known (stored s) source" "known (stored s) target" and ne: "source \<noteq> target"
    and enough: "amount \<le> balance spent (stored s) source"
    and sa: "get_ancestors s source = Inr sa" "list_all (\<lambda>q. 0 \<le> balance spent (stored s) q) sa"
    and ta: "get_ancestors s target = Inr ta" "list_all (\<lambda>q. 0 \<le> balance spent (stored s) q) ta"
    and no: "target \<notin> set sa"
  shows "\<exists>s'. transfer_fund spent source target amount s = (s', None)"
proof -
  from k obtain a where a: "account_of s source = Some a" by (auto simp: account_of_known)
  with enough s(1) have g: "\<not> self_balance spent s source a < amount" by (simp add: self_balance_in_step)
  have d: "distinct_keys (stored s)" using s(2) by (simp add: sound_accounts_def)
  note ls = get_ancestors_linked [OF sa(1)] and lt = get_ancestors_linked [OF ta(1)]
  have dt: "distinct (target # ta)" using ancestors_distinct ta(1) unfolding get_ancestors_def by blast
  have kt: "list_all (known (stored s)) (target # ta)" using lt k(2) by simp
  show ?thesis
  proof (cases "common_ancestor (source # sa) (target # ta)")
    case (Some c)
    from common_ancestor_in [OF Some] no ne have c: "c \<in> set (source # sa)" "c \<in> set ta" "target \<noteq> c" by auto
    from before_split [OF c(1)] obtain r where "source # sa = before c (source # sa) @ c # r" ..
    from first_loop [OF s n k(1) enough sa this] obtain s1
      where s1: "add_amounts spent True (- amount) (before c (source # sa)) s = (s1, None)" "in_step s1"
        "sound_accounts (stored s1)" by blast
    from add_amounts_returns [OF s1(1)] have st: "stored s1 = shifts (- amount) (before c (source # sa)) (stored s)"
      by simp
    have b1: "balance spent (stored s1) q
        = balance spent (stored s) q + (if q = source then - amount else 0) - (if q = c then - amount else 0)" for q
      using loop_up [OF s1(1) d _ c(1), of q] ls by (intro balance_own) simp
    from before_split [OF c(2)] obtain t where t: "ta = before c ta @ c # t" ..
    have sub: "q \<in> set ta \<and> q \<noteq> c" if "q \<in> set (before c ta)" for q
      using that by (auto simp: before_def dest: set_takeWhileD)
    have up: "0 \<le> balance spent (stored s1) q" if q: "q \<in> set (before c ta)" for q
    proof -
      have "q \<noteq> source" using sub [OF q] common_ancestor_first [OF Some] by auto
      with b1 [of q] sub [OF q] ta(2) show ?thesis by (simp add: list_all_iff)
    qed
    have "linked (stored s) ((target # before c ta) @ c # t)" using lt t by simp
    then have l1: "linked (stored s1) (target # before c ta)" using linked_append linked_stored [OF st] by metis
    have p1: "parent_of (stored s) (last (target # before c ta)) = Some c"
      using before_linked [of "stored s" "target # ta" c target "before c ta"] lt c by (simp add: before_def)
    have "amount \<le> balance spent (stored s1) c"
    proof (cases "c = source")
      case True
      with enough b1 [of c] n show ?thesis by simp
    next
      case False
      with c(1) sa(2) b1 [of c] n show ?thesis by (auto simp: list_all_iff)
    qed
    with p1 have h1: "amount \<le> balance spent (stored s1) q"
      if "parent_of (stored s1) (last (target # before c ta)) = Some q" for q
      using that by (simp add: st)
    have "distinct ((target # before c ta) @ c # t)" using dt t by simp
    then have "distinct (target # before c ta)" by (simp only: distinct_append)
    moreover have "list_all (known (stored s1)) (target # before c ta)" using kt sub by (auto simp: st list_all_iff)
    moreover have "list_all (\<lambda>q. 0 \<le> balance spent (stored s1) q) (before c ta)"
      using up by (simp add: list_all_iff)
    ultimately obtain s2 where s2: "add_amounts spent False amount (rev (target # before c ta)) s1 = (s2, None)"
      using second_loop [OF s1(2,3) n(1) _ l1] h1 by blast
    from add_amounts_returns [OF s2] st get_ancestors_shifts ta(1) obtain s3 where "reindex_account target s2 = (s3, None)"
      using reindex_after [of s1 target ta s2] by metis
    with a g ne sa(1) no ta(1) Some s1(1) s2 show ?thesis
      by (simp add: transfer_fund_def and_also_def)
  next
    case None
    from first_loop [OF s n k(1) enough sa, of "source # sa" "[]"] obtain s1
      where s1: "add_amounts spent True (- amount) (source # sa) s = (s1, None)" "in_step s1"
        "sound_accounts (stored s1)" by auto
    from add_amounts_returns [OF s1(1)] have st: "stored s1 = shifts (- amount) (source # sa) (stored s)"
      and ks: "list_all (known (stored s)) (source # sa)" by simp_all
    have b1: "balance spent (stored s1) q = balance spent (stored s) q + (if q = source then - amount else 0) - 0"
      if "known (stored s) q" for q
      using loop_all [OF st _ d ks] ls that by (intro balance_own) simp
    have "linked (stored s1) (target # ta)" using lt linked_stored [OF st] by metis
    moreover have "list_all (\<lambda>q. 0 \<le> balance spent (stored s1) q) ta"
      using common_ancestor_none [OF None, of source] ta(2) kt b1 by (auto simp: list_all_iff)
    moreover have "\<not> known (stored s1) q" if "parent_of (stored s1) (last (target # ta)) = Some q" for q
      using lt that by (simp only: st parent_of_shifts known_shifts) blast
    moreover have "list_all (known (stored s1)) (target # ta)" using kt by (simp only: st known_shifts)
    ultimately obtain s2 where s2: "add_amounts spent False amount (rev (target # ta)) s1 = (s2, None)"
      using second_loop [OF s1(2,3) n(1) _ _ dt] by blast
    from add_amounts_returns [OF s2] st get_ancestors_shifts ta(1) obtain s3 where "reindex_account target s2 = (s3, None)"
      using reindex_after [of s1 target ta s2] by metis
    with a g ne sa(1) no ta(1) None s1(1) s2 show ?thesis
      by (simp add: transfer_fund_def and_also_def)
  qed
qed

end
