(* ===== verification/AcqOrders.thy ===== *)
theory AcqOrders
  imports AcqAccounts
begin

text \<open>
  Orders and their reception: classes \<open>AcqOrder\<close>, \<open>AcqOrderLine\<close>, \<open>AcqReceipt\<close> and \<open>AcqReceiptLine\<close> of
  \<open>rero_ils/modules/acquisition\<close> with their extensions, and what the listeners add to the index.

  Amounts are cents. The status of a line and the received quantity are computed from the records: every
  operation indexes its record with the related ones before it returns, so that the index that the code
  asks has the values of the database. Notes, references and the VAT of a receipt line (\<open>vat_total\<close>, a
  product of floats rounded to cents) are left out or arguments.
\<close>

section \<open>Records\<close>

datatype line_status = APPROVED | LINE_CANCELLED | LINE_ORDERED | LINE_RECEIVED | LINE_PARTIALLY_RECEIVED

datatype order_status = ORDER_CANCELLED | ORDERED | ORDER_PENDING | PARTIALLY_RECEIVED | RECEIVED

definition received_statuses :: "line_status list" where
  "received_statuses = [LINE_RECEIVED, LINE_PARTIALLY_RECEIVED]"

record order =
  order_date :: "int option"
  order_vendor :: string
  order_currency :: string
  standing_order :: bool
  previous_version :: "string option"

record order_line =
  line_order :: string
  line_account :: string
  line_document :: string
  line_amount :: int
  line_quantity :: int
  line_discount :: int
  line_cancelled :: bool
  line_total :: int

record receipt =
  receipt_order :: string
  adjustments :: "(string \<times> int) list"

record receipt_line =
  rl_receipt :: string
  rl_order_line :: string
  rl_amount :: int
  rl_quantity :: int
  rl_vat_rate :: int

record purchases =
  orders :: "(string, order) dict"
  order_lines :: "(string, order_line) dict"
  receipts :: "(string, receipt) dict"
  receipt_lines :: "(string, receipt_line) dict"

definition find_order :: "purchases \<Rightarrow> string \<Rightarrow> order option" where
  "find_order db p = dict_get (orders db) p"

definition find_line :: "purchases \<Rightarrow> string \<Rightarrow> order_line option" where
  "find_line db p = dict_get (order_lines db) p"

section \<open>Quantities and statuses of lines\<close>

definition sum_where :: "('a \<Rightarrow> bool) \<Rightarrow> ('a \<Rightarrow> int) \<Rightarrow> (string, 'a) dict \<Rightarrow> int" where
  "sum_where P f d = sum_list (map (\<lambda>(k, x). if P x then f x else 0) d)"

definition received_quantity :: "purchases \<Rightarrow> string \<Rightarrow> int" where
  "received_quantity db p = sum_where (\<lambda>r. rl_order_line r = p) rl_quantity (receipt_lines db)"

definition unreceived_quantity :: "purchases \<Rightarrow> string \<Rightarrow> order_line \<Rightarrow> int" where
  "unreceived_quantity db p l = line_quantity l - received_quantity db p"

text \<open>The property \<open>status\<close>. The order of a line exists: its absence is an \<open>AttributeError\<close> of the code, and
  counts here as an order that has not been sent.\<close>

definition line_status_of :: "purchases \<Rightarrow> string \<Rightarrow> order_line \<Rightarrow> line_status" where
  "line_status_of db p l =
     (if line_cancelled l then LINE_CANCELLED
      else
        let sent = (case find_order db (line_order l) of None \<Rightarrow> False | Some aco \<Rightarrow> order_date aco \<noteq> None);
            unreceived = unreceived_quantity db p l in
        if unreceived = 0 then LINE_RECEIVED
        else if unreceived \<noteq> line_quantity l then LINE_PARTIALLY_RECEIVED
        else if sent then LINE_ORDERED else APPROVED)"

section \<open>Status of an order\<close>

definition lines_of_order :: "purchases \<Rightarrow> string \<Rightarrow> (string \<times> order_line) list" where
  "lines_of_order db aco = filter (\<lambda>(p, l). line_order l = aco) (order_lines db)"

definition statuses_of_order :: "purchases \<Rightarrow> string \<Rightarrow> line_status list" where
  "statuses_of_order db aco = remdups (map (\<lambda>(p, l). line_status_of db p l) (lines_of_order db aco))"

fun status_map :: "line_status \<Rightarrow> order_status" where
  "status_map APPROVED = ORDER_PENDING"
| "status_map LINE_ORDERED = ORDERED"
| "status_map LINE_RECEIVED = RECEIVED"
| "status_map LINE_PARTIALLY_RECEIVED = PARTIALLY_RECEIVED"
| "status_map LINE_CANCELLED = ORDER_CANCELLED"

text \<open>\<open>get_status_by_pid\<close> from the statuses that the aggregation of the index finds, each once.\<close>

definition status_of_statuses :: "line_status list \<Rightarrow> order_status" where
  "status_of_statuses found =
     (let statuses = (if length found > 1 \<and> LINE_CANCELLED \<in> set found then remove1 LINE_CANCELLED found else found) in
      if length statuses > 1
      then (if list_ex (\<lambda>s. s \<in> set received_statuses) statuses then PARTIALLY_RECEIVED
            else if LINE_ORDERED \<in> set statuses then ORDERED else ORDER_PENDING)
      else case statuses of [s] \<Rightarrow> status_map s | _ \<Rightarrow> ORDER_PENDING)"

definition get_status_by_pid :: "purchases \<Rightarrow> string \<Rightarrow> order_status" where
  "get_status_by_pid db aco = status_of_statuses (statuses_of_order db aco)"

definition item_quantity :: "purchases \<Rightarrow> string \<Rightarrow> int" where
  "item_quantity db aco = sum_where (\<lambda>l. line_order l = aco \<and> \<not> line_cancelled l) line_quantity (order_lines db)"

definition item_received_quantity :: "purchases \<Rightarrow> string \<Rightarrow> int" where
  "item_received_quantity db aco =
     sum_list (map (\<lambda>(p, l). if line_order l = aco \<and> \<not> line_cancelled l then received_quantity db p else 0)
       (order_lines db))"

definition provisional_total_amount :: "purchases \<Rightarrow> string \<Rightarrow> int" where
  "provisional_total_amount db aco = sum_where (\<lambda>l. line_order l = aco \<and> \<not> line_cancelled l) line_total (order_lines db)"

section \<open>Money of an account\<close>

definition open_line_statuses :: "line_status list" where
  "open_line_statuses = [APPROVED, LINE_ORDERED, LINE_PARTIALLY_RECEIVED]"

text \<open>The first component of \<open>encumbrance_amount\<close>: the sum of \<open>total_unreceived_amount\<close> of the index over the
  open lines.\<close>

definition self_encumbrance :: "purchases \<Rightarrow> string \<Rightarrow> int" where
  "self_encumbrance db acc =
     sum_list (map (\<lambda>(p, l).
       if line_account l = acc \<and> line_status_of db p l \<in> set open_line_statuses
       then unreceived_quantity db p l * line_amount l else 0) (order_lines db))"

text \<open>\<open>total_amount\<close> of a receipt line and of a receipt, and the first component of \<open>expenditure_amount\<close>.\<close>

definition receipt_line_total :: "(int \<Rightarrow> int \<Rightarrow> int) \<Rightarrow> receipt_line \<Rightarrow> int" where
  "receipt_line_total vat_total r = vat_total (rl_amount r * rl_quantity r) (rl_vat_rate r)"

definition receipt_total_amount :: "(int \<Rightarrow> int \<Rightarrow> int) \<Rightarrow> purchases \<Rightarrow> string \<Rightarrow> receipt \<Rightarrow> int" where
  "receipt_total_amount vat_total db p r =
     sum_where (\<lambda>l. rl_receipt l = p) (receipt_line_total vat_total) (receipt_lines db) + sum_list (map snd (adjustments r))"

definition expenditure_total_amount :: "(int \<Rightarrow> int \<Rightarrow> int) \<Rightarrow> purchases \<Rightarrow> string \<Rightarrow> int" where
  "expenditure_total_amount vat_total db aco =
     sum_list (map (\<lambda>(p, r). if receipt_order r = aco then receipt_total_amount vat_total db p r else 0) (receipts db))"

definition self_expenditure :: "(int \<Rightarrow> int \<Rightarrow> int) \<Rightarrow> purchases \<Rightarrow> string \<Rightarrow> int" where
  "self_expenditure vat_total db acc =
     sum_where (\<lambda>r. case find_line db (rl_order_line r) of None \<Rightarrow> False | Some l \<Rightarrow> line_account l = acc)
       (receipt_line_total vat_total) (receipt_lines db)
     + sum_list (map (\<lambda>(p, r). sum_list (map snd (filter (\<lambda>(a, n). a = acc) (adjustments r)))) (receipts db))"

definition spent_on :: "(int \<Rightarrow> int \<Rightarrow> int) \<Rightarrow> purchases \<Rightarrow> string \<Rightarrow> int" where
  "spent_on vat_total db acc = self_encumbrance db acc + self_expenditure vat_total db acc"

section \<open>Order lines\<close>

definition build_total_amount :: "order_line \<Rightarrow> order_line" where
  "build_total_amount l = l\<lparr>line_total := line_amount l * line_quantity l\<rparr>"

text \<open>\<open>AcqOrderLineValidationExtension\<close>: the total with the discount, the money that is available, harvested
  documents. The money spent and the status of the order come from the index: \<open>seen\<close> is what it has of the
  purchases.\<close>

definition check_line_balance ::
  "(int \<Rightarrow> int \<Rightarrow> int) \<Rightarrow> accounting \<Rightarrow> purchases \<Rightarrow> purchases \<Rightarrow> string \<Rightarrow> order_line \<Rightarrow> py_error + order_line" where
  "check_line_balance vat_total s seen db p l =
     (let l = l\<lparr>line_total := line_amount l * line_quantity l - line_discount l\<rparr>;
          amount_to_check = line_total l
            - (case find_line db p of
                 None \<Rightarrow> 0
               | Some old \<Rightarrow> if line_account old = line_account l then line_total old else 0) in
      if amount_to_check > 0
      then case account_of s (line_account l) of
          None \<Rightarrow> Inl AttributeError
        | Some a \<Rightarrow>
            if self_balance (spent_on vat_total seen) s (line_account l) a + get_exceedance a ENCUMBRANCE < amount_to_check
            then Inl (ValidationError ''Parent account available amount too low'')
            else Inr l
      else Inr l)"

text \<open>A document that the database has not is no \<open>document\<close>; of the others only the flag \<open>harvested\<close> matters.\<close>

definition check_harvested :: "(string \<Rightarrow> bool option) \<Rightarrow> order_line \<Rightarrow> py_error + unit" where
  "check_harvested harvested l =
     (case harvested (line_document l) of
        Some True \<Rightarrow> Inl (ValidationError ''Cannot link to an harvested document'')
      | _ \<Rightarrow> Inr ())"

definition line_validation :: "(string \<Rightarrow> bool option) \<Rightarrow> purchases \<Rightarrow> bool \<Rightarrow> order_line \<Rightarrow> py_error + unit" where
  "line_validation harvested seen updated l =
     (if updated \<and> \<not> line_cancelled l \<and> harvested (line_document l) = None
      then Inl (ValidationError ''Cannot save an active order line for a deleted document.'')
      else if get_status_by_pid seen (line_order l)
          \<notin> set ([ORDER_CANCELLED, ORDER_PENDING] @ (if updated then [ORDERED, PARTIALLY_RECEIVED] else []))
      then Inl (ValidationError ''Cannot create an order line with an order with a wrong status.'')
      else Inr ())"

text \<open>The schema: a quantity of one or more, amounts that are not negative.\<close>

definition line_schema :: "order_line \<Rightarrow> py_error + unit" where
  "line_schema l =
     (if line_quantity l < 1 \<or> line_amount l < 0 \<or> line_total l < 0 then Inl (ValidationError ''schema'') else Inr ())"

definition save_line ::
  "(int \<Rightarrow> int \<Rightarrow> int) \<Rightarrow> (string \<Rightarrow> bool option) \<Rightarrow> accounting \<Rightarrow> purchases \<Rightarrow> bool \<Rightarrow> string \<Rightarrow> order_line
     \<Rightarrow> purchases \<Rightarrow> py_error + purchases" where
  "save_line vat_total harvested s seen updated p l db =
     and_then (check_line_balance vat_total s seen db p (build_total_amount l)) (\<lambda>l.
     and_then (check_harvested harvested l) (\<lambda>_.
     and_then (line_schema l) (\<lambda>_.
     and_then (line_validation harvested seen updated l) (\<lambda>_.
       Inr (db\<lparr>order_lines := dict_set p l (order_lines db)\<rparr>)))))"

text \<open>\<open>AcqOrderLine.create\<close> under a new pid, and \<open>update\<close> of a stored line.\<close>

definition create_order_line ::
  "(int \<Rightarrow> int \<Rightarrow> int) \<Rightarrow> (string \<Rightarrow> bool option) \<Rightarrow> accounting \<Rightarrow> string \<Rightarrow> order_line \<Rightarrow> purchases
     \<Rightarrow> py_error + purchases" where
  "create_order_line vat_total harvested s p l db =
     (if find_line db p \<noteq> None then Inl PidAlreadyUsed else save_line vat_total harvested s db False p l db)"

definition update_order_line ::
  "(int \<Rightarrow> int \<Rightarrow> int) \<Rightarrow> (string \<Rightarrow> bool option) \<Rightarrow> accounting \<Rightarrow> string \<Rightarrow> order_line \<Rightarrow> purchases
     \<Rightarrow> py_error + purchases" where
  "update_order_line vat_total harvested s p l db =
     (if find_line db p = None then Inl NotFoundError else save_line vat_total harvested s db True p l db)"

definition line_reasons_not_to_delete :: "(string \<Rightarrow> bool) \<Rightarrow> purchases \<Rightarrow> string \<Rightarrow> order_line \<Rightarrow> string list" where
  "line_reasons_not_to_delete account_active db p l =
     (if \<not> account_active (line_account l) then [''rolled_over'']
      else
        (if list_ex (\<lambda>(q, r). rl_order_line r = p) (receipt_lines db) then [''acq_receipt_lines''] else [])
        @ (if get_status_by_pid db (line_order l) \<in> {ORDER_CANCELLED, ORDER_PENDING} then []
           else [''order_has_active_status'']))"

definition dict_remove :: "string \<Rightarrow> (string, 'a) dict \<Rightarrow> (string, 'a) dict" where
  "dict_remove p d = filter (\<lambda>(q, x). q \<noteq> p) d"

definition delete_order_line :: "(string \<Rightarrow> bool) \<Rightarrow> bool \<Rightarrow> string \<Rightarrow> purchases \<Rightarrow> py_error + purchases" where
  "delete_order_line account_active force p db =
     (case find_line db p of
        None \<Rightarrow> Inl NotFoundError
      | Some l \<Rightarrow>
          if line_reasons_not_to_delete account_active db p l = [] \<or> force
          then Inr (db\<lparr>order_lines := dict_remove p (order_lines db)\<rparr>)
          else Inl NotDeleted)"

section \<open>Orders\<close>

text \<open>\<open>send_order\<close>: when the notification is sent, the order gets its date. The reindexing that follows is what
  makes the lines ORDERED in the index.\<close>

definition send_order :: "bool \<Rightarrow> int \<Rightarrow> string \<Rightarrow> purchases \<Rightarrow> py_error + purchases" where
  "send_order sent today p db =
     (case find_order db p of
        None \<Rightarrow> Inl NotFoundError
      | Some aco \<Rightarrow>
          Inr (if sent then db\<lparr>orders := dict_set p (aco\<lparr>order_date := Some today\<rparr>) (orders db)\<rparr> else db))"

definition order_reasons_not_to_delete :: "(string \<Rightarrow> bool) \<Rightarrow> purchases \<Rightarrow> string \<Rightarrow> string list" where
  "order_reasons_not_to_delete account_active db p =
     (if (case lines_of_order db p of [] \<Rightarrow> False | (q, l) # _ \<Rightarrow> \<not> account_active (line_account l)) then [''rolled_over'']
      else
        (if get_status_by_pid db p \<noteq> ORDER_PENDING then [''order_already_sent''] else [])
        @ (if list_ex (\<lambda>(q, aco). previous_version aco = Some p) (orders db) then [''acq_orders''] else [])
        @ (if list_ex (\<lambda>(q, r). receipt_order r = p) (receipts db) then [''acq_receipts''] else []))"

text \<open>The deletion of an order takes its lines with it, with their own reasons unless it is forced.\<close>

fun delete_lines :: "(string \<Rightarrow> bool) \<Rightarrow> bool \<Rightarrow> string list \<Rightarrow> purchases \<Rightarrow> py_error + purchases" where
  "delete_lines account_active force [] db = Inr db"
| "delete_lines account_active force (p # ps) db =
     and_then (delete_order_line account_active force p db) (delete_lines account_active force ps)"

definition delete_order :: "(string \<Rightarrow> bool) \<Rightarrow> bool \<Rightarrow> string \<Rightarrow> purchases \<Rightarrow> py_error + purchases" where
  "delete_order account_active force p db =
     (if order_reasons_not_to_delete account_active db p = [] \<or> force
      then and_then (delete_lines account_active force (map fst (lines_of_order db p)) db) (\<lambda>db.
        Inr (db\<lparr>orders := dict_remove p (orders db)\<rparr>))
      else Inl NotDeleted)"

end
