(* ===== verification/AcqReceipts.thy ===== *)
theory AcqReceipts
  imports AcqOrders
begin

text \<open>
  Reception: the operations of classes \<open>AcqReceipt\<close> and \<open>AcqReceiptLine\<close> and of the extension
  \<open>AcqReceiptLineValidationExtension\<close>, as steps on the records of the purchases, and what they keep: never
  more items received than ordered.
\<close>

section \<open>Receipt lines\<close>

text \<open>\<open>_check_received_quantity\<close>: \<open>stored\<close> is the quantity that the database has for the same receipt line, 0 for a
  new one.\<close>

definition stored_quantity :: "purchases \<Rightarrow> string \<Rightarrow> int" where
  "stored_quantity db p = (case dict_get (receipt_lines db) p of None \<Rightarrow> 0 | Some r \<Rightarrow> rl_quantity r)"

definition check_received_quantity :: "purchases \<Rightarrow> string \<Rightarrow> receipt_line \<Rightarrow> py_error + unit" where
  "check_received_quantity db p r =
     (if rl_quantity r = 0 then Inr ()
      else case find_line db (rl_order_line r) of
          None \<Rightarrow> Inl AttributeError
        | Some l \<Rightarrow>
            let quantity_to_check = rl_quantity r - stored_quantity db p;
                new_total_quantity = quantity_to_check + received_quantity db (rl_order_line r) in
            if new_total_quantity > line_quantity l
            then Inl (ValidationError ''Received quantity is grower than ordered quantity'') else Inr ())"

definition receivable :: "order_status list" where
  "receivable = [ORDERED, PARTIALLY_RECEIVED, RECEIVED]"

definition receipt_status_check :: "purchases \<Rightarrow> string \<Rightarrow> py_error + unit" where
  "receipt_status_check db aco =
     (if get_status_by_pid db aco \<in> set receivable then Inr ()
      else Inl (ValidationError ''Cannot create a receipt with an order with a wrong status.''))"

text \<open>\<open>extended_validation\<close> of a receipt line goes through its receipt to the order.\<close>

definition receipt_line_validation :: "purchases \<Rightarrow> receipt_line \<Rightarrow> py_error + unit" where
  "receipt_line_validation db r =
     (case dict_get (receipts db) (rl_receipt r) of
        None \<Rightarrow> Inl AttributeError
      | Some re \<Rightarrow> receipt_status_check db (receipt_order re))"

definition receipt_line_schema :: "receipt_line \<Rightarrow> py_error + unit" where
  "receipt_line_schema r =
     (if rl_quantity r < 1 \<or> rl_amount r < 0 \<or> rl_vat_rate r < 0 \<or> 100 < rl_vat_rate r
      then Inl (ValidationError ''schema'') else Inr ())"

definition save_receipt_line :: "string \<Rightarrow> receipt_line \<Rightarrow> purchases \<Rightarrow> py_error + purchases" where
  "save_receipt_line p r db =
     and_then (check_received_quantity db p r) (\<lambda>_.
     and_then (receipt_line_schema r) (\<lambda>_.
     and_then (receipt_line_validation db r) (\<lambda>_.
       Inr (db\<lparr>receipt_lines := dict_set p r (receipt_lines db)\<rparr>))))"

definition create_receipt_line :: "string \<Rightarrow> receipt_line \<Rightarrow> purchases \<Rightarrow> py_error + purchases" where
  "create_receipt_line p r db =
     (if dict_get (receipt_lines db) p \<noteq> None then Inl PidAlreadyUsed else save_receipt_line p r db)"

definition update_receipt_line :: "string \<Rightarrow> receipt_line \<Rightarrow> purchases \<Rightarrow> py_error + purchases" where
  "update_receipt_line p r db =
     (if dict_get (receipt_lines db) p = None then Inl NotFoundError else save_receipt_line p r db)"

definition receipt_line_reasons_not_to_delete :: "(string \<Rightarrow> bool) \<Rightarrow> purchases \<Rightarrow> receipt_line \<Rightarrow> string list" where
  "receipt_line_reasons_not_to_delete account_active db r =
     (case find_line db (rl_order_line r) of
        None \<Rightarrow> [''rolled_over'']
      | Some l \<Rightarrow> if account_active (line_account l) then [] else [''rolled_over''])
     @ (case dict_get (receipts db) (rl_receipt r) of
          None \<Rightarrow> [''order_not_in_reception'']
        | Some re \<Rightarrow>
            if get_status_by_pid db (receipt_order re) \<in> {PARTIALLY_RECEIVED, RECEIVED} then []
            else [''order_not_in_reception''])"

definition delete_receipt_line :: "(string \<Rightarrow> bool) \<Rightarrow> bool \<Rightarrow> string \<Rightarrow> purchases \<Rightarrow> py_error + purchases" where
  "delete_receipt_line account_active force p db =
     (case dict_get (receipt_lines db) p of
        None \<Rightarrow> Inl NotFoundError
      | Some r \<Rightarrow>
          if receipt_line_reasons_not_to_delete account_active db r = [] \<or> force
          then Inr (db\<lparr>receipt_lines := dict_remove p (receipt_lines db)\<rparr>) else Inl NotDeleted)"

section \<open>Receipts\<close>

definition create_receipt :: "string \<Rightarrow> receipt \<Rightarrow> purchases \<Rightarrow> py_error + purchases" where
  "create_receipt p re db =
     (if dict_get (receipts db) p \<noteq> None then Inl PidAlreadyUsed
      else and_then (receipt_status_check db (receipt_order re)) (\<lambda>_.
        Inr (db\<lparr>receipts := dict_set p re (receipts db)\<rparr>)))"

text \<open>\<open>create_receipt_lines\<close>: every line is tried, its success or its error recorded, and an error leaves the database
  as the lines before have made it.\<close>

definition pid_from :: "nat \<Rightarrow> string" where
  "pid_from n = replicate n (CHR ''1'')"

fun create_receipt_lines ::
  "string \<Rightarrow> nat \<Rightarrow> receipt_line list \<Rightarrow> purchases \<Rightarrow> (receipt_line \<times> py_error option) list \<times> purchases" where
  "create_receipt_lines re n [] db = ([], db)"
| "create_receipt_lines re n (r # rs) db =
     (let r = r\<lparr>rl_receipt := re\<rparr> in
      case create_receipt_line (pid_from n) r db of
        Inl e \<Rightarrow> (let (out, db') = create_receipt_lines re (Suc n) rs db in ((r, Some e) # out, db'))
      | Inr db1 \<Rightarrow> (let (out, db') = create_receipt_lines re (Suc n) rs db1 in ((r, None) # out, db')))"

definition receipt_reasons_not_to_delete :: "bool \<Rightarrow> purchases \<Rightarrow> receipt \<Rightarrow> string list" where
  "receipt_reasons_not_to_delete order_active db re =
     (if \<not> order_active then [''rolled_over'']
      else if get_status_by_pid db (receipt_order re) \<in> {RECEIVED, PARTIALLY_RECEIVED} then []
      else [''order_not_in_reception''])"

fun delete_receipt_lines :: "(string \<Rightarrow> bool) \<Rightarrow> bool \<Rightarrow> string list \<Rightarrow> purchases \<Rightarrow> py_error + purchases" where
  "delete_receipt_lines account_active force [] db = Inr db"
| "delete_receipt_lines account_active force (p # ps) db =
     and_then (delete_receipt_line account_active force p db) (delete_receipt_lines account_active force ps)"

definition delete_receipt ::
  "(string \<Rightarrow> bool) \<Rightarrow> bool \<Rightarrow> bool \<Rightarrow> string \<Rightarrow> purchases \<Rightarrow> py_error + purchases" where
  "delete_receipt account_active order_active force p db =
     (case dict_get (receipts db) p of
        None \<Rightarrow> Inl NotFoundError
      | Some re \<Rightarrow>
          if receipt_reasons_not_to_delete order_active db re = [] \<or> force
          then and_then
            (delete_receipt_lines account_active force
              (map fst (filter (\<lambda>(q, r). rl_receipt r = p) (receipt_lines db))) db)
            (\<lambda>db. Inr (db\<lparr>receipts := dict_remove p (receipts db)\<rparr>))
          else Inl NotDeleted)"

section \<open>Reception as a transition system\<close>

text \<open>The steps of the purchases: everything on receipts and their lines, new order lines, and the updates of
  an order line that do not lower its quantity and of a receipt line that stay with its order line.\<close>

inductive reception_step ::
  "(int \<Rightarrow> int \<Rightarrow> int) \<Rightarrow> (string \<Rightarrow> bool option) \<Rightarrow> (string \<Rightarrow> bool) \<Rightarrow> purchases \<Rightarrow> purchases \<Rightarrow> bool"
  for vat_total harvested account_active where
  new_line: "create_order_line vat_total harvested s p l db = Inr db' \<Longrightarrow>
     \<not> list_ex (\<lambda>(q, r). rl_order_line r = p) (receipt_lines db) \<Longrightarrow>
     reception_step vat_total harvested account_active db db'"
| change_line: "update_order_line vat_total harvested s p l db = Inr db' \<Longrightarrow>
     find_line db p = Some old \<Longrightarrow> line_quantity old \<le> line_quantity l \<Longrightarrow>
     reception_step vat_total harvested account_active db db'"
| new_receipt: "create_receipt p re db = Inr db' \<Longrightarrow> reception_step vat_total harvested account_active db db'"
| receive_one: "create_receipt_line p r db = Inr db' \<Longrightarrow> reception_step vat_total harvested account_active db db'"
| change_received: "update_receipt_line p r db = Inr db' \<Longrightarrow>
     dict_get (receipt_lines db) p = Some old \<Longrightarrow> rl_order_line old = rl_order_line r \<Longrightarrow>
     reception_step vat_total harvested account_active db db'"
| remove_received: "delete_receipt_line account_active force p db = Inr db' \<Longrightarrow>
     reception_step vat_total harvested account_active db db'"
| order_sent: "send_order sent today p db = Inr db' \<Longrightarrow> reception_step vat_total harvested account_active db db'"

text \<open>The invariant: receipt lines have positive quantities, and together no more than their order line.\<close>

definition within_ordered :: "purchases \<Rightarrow> bool" where
  "within_ordered db \<longleftrightarrow>
     distinct_keys (order_lines db) \<and> distinct_keys (receipt_lines db)
     \<and> list_all (\<lambda>(p, r). 0 \<le> rl_quantity r) (receipt_lines db)
     \<and> list_all (\<lambda>(p, l). received_quantity db p \<le> line_quantity l) (order_lines db)"

section \<open>Sums over records\<close>

lemma sum_where_set:
  "distinct_keys d \<Longrightarrow>
   sum_where P f (dict_set k v d)
     = sum_where P f d - (case dict_get d k of None \<Rightarrow> 0 | Some x \<Rightarrow> if P x then f x else 0) + (if P v then f v else 0)"
  by (induction d) (auto simp: sum_where_def distinct_keys_def dict_set_def dict_get_def split: option.splits)

lemma sum_where_remove:
  "list_all (\<lambda>(k, x). P x \<longrightarrow> 0 \<le> f x) d \<Longrightarrow> sum_where P f (dict_remove p d) \<le> sum_where P f d"
  by (induction d) (auto simp: sum_where_def dict_remove_def split: if_splits)

lemma sum_where_none: "\<not> list_ex (\<lambda>(k, x). P x) d \<Longrightarrow> sum_where P f d = 0"
  by (induction d) (auto simp: sum_where_def)

lemma distinct_keys_remove: "distinct_keys d \<Longrightarrow> distinct_keys (dict_remove p d)"
  by (induction d) (auto simp: distinct_keys_def dict_remove_def)

lemma list_all_dict_set:
  "list_all Q d \<Longrightarrow> Q (k, v) \<Longrightarrow> list_all Q (dict_set k v d)"
  by (induction d) (auto simp: dict_set_def)

lemma list_all_dict_remove: "list_all Q d \<Longrightarrow> list_all Q (dict_remove p d)"
  by (simp add: list_all_iff dict_remove_def)

lemma dict_get_in: "dict_get d k = Some v \<Longrightarrow> (k, v) \<in> set d"
  by (simp add: dict_get_def map_of_SomeD)

lemma in_dict_get: "distinct_keys d \<Longrightarrow> (k, v) \<in> set d \<Longrightarrow> dict_get d k = Some v"
  by (simp add: dict_get_def distinct_keys_def)

section \<open>What the steps keep\<close>

lemma within_orderedI:
  "within_ordered db \<Longrightarrow> order_lines db' = order_lines db \<Longrightarrow> distinct_keys (receipt_lines db') \<Longrightarrow>
   list_all (\<lambda>(p, r). 0 \<le> rl_quantity r) (receipt_lines db') \<Longrightarrow>
   (\<And>p l. find_line db p = Some l \<Longrightarrow> received_quantity db p \<le> line_quantity l \<Longrightarrow>
      received_quantity db' p \<le> line_quantity l) \<Longrightarrow> within_ordered db'"
  by (auto simp: within_ordered_def list_all_iff find_line_def dest!: in_dict_get)

lemma within_ordered_line: "within_ordered db \<Longrightarrow> find_line db p = Some l \<Longrightarrow> received_quantity db p \<le> line_quantity l"
  by (auto simp: within_ordered_def list_all_iff find_line_def dest!: dict_get_in)

lemma save_receipt_line_within:
  assumes "save_receipt_line p r db = Inr db'" "within_ordered db"
    and "\<And>old. dict_get (receipt_lines db) p = Some old \<Longrightarrow> rl_order_line old = rl_order_line r"
  shows "within_ordered db'"
proof -
  from assms(1) have c: "check_received_quantity db p r = Inr ()" and q: "1 \<le> rl_quantity r"
    and db': "db' = db\<lparr>receipt_lines := dict_set p r (receipt_lines db)\<rparr>"
    by (auto simp: save_receipt_line_def and_then_eq_Inr receipt_line_schema_def split: if_splits)
  from c q obtain l where l: "find_line db (rl_order_line r) = Some l"
    and le: "rl_quantity r - stored_quantity db p + received_quantity db (rl_order_line r) \<le> line_quantity l"
    by (auto simp: check_received_quantity_def Let_def split: option.splits if_splits)
  have rec: "received_quantity db' k
      = received_quantity db k + (if rl_order_line r = k then rl_quantity r - stored_quantity db p else 0)" for k
    using assms(2,3) by (auto simp: within_ordered_def received_quantity_def db' sum_where_set stored_quantity_def
        split: option.splits)
  show ?thesis
  proof (rule within_orderedI [OF assms(2)])
    show "order_lines db' = order_lines db" "distinct_keys (receipt_lines db')"
      "list_all (\<lambda>(p, r). 0 \<le> rl_quantity r) (receipt_lines db')"
      using assms(2) q by (simp_all add: db' within_ordered_def list_all_dict_set)
    show "received_quantity db' k \<le> line_quantity m"
      if "find_line db k = Some m" "received_quantity db k \<le> line_quantity m" for k m
      using that rec [of k] l le by auto
  qed
qed

lemma delete_receipt_line_within:
  assumes "delete_receipt_line account_active force p db = Inr db'" "within_ordered db"
  shows "within_ordered db'"
proof -
  from assms(1) have db': "db' = db\<lparr>receipt_lines := dict_remove p (receipt_lines db)\<rparr>"
    by (auto simp: delete_receipt_line_def split: option.splits if_splits)
  show ?thesis
  proof (rule within_orderedI [OF assms(2)])
    show "order_lines db' = order_lines db" "distinct_keys (receipt_lines db')"
      "list_all (\<lambda>(p, r). 0 \<le> rl_quantity r) (receipt_lines db')"
      using assms(2) by (simp_all add: db' within_ordered_def list_all_dict_remove distinct_keys_remove)
    have "received_quantity db' k \<le> received_quantity db k" for k
      unfolding received_quantity_def db'
      using assms(2) by (simp add: within_ordered_def sum_where_remove list_all_iff case_prod_beta)
    then show "received_quantity db' k \<le> line_quantity m" if "received_quantity db k \<le> line_quantity m" for k m
      using that order.trans by blast
  qed
qed

lemma save_line_stores:
  assumes "save_line vat_total harvested s seen updated p l db = Inr db'"
  shows "\<exists>l'. line_quantity l' = line_quantity l \<and> line_order l' = line_order l \<and> 1 \<le> line_quantity l'
    \<and> db' = db\<lparr>order_lines := dict_set p l' (order_lines db)\<rparr>"
proof -
  from assms obtain l' where "check_line_balance vat_total s seen db p (build_total_amount l) = Inr l'"
      and "line_schema l' = Inr ()" and "db' = db\<lparr>order_lines := dict_set p l' (order_lines db)\<rparr>"
    by (auto simp: save_line_def and_then_eq_Inr)
  moreover from this have "line_quantity l' = line_quantity l" "line_order l' = line_order l"
    by (auto simp: check_line_balance_def Let_def build_total_amount_def split: option.splits if_splits)
  ultimately show ?thesis by (auto simp: line_schema_def split: if_splits)
qed

lemma save_line_within:
  assumes "save_line vat_total harvested s seen updated p l db = Inr db'" "within_ordered db"
    and "received_quantity db p \<le> line_quantity l"
  shows "within_ordered db'"
proof -
  from save_line_stores [OF assms(1)] obtain l' where l': "line_quantity l' = line_quantity l"
    and db': "db' = db\<lparr>order_lines := dict_set p l' (order_lines db)\<rparr>" by blast
  then have "received_quantity db' k = received_quantity db k" for k by (simp add: received_quantity_def)
  with assms(2,3) l' show ?thesis
    by (simp add: within_ordered_def db' list_all_dict_set received_quantity_def)
qed

lemma reception_step_within:
  "reception_step vat_total harvested account_active db db' \<Longrightarrow> within_ordered db \<Longrightarrow> within_ordered db'"
proof (induction rule: reception_step.induct)
  case (new_line s p l db db')
  then have "save_line vat_total harvested s db False p l db = Inr db'"
    by (simp add: create_order_line_def split: if_splits)
  moreover from save_line_stores [OF this] have "1 \<le> line_quantity l" by auto
  moreover from new_line.hyps(2) have "received_quantity db p = 0"
    unfolding received_quantity_def by (rule sum_where_none)
  ultimately show ?case using new_line.prems save_line_within by fastforce
next
  case (change_line s p l db db' old)
  then have "save_line vat_total harvested s db True p l db = Inr db'"
    by (simp add: update_order_line_def split: if_splits)
  moreover have "received_quantity db p \<le> line_quantity l"
    using within_ordered_line change_line.prems change_line.hyps(2,3) by fastforce
  ultimately show ?case using change_line.prems save_line_within by blast
next
  case (new_receipt p re db db')
  then have "order_lines db' = order_lines db" "receipt_lines db' = receipt_lines db"
    by (auto simp: create_receipt_def and_then_eq_Inr split: if_splits)
  with new_receipt.prems show ?case by (simp add: within_ordered_def received_quantity_def)
next
  case (receive_one p r db db')
  then have "save_receipt_line p r db = Inr db'" and new: "dict_get (receipt_lines db) p = None"
    by (simp_all add: create_receipt_line_def split: if_splits)
  from save_receipt_line_within [OF this(1) receive_one.prems] new show ?case by simp
next
  case (change_received p r db db' old)
  then have "save_receipt_line p r db = Inr db'" by (simp add: update_receipt_line_def)
  from save_receipt_line_within [OF this change_received.prems] change_received.hyps(2,3) show ?case by simp
next
  case (remove_received force p db db')
  then show ?case by (rule delete_receipt_line_within)
next
  case (order_sent sent today p db db')
  then have "order_lines db' = order_lines db" "receipt_lines db' = receipt_lines db"
    by (auto simp: send_order_def split: option.splits if_splits)
  with order_sent.prems show ?case by (simp add: within_ordered_def received_quantity_def)
qed

section \<open>The documented status of an order\<close>

text \<open>The docstring of \<open>status\<close>, on the statuses of all the lines of the order.\<close>

definition documented_status :: "line_status list \<Rightarrow> order_status" where
  "documented_status ss =
     (if ss = [] then ORDER_PENDING
      else if list_all (\<lambda>s. s = LINE_CANCELLED) ss then ORDER_CANCELLED
      else if list_all (\<lambda>s. s = LINE_CANCELLED \<or> s = LINE_RECEIVED) ss then RECEIVED
      else if list_ex (\<lambda>s. s = LINE_RECEIVED \<or> s = LINE_PARTIALLY_RECEIVED) ss then PARTIALLY_RECEIVED
      else if list_ex (\<lambda>s. s = LINE_ORDERED) ss then ORDERED
      else ORDER_PENDING)"

lemma documented_status_remdups: "documented_status (remdups ss) = documented_status ss"
  by (simp add: documented_status_def list_all_iff list_ex_iff) blast

lemma several_open_statuses:
  "distinct ss \<Longrightarrow> length ss > 1 \<Longrightarrow> LINE_CANCELLED \<notin> set ss \<Longrightarrow> status_of_statuses ss = documented_status ss"
proof -
  assume d: "distinct ss" and l: "length ss > 1" and c: "LINE_CANCELLED \<notin> set ss"
  from l obtain a b r where ss: "ss = a # b # r" by (cases ss; cases "tl ss") auto
  with d c have "a \<noteq> b" "a \<noteq> LINE_CANCELLED" "b \<noteq> LINE_CANCELLED" by auto
  then have "\<not> list_all (\<lambda>s. s = LINE_CANCELLED \<or> s = LINE_RECEIVED) ss" "\<not> list_all (\<lambda>s. s = LINE_CANCELLED) ss"
    using ss by auto
  moreover have "status_of_statuses ss = (if list_ex (\<lambda>s. s \<in> set received_statuses) ss then PARTIALLY_RECEIVED
      else if LINE_ORDERED \<in> set ss then ORDERED else ORDER_PENDING)"
    using c l by (simp add: status_of_statuses_def)
  moreover have "list_ex (\<lambda>s. s \<in> set received_statuses) ss
      = list_ex (\<lambda>s. s = LINE_RECEIVED \<or> s = LINE_PARTIALLY_RECEIVED) ss"
    by (simp add: received_statuses_def)
  moreover have "list_ex (\<lambda>s. s = LINE_ORDERED) ss = (LINE_ORDERED \<in> set ss)" by (simp add: list_ex_iff)
  ultimately show ?thesis using ss by (simp only: documented_status_def list.distinct if_False)
qed

lemma one_status: "status_of_statuses [s] = documented_status [s]"
  by (cases s) (simp_all add: status_of_statuses_def documented_status_def)

lemma status_without_cancelled:
  "length ss > 1 \<Longrightarrow> distinct ss \<Longrightarrow> LINE_CANCELLED \<in> set ss \<Longrightarrow>
   status_of_statuses ss = status_of_statuses (remove1 LINE_CANCELLED ss)"
  by (simp add: status_of_statuses_def)

lemma documented_without_cancelled:
  assumes "length ss > 1" "distinct ss" "LINE_CANCELLED \<in> set ss"
  shows "documented_status ss = documented_status (remove1 LINE_CANCELLED ss)"
proof -
  let ?ts = "remove1 LINE_CANCELLED ss"
  have ts: "set ?ts = set ss - {LINE_CANCELLED}" using assms(2) by (rule set_remove1_eq)
  have "length ?ts = length ss - 1" using assms(3) by (simp add: length_remove1)
  with assms(1) have ne: "?ts \<noteq> []" "ss \<noteq> []" by auto
  then obtain x where x: "x \<in> set ?ts" by (cases ?ts) auto
  with ts have nc: "\<not> list_all (\<lambda>s. s = LINE_CANCELLED) ss" "\<not> list_all (\<lambda>s. s = LINE_CANCELLED) ?ts"
    unfolding list_all_iff by blast+
  have "list_all (\<lambda>s. s = LINE_CANCELLED \<or> s = LINE_RECEIVED) ?ts = list_all (\<lambda>s. s = LINE_CANCELLED \<or> s = LINE_RECEIVED) ss"
    unfolding list_all_iff ts by blast
  moreover have "list_ex P ?ts = list_ex P ss" if "\<not> P LINE_CANCELLED" for P
    using that unfolding list_ex_iff ts by blast
  ultimately show ?thesis using ne nc by (simp add: documented_status_def)
qed

lemma status_is_documented: "distinct ss \<Longrightarrow> status_of_statuses ss = documented_status ss"
proof -
  assume d: "distinct ss"
  have open_case: "status_of_statuses ts = documented_status ts" if "distinct ts" "LINE_CANCELLED \<notin> set ts" for ts
  proof (cases "length ts > 1")
    case True
    with that show ?thesis by (intro several_open_statuses)
  next
    case False
    then consider "ts = []" | x where "ts = [x]" by (cases ts) auto
    then show ?thesis by cases (simp_all add: one_status, simp add: status_of_statuses_def documented_status_def)
  qed
  show ?thesis
  proof (cases "LINE_CANCELLED \<in> set ss")
    case True
    show ?thesis
    proof (cases "length ss > 1")
      case True
      with d \<open>LINE_CANCELLED \<in> set ss\<close> open_case [of "remove1 LINE_CANCELLED ss"] show ?thesis
        by (simp add: status_without_cancelled documented_without_cancelled)
    next
      case False
      with \<open>LINE_CANCELLED \<in> set ss\<close> have "ss = [LINE_CANCELLED]" by (cases ss) auto
      then show ?thesis by (simp add: one_status)
    qed
  qed (use open_case d in blast)
qed

end
