(* ===== verification/AcqRollover.thy ===== *)
theory AcqRollover
  imports AcqReceipts
begin

text \<open>
  The rollover of a budget: class \<open>AcqRollover\<close> of \<open>rero_ils/modules/acquisition/rollover.py\<close>. The accounts of
  a budget, its open orders and their open lines are copied to another budget; what has been created is
  kept on a stack, and deleted again when the process is aborted.

  The answers of the operator and the settings of the libraries are arguments, logging and tables are left
  out. The order lines are created without indexing, so that the checks of one line do not see the lines
  created before it.
\<close>

section \<open>State\<close>

record budget =
  budget_organisation :: string
  is_active :: bool

record acq_world =
  money :: accounting
  purch :: purchases
  budgets :: "(string, budget) dict"
  current_budget :: "(string, string) dict"
  serial :: nat

datatype created = New_budget string | New_account string | New_order string | New_line string

record rollover =
  stack :: "created list"
  new_accounts :: "(string, string) dict"
  new_orders :: "(string, string) dict"

type_synonym process = "acq_world \<times> rollover"

datatype transfer_option = NO_TRANSFER | ALLOCATED_AMOUNT

text \<open>The answers of the operator, the setting of a library, the VAT and the documents.\<close>

record rollover_env =
  interactive :: bool
  first_agreement :: bool
  key_confirmed :: bool
  last_agreement :: bool
  transfer_setting :: "string \<Rightarrow> transfer_option"
  vat :: "int \<Rightarrow> int \<Rightarrow> int"
  harvested_document :: "string \<Rightarrow> bool option"
  vendor_currency :: "string \<Rightarrow> string"

definition next_pid :: "acq_world \<Rightarrow> string" where
  "next_pid w = replicate (Suc (serial w)) (CHR ''n'')"

text \<open>A step ends with the state it leaves and, apart from it, the exception.\<close>

type_synonym outcome_of = "process \<times> py_error option"

definition proceed :: "outcome_of \<Rightarrow> (process \<Rightarrow> outcome_of) \<Rightarrow> outcome_of" where
  "proceed t f = (case t of (s, None) \<Rightarrow> f s | (s, Some e) \<Rightarrow> (s, Some e))"

fun each :: "('a \<Rightarrow> process \<Rightarrow> outcome_of) \<Rightarrow> 'a list \<Rightarrow> process \<Rightarrow> outcome_of" where
  "each f [] s = (s, None)"
| "each f (x # xs) s = proceed (f x s) (each f xs)"

section \<open>Budgets\<close>

definition set_active :: "string \<Rightarrow> bool \<Rightarrow> acq_world \<Rightarrow> acq_world" where
  "set_active b v w =
     (case dict_get (budgets w) b of
        None \<Rightarrow> w
      | Some bu \<Rightarrow> w\<lparr>budgets := dict_set b (bu\<lparr>is_active := v\<rparr>) (budgets w)\<rparr>)"

definition update_budgets :: "string \<Rightarrow> string \<Rightarrow> bool \<Rightarrow> bool \<Rightarrow> acq_world \<Rightarrow> acq_world" where
  "update_budgets orig dest orig_state dest_state w = set_active dest dest_state (set_active orig orig_state w)"

definition update_organisation :: "string \<Rightarrow> acq_world \<Rightarrow> acq_world" where
  "update_organisation dest w =
     (case dict_get (budgets w) dest of
        None \<Rightarrow> w
      | Some b \<Rightarrow> w\<lparr>current_budget := dict_set (budget_organisation b) dest (current_budget w)\<rparr>)"

section \<open>Deletion of what was created\<close>

text \<open>Forced deletions: an account goes from the database and the index, and its parent is reindexed; an order
  takes its lines with it.\<close>

definition delete_account :: "string \<Rightarrow> accounting \<Rightarrow> accounting" where
  "delete_account p s =
     (let s' = \<lparr>stored = dict_remove p (stored s), indexed = dict_remove p (indexed s)\<rparr> in
      case account_of s p of
        None \<Rightarrow> s'
      | Some a \<Rightarrow>
          (case account_parent a of
             None \<Rightarrow> s'
           | Some q \<Rightarrow>
               if account_of s' q = None then s'
               else (case reindex q s' of Inl e \<Rightarrow> s' | Inr s'' \<Rightarrow> s'')))"

fun delete_created :: "created \<Rightarrow> acq_world \<Rightarrow> acq_world" where
  "delete_created (New_budget p) w = w\<lparr>budgets := dict_remove p (budgets w)\<rparr>"
| "delete_created (New_account p) w = w\<lparr>money := delete_account p (money w)\<rparr>"
| "delete_created (New_order p) w =
     w\<lparr>purch := (purch w)\<lparr>orders := dict_remove p (orders (purch w)),
                          order_lines := filter (\<lambda>(q, l). line_order l \<noteq> p) (order_lines (purch w))\<rparr>\<rparr>"
| "delete_created (New_line p) w = w\<lparr>purch := (purch w)\<lparr>order_lines := dict_remove p (order_lines (purch w))\<rparr>\<rparr>"

text \<open>\<open>_abort_rollover\<close>: the stack has the latest creation first.\<close>

definition abort_rollover :: "string \<Rightarrow> string \<Rightarrow> process \<Rightarrow> acq_world" where
  "abort_rollover orig dest = (\<lambda>(w, r). fold delete_created (stack r) (update_budgets orig dest True False w))"

section \<open>Creation of the process\<close>

definition accounts_of_budget :: "accounts \<Rightarrow> string \<Rightarrow> accounts" where
  "accounts_of_budget accs b = filter (\<lambda>(p, a). account_budget a = b) accs"

definition validate_budgets :: "string \<Rightarrow> string \<Rightarrow> acq_world \<Rightarrow> py_error + unit" where
  "validate_budgets orig dest w =
     (case (dict_get (budgets w) orig, dict_get (budgets w) dest) of
        (Some o_b, Some d_b) \<Rightarrow>
          if budget_organisation o_b \<noteq> budget_organisation d_b then Inl (RolloverError ''IncompatibleBudgetError'')
          else if \<not> is_active o_b then Inl (RolloverError ''InactiveBudgetError'')
          else if accounts_of_budget (indexed (money w)) dest \<noteq> [] then Inl (RolloverError ''BudgetNotEmptyError'')
          else Inr ()
      | _ \<Rightarrow> Inl (ValueError ''BudgetDoesNotExist''))"

definition empty_rollover :: rollover where
  "empty_rollover = \<lparr>stack = [], new_accounts = [], new_orders = []\<rparr>"

text \<open>\<open>__init__\<close>: without a destination a new, inactive budget is created for the organisation of the original
  one. When the validation raises, the rollover is aborted; unless errors are propagated, the object then
  exists and can be run.\<close>

definition create_new_budget :: "string \<Rightarrow> acq_world \<Rightarrow> acq_world \<times> string" where
  "create_new_budget orig w =
     (let p = next_pid w;
          aco = (case dict_get (budgets w) orig of None \<Rightarrow> [] | Some b \<Rightarrow> budget_organisation b) in
      (w\<lparr>budgets := dict_set p \<lparr>budget_organisation = aco, is_active = False\<rparr> (budgets w), serial := Suc (serial w)\<rparr>, p))"

definition init_rollover :: "string \<Rightarrow> string option \<Rightarrow> acq_world \<Rightarrow> process \<times> string \<times> py_error option" where
  "init_rollover orig dest w =
     (let (w, d, r) =
        (case dest of
           Some d \<Rightarrow> (w, d, empty_rollover)
         | None \<Rightarrow> (let (w', d) = create_new_budget orig w in (w', d, empty_rollover\<lparr>stack := [New_budget d]\<rparr>))) in
      case validate_budgets orig d w of
        Inr u \<Rightarrow> ((w, r), d, None)
      | Inl e \<Rightarrow> ((abort_rollover orig d (w, r), r), d, Some e))"

section \<open>What is migrated\<close>

definition orders_to_migrate :: "acq_world \<Rightarrow> string list \<Rightarrow> (string \<times> order) list" where
  "orders_to_migrate w account_pids =
     filter (\<lambda>(p, aco).
       list_ex (\<lambda>(q, l). line_order l = p \<and> line_account l \<in> set account_pids) (order_lines (purch w))
       \<and> (get_status_by_pid (purch w) p \<in> {ORDERED, ORDER_PENDING, PARTIALLY_RECEIVED} \<or> standing_order aco))
     (orders (purch w))"

definition opened_order_lines :: "acq_world \<Rightarrow> string list \<Rightarrow> string list \<Rightarrow> (string \<times> order_line) list" where
  "opened_order_lines w order_pids account_pids =
     filter (\<lambda>(p, l). line_account l \<in> set account_pids \<and> line_order l \<in> set order_pids
       \<and> line_status_of (purch w) p l \<in> set open_line_statuses) (order_lines (purch w))"

text \<open>\<open>_validate_data_to_migrate\<close>: the number of errors; a line whose document is deleted raises.\<close>

fun count_line_errors :: "rollover_env \<Rightarrow> purchases \<Rightarrow> (string \<times> order_line) list \<Rightarrow> py_error + nat" where
  "count_line_errors env db [] = Inr 0"
| "count_line_errors env db ((p, l) # ls) =
     (case harvested_document env (line_document l) of
        None \<Rightarrow> Inl AttributeError
      | Some h \<Rightarrow>
          and_then (count_line_errors env db ls) (\<lambda>n.
            Inr (n + (if unreceived_quantity db p l = 0 then 1 else 0) + (if h then 1 else 0))))"

section \<open>Migration\<close>

definition raise_in :: "py_error \<Rightarrow> process \<Rightarrow> outcome_of" where
  "raise_in e s = (s, Some e)"

text \<open>The parent of an account has been migrated before it, since the accounts are sorted as a tree. Any error
  of the creation becomes a \<open>RolloverError\<close>.\<close>

definition migrate_account :: "string \<Rightarrow> rollover_env \<Rightarrow> string \<times> account \<Rightarrow> process \<Rightarrow> outcome_of" where
  "migrate_account dest env = (\<lambda>(p, a) (w, r).
     let parent = (case account_parent a of
                     None \<Rightarrow> Inr None
                   | Some q \<Rightarrow>
                       (case dict_get (new_accounts r) q of
                          None \<Rightarrow> Inl (RolloverError ''Unable to find new parent account'')
                        | Some q' \<Rightarrow> Inr (Some q'))) in
     case parent of
       Inl e \<Rightarrow> ((w, r), Some e)
     | Inr par \<Rightarrow>
         let n = next_pid w; a' = a\<lparr>account_budget := dest, account_parent := par\<rparr> in
         (case commit_account (spent_on (vat env) (purch w)) (money w) n a' of
            Inl e \<Rightarrow> ((w, r), Some (RolloverError ''Account creation failed''))
          | Inr s \<Rightarrow>
              (case reindex n s of
                 Inl e \<Rightarrow> ((w\<lparr>money := s\<rparr>, r), Some (RolloverError ''Account creation failed''))
               | Inr s \<Rightarrow>
                   ((w\<lparr>money := s, serial := Suc (serial w)\<rparr>,
                     r\<lparr>stack := New_account n # stack r, new_accounts := dict_set p n (new_accounts r)\<rparr>), None))))"

text \<open>The currency of an order is that of its vendor at the time of the creation.\<close>

definition migrate_order :: "rollover_env \<Rightarrow> string \<times> order \<Rightarrow> process \<Rightarrow> outcome_of" where
  "migrate_order env = (\<lambda>(p, aco) (w, r).
     let n = next_pid w;
         aco' = aco\<lparr>previous_version := Some p, order_currency := vendor_currency env (order_vendor aco)\<rparr> in
     ((w\<lparr>purch := (purch w)\<lparr>orders := dict_set n aco' (orders (purch w))\<rparr>,
         serial := Suc (serial w)\<rparr>,
       r\<lparr>stack := New_order n # stack r, new_orders := dict_set p n (new_orders r)\<rparr>), None))"

text \<open>\<open>seen\<close> is the index when the migration of the lines starts.\<close>

definition migrate_order_line :: "rollover_env \<Rightarrow> purchases \<Rightarrow> string \<times> order_line \<Rightarrow> process \<Rightarrow> outcome_of" where
  "migrate_order_line env seen = (\<lambda>(p, l) (w, r).
     case dict_get (new_orders r) (line_order l) of
       None \<Rightarrow> ((w, r), Some (RolloverError ''Unable to find new parent order''))
     | Some aco \<Rightarrow>
         (case dict_get (new_accounts r) (line_account l) of
            None \<Rightarrow> ((w, r), Some (RolloverError ''Unable to find new parent account''))
          | Some acc \<Rightarrow>
              let n = next_pid w;
                  l' = l\<lparr>line_order := aco, line_account := acc, line_quantity := unreceived_quantity seen p l\<rparr> in
              (case save_line (vat env) (harvested_document env) (money w) seen False n l' (purch w) of
                 Inl e \<Rightarrow> ((w, r), Some (RolloverError ''Order line creation failed''))
               | Inr db \<Rightarrow>
                   ((w\<lparr>purch := db, serial := Suc (serial w)\<rparr>, r\<lparr>stack := New_line n # stack r\<rparr>), None))))"

section \<open>The run\<close>

definition encumbrance_errors :: "rollover \<Rightarrow> acq_world \<Rightarrow> accounts \<Rightarrow> nat" where
  "encumbrance_errors r w accs =
     length (filter (\<lambda>(p, a).
       case dict_get (new_accounts r) p of
         None \<Rightarrow> True
       | Some n \<Rightarrow> self_encumbrance (purch w) p \<noteq> self_encumbrance (purch w) n) accs)"

definition check_that :: "bool \<Rightarrow> py_error \<Rightarrow> process \<Rightarrow> outcome_of" where
  "check_that ok e s = (s, if ok then None else Some e)"

definition migrate_all :: "string \<Rightarrow> rollover_env \<Rightarrow> accounts \<Rightarrow> process \<Rightarrow> outcome_of" where
  "migrate_all dest env accs = (\<lambda>(w, r).
     let account_pids = map fst accs;
         ords = orders_to_migrate w account_pids;
         ls = opened_order_lines w (map fst ords) account_pids in
     case count_line_errors env (purch w) ls of
       Inl e \<Rightarrow> ((w, r), Some e)
     | Inr n \<Rightarrow>
         if n \<noteq> 0 then ((w, r), Some (RolloverError ''Data validation failed''))
         else
           proceed (each (migrate_account dest env) accs (w, r)) (\<lambda>s.
           proceed (each (migrate_order env) ords s) (\<lambda>(w, r).
           each (migrate_order_line env (purch w)) ls (w, r))))"

definition rollover_body :: "string \<Rightarrow> string \<Rightarrow> rollover_env \<Rightarrow> process \<Rightarrow> outcome_of" where
  "rollover_body orig dest env = (\<lambda>(w, r).
     let orig_accounts = sort_accounts_as_tree (accounts_of_budget (stored (money w)) orig);
         accs = filter (\<lambda>(p, a). transfer_setting env (account_library a) \<noteq> NO_TRANSFER) orig_accounts in
     if orig_accounts = [] then ((w, r), Some (RolloverError ''Unable to find any account to rollovered''))
     else
       proceed (check_that (\<not> interactive env \<or> first_agreement env) (RolloverError ''User disagrees'') (w, r)) (\<lambda>s.
       proceed (check_that (\<not> interactive env \<or> key_confirmed env) (RolloverError ''Confirmation key mismatch'') s) (\<lambda>s.
       proceed (migrate_all dest env accs s) (\<lambda>(w, r).
       proceed (check_that (encumbrance_errors r w accs = 0) (RolloverError ''errors on completion table'') (w, r)) (\<lambda>s.
       proceed (check_that (\<not> interactive env \<or> last_agreement env) (RolloverError ''User disagrees'') s) (\<lambda>(w, r).
         ((update_organisation dest (update_budgets orig dest False True w), r), None)))))))"

text \<open>\<open>run\<close>: a \<open>RolloverError\<close> aborts the process; any other exception leaves it as it is.\<close>

definition run_rollover :: "string \<Rightarrow> string \<Rightarrow> rollover_env \<Rightarrow> process \<Rightarrow> acq_world \<times> py_error option" where
  "run_rollover orig dest env s =
     (case rollover_body orig dest env s of
        ((w, r), None) \<Rightarrow> (w, None)
      | ((w, r), Some (RolloverError e)) \<Rightarrow> (abort_rollover orig dest (w, r), Some (RolloverError e))
      | ((w, r), Some e) \<Rightarrow> (w, Some e))"

end
