(* ===== verification/AcqRollback.thy ===== *)
theory AcqRollback
  imports AcqFunds AcqRollover
begin

text \<open>
  The abortion of a rollover gives back what was there: the stack of created records undoes the migration.
\<close>

section \<open>Removing what was added\<close>

definition unused :: "(string, 'a) dict \<Rightarrow> string \<Rightarrow> bool" where
  "unused d p \<longleftrightarrow> p \<notin> fst ` set d"

lemma dict_remove_set: "unused d p \<Longrightarrow> dict_remove p (dict_set p x d) = d"
  by (induction d) (auto simp: unused_def dict_remove_def dict_set_def)

lemma dict_remove_unused: "unused d p \<Longrightarrow> dict_remove p d = d"
  by (induction d) (auto simp: unused_def dict_remove_def)

lemma unused_set: "unused d q \<Longrightarrow> q \<noteq> p \<Longrightarrow> unused (dict_set p x d) q"
  by (induction d) (auto simp: unused_def dict_set_def)

lemma unused_get: "unused d p \<Longrightarrow> dict_get d p = None"
  by (auto simp: unused_def dict_get_def map_of_eq_None_iff)

definition nth_pid :: "nat \<Rightarrow> string" where
  "nth_pid k = replicate k (CHR ''n'')"

lemma next_pid_nth: "next_pid w = nth_pid (Suc (serial w))"
  by (simp add: next_pid_def nth_pid_def)

lemma nth_pid_eq [simp]: "nth_pid j = nth_pid k \<longleftrightarrow> j = k"
  by (metis length_replicate nth_pid_def)

section \<open>The invariant of the migration\<close>

text \<open>No record uses a pid that is still to be given, as its own or as a reference.\<close>

definition unused_in_world :: "acq_world \<Rightarrow> string \<Rightarrow> bool" where
  "unused_in_world w p \<longleftrightarrow>
     unused (stored (money w)) p \<and> unused (orders (purch w)) p \<and> unused (order_lines (purch w)) p
     \<and> list_all (\<lambda>(q, a). account_parent a \<noteq> Some p) (stored (money w))
     \<and> list_all (\<lambda>(q, l). line_order l \<noteq> p) (order_lines (purch w))"

definition fresh_world :: "acq_world \<Rightarrow> bool" where
  "fresh_world w \<longleftrightarrow> (\<forall>k > serial w. unused_in_world w (nth_pid k))"

definition old_pids :: "acq_world \<Rightarrow> (string, string) dict \<Rightarrow> bool" where
  "old_pids w d \<longleftrightarrow> (\<forall>k > serial w. nth_pid k \<notin> snd ` set d)"

definition ranked :: "accounts \<Rightarrow> bool" where
  "ranked accs \<longleftrightarrow> (\<exists>rank. \<forall>x y. parent_of accs x = Some y \<longrightarrow> rank y < (rank x :: nat))"

definition undone :: "process \<Rightarrow> accounting \<times> purchases" where
  "undone = (\<lambda>(w, r). (money (fold delete_created (stack r) w), purch (fold delete_created (stack r) w)))"

definition migrating :: "accounting \<times> purchases \<Rightarrow> process \<Rightarrow> bool" where
  "migrating m = (\<lambda>(w, r).
     fresh_world w \<and> in_step (money w) \<and> ranked (stored (money w)) \<and> old_pids w (new_orders r)
     \<and> old_pids w (new_accounts r) \<and> undone (w, r) = m)"

lemma delete_created_cong:
  "money v = money w \<Longrightarrow> purch v = purch w \<Longrightarrow>
   money (delete_created c v) = money (delete_created c w) \<and> purch (delete_created c v) = purch (delete_created c w)"
  by (cases c) simp_all

lemma fold_delete_cong:
  "money v = money w \<Longrightarrow> purch v = purch w \<Longrightarrow>
   money (fold delete_created st v) = money (fold delete_created st w)
   \<and> purch (fold delete_created st v) = purch (fold delete_created st w)"
proof (induction st arbitrary: v w)
  case Nil
  then show ?case by simp
next
  case (Cons c st)
  from Cons.IH [of "delete_created c v" "delete_created c w"] delete_created_cong [OF Cons.prems] show ?case by simp
qed

text \<open>A creation keeps the invariant when its deletion gives back the money and the purchases.\<close>

lemma undone_push:
  assumes "money (delete_created c w') = money w" "purch (delete_created c w') = purch w" "stack r' = c # stack r"
  shows "undone (w', r') = undone (w, r)"
  using fold_delete_cong [OF assms(1,2), of "stack r"] assms(3) by (simp add: undone_def)

section \<open>Accounts\<close>

lemma dict_set_unused: "unused d p \<Longrightarrow> dict_set p x d = d @ [(p, x)]"
  by (induction d) (auto simp: unused_def dict_set_def)

lemma parent_of_dict_set: "parent_of (dict_set p a accs) q = (if q = p then account_parent a else parent_of accs q)"
  by (simp add: parent_of_def)

lemma ranked_dict_set:
  assumes r: "ranked accs" and u: "unused accs p" and np: "list_all (\<lambda>(q, b). account_parent b \<noteq> Some p) accs"
    and pa: "account_parent a \<noteq> Some p"
  shows "ranked (dict_set p a accs)"
proof -
  from r obtain rank where rank: "\<And>x y. parent_of accs x = Some y \<Longrightarrow> rank y < (rank x :: nat)"
    by (auto simp: ranked_def)
  let ?rank = "rank(p := (case account_parent a of None \<Rightarrow> 0 | Some q \<Rightarrow> Suc (rank q)))"
  have "y \<noteq> p" if "parent_of accs x = Some y" for x y
    using that np by (auto simp: parent_of_def dict_get_def list_all_iff split: option.splits dest!: map_of_SomeD)
  then have "parent_of (dict_set p a accs) x = Some y \<longrightarrow> ?rank y < ?rank x" for x y
    using rank [of x y] pa by (auto simp: parent_of_dict_set)
  then show ?thesis unfolding ranked_def by blast
qed

lemma reindex_in_step:
  assumes "in_step s" "reindex q s = Inr s'"
  shows "s' = s"
proof -
  from assms(2) obtain ps where "s' = index_accounts (q # ps) s" by (auto simp: reindex_def and_then_eq_Inr)
  moreover have "indexed (index_accounts (q # ps) s) = indexed s"
    using assms(1) by (intro index_accounts_same) (simp add: in_step_def account_of_def list_all_iff)
  ultimately show ?thesis by simp
qed

lemma add_account:
  assumes s: "in_step s" and u: "unused (stored s) p"
    and r: "reindex p (s\<lparr>stored := dict_set p a (stored s)\<rparr>) = Inr s'"
  shows "in_step s' \<and> stored s' = dict_set p a (stored s) \<and> delete_account p s' = s"
proof -
  let ?s = "s\<lparr>stored := dict_set p a (stored s)\<rparr>"
  from r obtain ps where s': "s' = index_accounts (p # ps) ?s" by (auto simp: reindex_def and_then_eq_Inr)
  have i: "index_accounts (p # ps) ?s = index_accounts ps (?s\<lparr>indexed := stored ?s\<rparr>)"
    using s by (simp add: index_accounts_def account_of_def in_step_def)
  have "indexed s' = stored ?s" unfolding s' i by (subst index_accounts_same) (simp_all add: account_of_def list_all_iff)
  moreover have st: "stored s' = dict_set p a (stored s)" by (simp add: s')
  ultimately have step: "in_step s'" by (simp add: in_step_def)
  let ?d = "\<lparr>stored = dict_remove p (stored s'), indexed = dict_remove p (indexed s')\<rparr>"
  have d: "?d = s" using st step s dict_remove_set [OF u] by (simp add: in_step_def)
  have "delete_account p s' = s"
    using reindex_in_step [OF s] unfolding delete_account_def d by (auto simp: Let_def split: option.splits sum.splits)
  with st step show ?thesis by simp
qed

section \<open>The steps of the migration\<close>

lemma fresh_money:
  assumes "fresh_world w" "stored s = dict_set (next_pid w) a (stored (money w))"
    and "\<And>k. k > serial w \<Longrightarrow> account_parent a \<noteq> Some (nth_pid k)"
  shows "fresh_world (w\<lparr>money := s, serial := Suc (serial w)\<rparr>)"
  unfolding fresh_world_def
proof (intro allI impI)
  fix k assume "k > serial (w\<lparr>money := s, serial := Suc (serial w)\<rparr>)"
  then have k: "k > Suc (serial w)" by simp
  with assms(1) have "unused_in_world w (nth_pid k)" by (simp add: fresh_world_def)
  with assms(2) assms(3) [of k] k show "unused_in_world (w\<lparr>money := s, serial := Suc (serial w)\<rparr>) (nth_pid k)"
    by (simp add: unused_in_world_def next_pid_nth unused_set list_all_dict_set)
qed

lemma old_pids_set: "old_pids w d \<Longrightarrow> serial w' = Suc (serial w) \<Longrightarrow> old_pids w' (dict_set q (next_pid w) d)"
proof -
  assume o: "old_pids w d" and s: "serial w' = Suc (serial w)"
  have "snd ` set (dict_set q (next_pid w) d) \<subseteq> insert (next_pid w) (snd ` set d)"
    by (induction d) (auto simp: dict_set_def)
  moreover have "nth_pid k \<noteq> next_pid w" "nth_pid k \<notin> snd ` set d" if "k > serial w'" for k
    using o s that by (simp_all add: old_pids_def next_pid_nth)
  ultimately show ?thesis unfolding old_pids_def by blast
qed

lemma old_pids_same: "old_pids w d \<Longrightarrow> serial w' = Suc (serial w) \<Longrightarrow> old_pids w' d"
  by (simp add: old_pids_def)

lemma old_pids_get: "old_pids w d \<Longrightarrow> dict_get d q = Some p \<Longrightarrow> k > serial w \<Longrightarrow> p \<noteq> nth_pid k"
  by (force simp: old_pids_def dest: dict_get_in)

lemma migrate_account_keeps:
  assumes "migrating m (w, r)"
  shows "migrating m (fst (migrate_account dest env (p, a) (w, r)))"
proof -
  note I = assms [unfolded migrating_def prod.case]
  let ?n = "next_pid w"
  define parent where "parent = (case account_parent a of
      None \<Rightarrow> Inr None
    | Some q \<Rightarrow> (case dict_get (new_accounts r) q of
        None \<Rightarrow> Inl (RolloverError ''Unable to find new parent account'') | Some q' \<Rightarrow> Inr (Some q')))"
  show ?thesis
  proof (cases parent)
    case (Inl e)
    then show ?thesis using assms by (simp add: migrate_account_def parent_def [symmetric] Let_def)
  next
    case (Inr par)
    let ?a = "a\<lparr>account_budget := dest, account_parent := par\<rparr>"
    have u: "unused_in_world w ?n" using I by (simp add: fresh_world_def next_pid_nth)
    have par: "par \<noteq> Some (nth_pid k)" if "k > serial w" for k
      using Inr I that by (auto simp: parent_def dest: old_pids_get split: option.splits)
    show ?thesis
    proof (cases "commit_account (spent_on (vat env) (purch w)) (money w) ?n ?a")
      case (Inl e)
      with Inr assms show ?thesis by (simp add: migrate_account_def parent_def [symmetric] Let_def)
    next
      case c: (Inr s)
      then have s: "s = (money w)\<lparr>stored := dict_set ?n ?a (stored (money w))\<rparr>"
        by (auto simp: commit_account_def and_then_eq_Inr split: if_splits)
      have "ranked (stored s)"
        using I u par [of "Suc (serial w)"] by (simp add: s ranked_dict_set unused_in_world_def next_pid_nth)
      then obtain ps where "get_ancestors s ?n = Inr ps"
        using get_ancestors_returns [of s] unfolding ranked_def by blast
      then obtain s' where s': "reindex ?n s = Inr s'" by (simp add: reindex_def)
      from add_account [of "money w" ?n ?a s'] s s' I u
      have a: "in_step s'" "stored s' = dict_set ?n ?a (stored (money w))" "delete_account ?n s' = money w"
        by (simp_all add: unused_in_world_def)
      let ?w = "w\<lparr>money := s', serial := Suc (serial w)\<rparr>"
      let ?r = "r\<lparr>stack := New_account ?n # stack r, new_accounts := dict_set p ?n (new_accounts r)\<rparr>"
      have "undone (?w, ?r) = undone (w, r)" by (rule undone_push [of "New_account ?n"]) (simp_all add: a)
      moreover have "account_parent ?a \<noteq> Some (nth_pid k)" if "k > serial w" for k using par [OF that] by simp
      then have "fresh_world ?w" using I a(2) by (intro fresh_money) blast+
      moreover have "ranked (stored s')" using \<open>ranked (stored s)\<close> a s by simp
      moreover have "old_pids ?w (new_orders ?r)" "old_pids ?w (new_accounts ?r)"
        using I by (auto intro: old_pids_same old_pids_set)
      ultimately have "migrating m (?w, ?r)" using I a by (simp add: migrating_def)
      with Inr c s' show ?thesis by (simp add: migrate_account_def parent_def [symmetric] Let_def)
    qed
  qed
qed

lemma migrate_order_keeps:
  assumes "migrating m (w, r)"
  shows "migrating m (fst (migrate_order env (p, aco) (w, r)))"
proof -
  note I = assms [unfolded migrating_def prod.case]
  let ?n = "next_pid w"
  let ?aco = "aco\<lparr>previous_version := Some p, order_currency := vendor_currency env (order_vendor aco)\<rparr>"
  let ?w = "w\<lparr>purch := (purch w)\<lparr>orders := dict_set ?n ?aco (orders (purch w))\<rparr>, serial := Suc (serial w)\<rparr>"
  let ?r = "r\<lparr>stack := New_order ?n # stack r, new_orders := dict_set p ?n (new_orders r)\<rparr>"
  have u: "unused_in_world w ?n" using I by (simp add: fresh_world_def next_pid_nth)
  then have "filter (\<lambda>(q, l). line_order l \<noteq> ?n) (order_lines (purch w)) = order_lines (purch w)"
    by (auto simp: unused_in_world_def list_all_iff intro!: filter_True)
  with u have "undone (?w, ?r) = undone (w, r)"
    by (intro undone_push [of "New_order ?n"]) (simp_all add: unused_in_world_def dict_remove_set)
  moreover have "fresh_world ?w" using I by (auto simp: fresh_world_def unused_in_world_def next_pid_nth unused_set)
  moreover have "old_pids ?w (new_orders ?r)" "old_pids ?w (new_accounts ?r)"
    using I by (auto intro: old_pids_same old_pids_set)
  ultimately have "migrating m (?w, ?r)" using I by (simp add: migrating_def)
  then show ?thesis by (simp add: migrate_order_def Let_def)
qed

lemma migrate_order_line_keeps:
  assumes "migrating m (w, r)"
  shows "migrating m (fst (migrate_order_line env seen (p, l) (w, r)))"
proof -
  note I = assms [unfolded migrating_def prod.case]
  let ?n = "next_pid w"
  show ?thesis
  proof (cases "dict_get (new_orders r) (line_order l)")
    case None
    with assms show ?thesis by (simp add: migrate_order_line_def)
  next
    case aco: (Some aco)
    show ?thesis
    proof (cases "dict_get (new_accounts r) (line_account l)")
      case None
      with assms aco show ?thesis by (simp add: migrate_order_line_def)
    next
      case acc: (Some acc)
      let ?l = "l\<lparr>line_order := aco, line_account := acc, line_quantity := unreceived_quantity seen p l\<rparr>"
      let ?save = "save_line (vat env) (harvested_document env) (money w) seen False ?n ?l (purch w)"
      show ?thesis
      proof (cases ?save)
        case (Inl e)
        with assms aco acc show ?thesis by (simp add: migrate_order_line_def Let_def)
      next
        case (Inr db)
        from save_line_stores [OF Inr] obtain l' where l': "line_order l' = aco"
          and db: "db = (purch w)\<lparr>order_lines := dict_set ?n l' (order_lines (purch w))\<rparr>"
          by auto
        let ?w = "w\<lparr>purch := db, serial := Suc (serial w)\<rparr>"
        let ?r = "r\<lparr>stack := New_line ?n # stack r\<rparr>"
        have u: "unused_in_world w ?n" using I by (simp add: fresh_world_def next_pid_nth)
        then have "undone (?w, ?r) = undone (w, r)"
          by (intro undone_push [of "New_line ?n"]) (simp_all add: db unused_in_world_def dict_remove_set)
        moreover have "fresh_world ?w"
          unfolding fresh_world_def
        proof (intro allI impI)
          fix k assume "k > serial ?w"
          then have k: "k > Suc (serial w)" by simp
          with I have "unused_in_world w (nth_pid k)" by (simp add: fresh_world_def)
          moreover have "aco \<noteq> nth_pid k" using old_pids_get [of w "new_orders r"] I aco k by auto
          ultimately show "unused_in_world ?w (nth_pid k)"
            using l' k by (simp add: db unused_in_world_def next_pid_nth unused_set list_all_dict_set)
        qed
        moreover have "old_pids ?w (new_orders ?r)" "old_pids ?w (new_accounts ?r)"
          using I by (auto intro: old_pids_same)
        ultimately have "migrating m (?w, ?r)" using I by (simp add: migrating_def)
        with aco acc Inr show ?thesis by (simp add: migrate_order_line_def Let_def)
      qed
    qed
  qed
qed

section \<open>The whole run\<close>

lemma proceed_keeps:
  "migrating m (fst t) \<Longrightarrow> (\<And>s. migrating m s \<Longrightarrow> migrating m (fst (f s))) \<Longrightarrow> migrating m (fst (proceed t f))"
  by (cases t; cases "snd t") (auto simp: proceed_def)

lemma each_keeps:
  "(\<And>x s. migrating m s \<Longrightarrow> migrating m (fst (f x s))) \<Longrightarrow> migrating m s \<Longrightarrow> migrating m (fst (each f xs s))"
  by (induction xs arbitrary: s) (simp_all add: proceed_keeps)

lemma check_that_keeps [simp]: "fst (check_that ok e s) = s"
  by (simp add: check_that_def)

lemma migrate_all_keeps:
  assumes "migrating m s"
  shows "migrating m (fst (migrate_all dest env accs s))"
proof -
  obtain w r where s: "s = (w, r)" by (cases s)
  have a: "migrating m (fst (migrate_account dest env x t))" if "migrating m t" for x t
    using migrate_account_keeps that by (cases x; cases t) simp
  have b: "migrating m (fst (migrate_order env x t))" if "migrating m t" for x t
    using migrate_order_keeps that by (cases x; cases t) simp
  have c: "migrating m (fst (migrate_order_line env seen x t))" if "migrating m t" for x t seen
    using migrate_order_line_keeps that by (cases x; cases t) simp
  have d: "migrating m (fst ((\<lambda>(w, r). each (migrate_order_line env (purch w)) zs (w, r)) t))"
    if "migrating m t" for t zs
    using each_keeps [of m "migrate_order_line env (purch (fst t))" t zs] c that by (simp add: case_prod_beta)
  have abc: "migrating m (fst (proceed (each (migrate_account dest env) xs t) (\<lambda>t.
      proceed (each (migrate_order env) ys t) (\<lambda>(w, r). each (migrate_order_line env (purch w)) zs (w, r)))))"
    if "migrating m t" for t xs ys zs
    using that by (intro proceed_keeps each_keeps a b d)
  show ?thesis
    using assms abc [of "(w, r)" accs "orders_to_migrate w (map fst accs)"]
    by (simp add: s migrate_all_def Let_def split: sum.splits)
qed

text \<open>Whatever makes the body of \<open>run\<close> raise, the stack undoes it.\<close>

lemma body_keeps:
  assumes "migrating m s" "rollover_body orig dest env s = (t, Some e)"
  shows "migrating m t"
proof -
  define orig_accounts where "orig_accounts = sort_accounts_as_tree (accounts_of_budget (stored (money (fst s))) orig)"
  define accs where "accs = filter (\<lambda>(p, a). transfer_setting env (account_library a) \<noteq> NO_TRANSFER) orig_accounts"
  obtain t' e' where m: "migrate_all dest env accs s = (t', e')" by (cases "migrate_all dest env accs s")
  have "migrating m t'" using migrate_all_keeps [OF assms(1), of dest env accs] m by simp
  moreover have "t = s \<or> t = t'"
    using assms(2) m
    by (auto simp: rollover_body_def Let_def case_prod_beta orig_accounts_def [symmetric] accs_def [symmetric]
        proceed_def check_that_def split: if_splits option.splits prod.splits)
  ultimately show ?thesis using assms(1) by auto
qed

definition clean_world :: "acq_world \<Rightarrow> bool" where
  "clean_world w \<longleftrightarrow> fresh_world w \<and> in_step (money w) \<and> ranked (stored (money w))"

lemma init_migrating:
  assumes "clean_world w" "init_rollover orig dest w = (s, d, None)"
  shows "migrating (money w, purch w) s"
  using assms
  by (auto simp: clean_world_def init_rollover_def create_new_budget_def empty_rollover_def migrating_def undone_def
      old_pids_def fresh_world_def unused_in_world_def Let_def split: option.splits sum.splits)

lemma update_budgets_money [simp]:
  "money (update_budgets orig dest a b w) = money w" "purch (update_budgets orig dest a b w) = purch w"
  by (auto simp: update_budgets_def set_active_def split: option.splits)

lemma aborted_rollover:
  assumes "clean_world w" "init_rollover orig dest w = (s, d, None)"
    and "run_rollover orig d env s = (w', Some (RolloverError e))"
  shows "money w' = money w \<and> purch w' = purch w"
proof -
  from assms(3) obtain v r where b: "rollover_body orig d env s = ((v, r), Some (RolloverError e))"
    and w': "w' = abort_rollover orig d (v, r)"
    by (auto simp: run_rollover_def split: prod.splits option.splits py_error.splits)
  from body_keeps [OF init_migrating [OF assms(1,2)] b]
  have "money (fold delete_created (stack r) v) = money w" "purch (fold delete_created (stack r) v) = purch w"
    by (simp_all add: migrating_def undone_def)
  with fold_delete_cong [of "update_budgets orig d True False v" v "stack r"] show ?thesis
    by (simp add: w' abort_rollover_def)
qed

end
