(* ===== verification/AcqProperties.thy ===== *)
theory AcqProperties
  imports AcqRollback
begin

text \<open>
  The properties of acquisition: transfers of funds, reception of orders, status of orders, rollover of a
  budget. The samples of the witnesses are small trees of accounts and one order.
\<close>

section \<open>Samples\<close>

definition sample_account :: "string \<Rightarrow> string option \<Rightarrow> int \<Rightarrow> account" where
  "sample_account n par amount =
     \<lparr>account_name = n, account_parent = par, allocated = amount, account_budget = ''1'', account_library = ''1'',
      encumbrance_exceedance = 0, expenditure_exceedance = 0\<rparr>"

text \<open>Books (with novels, and first novels below) and periodicals below the root, and another root.\<close>

definition sample_tree :: accounts where
  "sample_tree =
     [(''1'', sample_account ''root'' None 100000), (''2'', sample_account ''books'' (Some ''1'') 40000),
      (''3'', sample_account ''novels'' (Some ''2'') 35000), (''4'', sample_account ''periodicals'' (Some ''1'') 30000),
      (''5'', sample_account ''other'' None 50000)]"

definition sample_accounting :: accounting where
  "sample_accounting = \<lparr>stored = sample_tree, indexed = sample_tree\<rparr>"

definition nothing_spent :: "string \<Rightarrow> int" where
  "nothing_spent p = 0"

section \<open>Transfers\<close>






section \<open>Orders and their reception\<close>



definition sample_line :: order_line where
  "sample_line =
     \<lparr>line_order = ''1'', line_account = ''4'', line_document = ''7'', line_amount = 2500, line_quantity = 4,
      line_discount = 0, line_cancelled = False, line_total = 10000\<rparr>"

definition sample_purchases :: purchases where
  "sample_purchases =
     \<lparr>orders = [(''1'', \<lparr>order_date = Some 737400, order_vendor = ''v'', order_currency = ''CHF'', standing_order = False,
                        previous_version = None\<rparr>)],
      order_lines = [(''1'', sample_line)],
      receipts = [(''1'', \<lparr>receipt_order = ''1'', adjustments = []\<rparr>)],
      receipt_lines = []\<rparr>"

definition sample_receipt_line :: "int \<Rightarrow> receipt_line" where
  "sample_receipt_line n =
     \<lparr>rl_receipt = ''1'', rl_order_line = ''1'', rl_amount = 2500, rl_quantity = n, rl_vat_rate = 0\<rparr>"


text \<open>The update of an order line has no such check: a line of four with three received may be given a
  quantity of two, and is then partially received for ever.\<close>

lemma lowered_quantity_breaks_reception:
  "let db = sample_purchases\<lparr>receipt_lines := [(''1'', sample_receipt_line 3)]\<rparr>;
       money = \<lparr>stored = sample_tree, indexed = sample_tree\<rparr> in
   case update_order_line (\<lambda>n r. n) (\<lambda>d. Some False) money ''1'' (sample_line\<lparr>line_quantity := 2\<rparr>) db of
     Inl e \<Rightarrow> False
   | Inr db' \<Rightarrow> received_quantity db' ''1'' = 3 \<and> get_status_by_pid db' ''1'' = PARTIALLY_RECEIVED
       \<and> (case find_line db' ''1'' of None \<Rightarrow> False | Some l \<Rightarrow> line_quantity l = 2)"
  by code_simp

text \<open>A cancelled line that is taken back is not checked against the money of its account: the amount to check
  is the difference of the totals, which is zero.\<close>

lemma uncancelled_line_overdraws:
  "let db = sample_purchases\<lparr>order_lines := [(''1'', sample_line\<lparr>line_cancelled := True\<rparr>)]\<rparr>;
       money = \<lparr>stored = [(''4'', sample_account ''books'' None 5000)], indexed = [(''4'', sample_account ''books'' None 5000)]\<rparr> in
   case update_order_line (\<lambda>n r. n) (\<lambda>d. Some False) money ''1'' sample_line db of
     Inl e \<Rightarrow> False
   | Inr db' \<Rightarrow> self_encumbrance db' ''4'' = 10000"
  by code_simp

section \<open>Rollover\<close>

text \<open>C23. A rollover that a \<open>RolloverError\<close> aborts, at whatever step, leaves the accounts, orders, order lines and
  receipts as they were before it was created, in the database and in the index.\<close>

theorem aborted_rollover_restores:
  assumes "clean_world w" "init_rollover orig dest w = (s, d, None)"
    and "run_rollover orig d env s = (w', Some (RolloverError e))"
  shows "money w' = money w \<and> purch w' = purch w"
  using assms by (rule aborted_rollover)

definition sample_world :: acq_world where
  "sample_world =
     \<lparr>money = sample_accounting, purch = sample_purchases,
      budgets = [(''1'', \<lparr>budget_organisation = ''1'', is_active = True\<rparr>), (''2'', \<lparr>budget_organisation = ''1'', is_active = False\<rparr>)],
      current_budget = [(''1'', ''1'')], serial = 0\<rparr>"

definition sample_env :: rollover_env where
  "sample_env =
     \<lparr>interactive = True, first_agreement = True, key_confirmed = True, last_agreement = False,
      transfer_setting = (\<lambda>l. ALLOCATED_AMOUNT), vat = (\<lambda>n r. n), harvested_document = (\<lambda>d. Some False),
      vendor_currency = (\<lambda>v. ''CHF'')\<rparr>"

lemma clean_sample: "clean_world sample_world"
proof -
  have "unused_in_world sample_world (nth_pid k)" if "k > 0" for k
  proof -
    from that obtain j where "nth_pid k = CHR ''n'' # nth_pid j" by (cases k) (auto simp: nth_pid_def)
    then show ?thesis
      by (simp add: unused_in_world_def unused_def sample_world_def sample_accounting_def sample_tree_def
          sample_account_def sample_purchases_def sample_line_def)
  qed
  then have "fresh_world sample_world" by (simp add: fresh_world_def sample_world_def)
  moreover have "in_step (money sample_world)" by code_simp
  moreover have "ranked (stored (money sample_world))"
  proof -
    let ?rank = "\<lambda>p. if p = ''3'' then 2 else if p = ''2'' \<or> p = ''4'' then (1::nat) else 0"
    have "parent_of (stored (money sample_world)) x = Some y \<longrightarrow> ?rank y < ?rank x" for x y
      by (simp add: parent_of_def dict_get_def sample_world_def sample_accounting_def sample_tree_def sample_account_def)
    then show ?thesis unfolding ranked_def by (intro exI [of _ ?rank]) blast
  qed
  ultimately show ?thesis by (simp add: clean_world_def)
qed

theorem aborted_rollover_restores_witness:
  "\<exists>w'. run_rollover ''1'' ''2'' sample_env (sample_world, empty_rollover) = (w', Some (RolloverError ''User disagrees''))
     \<and> stored (money w') = sample_tree"
proof -
  let ?r = "run_rollover ''1'' ''2'' sample_env (sample_world, empty_rollover)"
  have i: "init_rollover ''1'' (Some ''2'') sample_world = ((sample_world, empty_rollover), ''2'', None)" by code_simp
  have "snd ?r = Some (RolloverError ''User disagrees'')" by code_simp
  then obtain w' where r: "?r = (w', Some (RolloverError ''User disagrees''))" by (metis prod.collapse)
  have "money sample_world = sample_accounting" by (simp add: sample_world_def)
  with aborted_rollover_restores [OF clean_sample i r] r show ?thesis by (simp add: sample_accounting_def)
qed

text \<open>A rollover of a budget that is not active is refused, but the abortion sets the flags as if it had been
  running: the closed budget becomes active, and the destination, were it in use, inactive.\<close>

theorem refused_rollover_reactivates:
  assumes "dict_get (budgets w) orig = Some b" "dict_get (budgets w) dest = Some c" "orig \<noteq> dest"
    and "budget_organisation b = budget_organisation c" "\<not> is_active b"
  shows "\<exists>w' r. init_rollover orig (Some dest) w = ((w', r), dest, Some (RolloverError ''InactiveBudgetError''))
    \<and> map_option is_active (dict_get (budgets w') orig) = Some True
    \<and> map_option is_active (dict_get (budgets w') dest) = Some False"
proof -
  have v: "validate_budgets orig dest w = Inl (RolloverError ''InactiveBudgetError'')"
    using assms by (simp add: validate_budgets_def)
  have "dict_get (budgets (update_budgets orig dest True False w)) orig = Some (b\<lparr>is_active := True\<rparr>)"
    "dict_get (budgets (update_budgets orig dest True False w)) dest = Some (c\<lparr>is_active := False\<rparr>)"
    using assms(1-3) by (simp_all add: update_budgets_def set_active_def)
  with v show ?thesis by (simp add: init_rollover_def abort_rollover_def empty_rollover_def)
qed

theorem refused_rollover_reactivates_witness:
  "\<exists>w' r. init_rollover ''2'' (Some ''1'') sample_world = ((w', r), ''1'', Some (RolloverError ''InactiveBudgetError''))
     \<and> map_option is_active (dict_get (budgets w') ''1'') = Some False"
proof -
  have b: "dict_get (budgets sample_world) ''2'' = Some \<lparr>budget_organisation = ''1'', is_active = False\<rparr>"
    "dict_get (budgets sample_world) ''1'' = Some \<lparr>budget_organisation = ''1'', is_active = True\<rparr>"
    by (simp_all add: sample_world_def dict_get_def)
  from refused_rollover_reactivates [OF b] show ?thesis by auto
qed

end
