(* ===== verification/Floats.thy ===== *)
theory Floats
  imports Records "HOL-Library.Log_Nat"
begin

text \<open>
  The floats of Python: IEEE doubles with their rounding, for the amounts that the code multiplies by 100 and
  truncates. A double is the rational number it stands for; overflow, subnormal numbers, infinities and NaN
  lie outside of the range of amounts and are left out.
\<close>

section \<open>Rounding to a double\<close>

text \<open>The exponent of a positive number: the power of two at or below it.\<close>

definition exponent :: "rat \<Rightarrow> int" where
  "exponent x =
     (let (n, d) = quotient_of x; e = bitlen n - bitlen d in
      if 2 powi e \<le> x then e else e - 1)"

text \<open>The distance between two doubles of that size: 53 significant bits.\<close>

definition ulp :: "rat \<Rightarrow> rat" where
  "ulp x = 2 powi (exponent x - 52)"

definition nearest_even :: "rat \<Rightarrow> int" where
  "nearest_even x =
     (let q = \<lfloor>x\<rfloor>; r = x - of_int q in
      if r < 1 / 2 \<or> (r = 1 / 2 \<and> even q) then q else q + 1)"

definition to_double :: "rat \<Rightarrow> rat" where
  "to_double x =
     (if x = 0 then 0
      else if x < 0 then - (of_int (nearest_even (- x / ulp (- x))) * ulp (- x))
      else of_int (nearest_even (x / ulp x)) * ulp x)"

text \<open>\<open>x * y\<close>, \<open>x / y\<close> and \<open>int(x)\<close>.\<close>

definition times_double :: "rat \<Rightarrow> rat \<Rightarrow> rat" where
  "times_double x y = to_double (x * y)"

definition divide_double :: "rat \<Rightarrow> rat \<Rightarrow> rat" where
  "divide_double x y = to_double (x / y)"

definition int_of_double :: "rat \<Rightarrow> int" where
  "int_of_double x = (if x < 0 then - \<lfloor>- x\<rfloor> else \<lfloor>x\<rfloor>)"


section \<open>Errors of rounding\<close>

lemma nearest_even_error: "\<bar>of_int (nearest_even x) - x\<bar> \<le> 1 / 2"
proof -
  have "of_int \<lfloor>x\<rfloor> \<le> x" "x < of_int \<lfloor>x\<rfloor> + 1" by linarith+
  then show ?thesis by (auto simp: nearest_even_def Let_def abs_le_iff)
qed

lemma nearest_even_nonneg: "0 \<le> x \<Longrightarrow> 0 \<le> nearest_even x"
  by (simp add: nearest_even_def Let_def)

lemma exponent_below:
  assumes "0 < x"
  shows "2 powi (exponent x) \<le> x"
proof -
  obtain n d where q: "quotient_of x = (n, d)" by (cases "quotient_of x")
  have d: "0 < d" using q by (rule quotient_of_denom_pos)
  have x: "x = of_int n / of_int d" using q by (rule quotient_of_div)
  have n: "0 < n" using assms d x by (simp add: zero_less_divide_iff)
  define a b where "a = nat (bitlen n - 1)" and "b = nat (bitlen d)"
  have l: "bitlen n = int a + 1" "bitlen d = int b"
    using bitlen_bounds [OF n] n bitlen_nonneg [of n] bitlen_nonneg [of d]
    by (auto simp: a_def b_def bitlen_def floorlog_def)
  have "(2::int) ^ a \<le> n" "d \<le> 2 ^ b"
    using bitlen_bounds [OF n] bitlen_bounds [OF d] by (auto simp: a_def b_def)
  then have le: "(2::rat) ^ a \<le> of_int n" "of_int d \<le> (2::rat) ^ b"
    by (metis of_int_le_iff of_int_numeral of_int_power)+
  have "2 powi (bitlen n - bitlen d - 1) = (2::rat) ^ a / 2 ^ b"
    by (simp add: l power_int_diff)
  also have "\<dots> \<le> of_int n / of_int d"
    using le d n by (intro frac_le) auto
  finally show ?thesis using x q by (simp add: exponent_def Let_def)
qed

lemma ulp_pos: "0 < ulp x"
  by (simp add: ulp_def)

lemma ulp_below: "0 < x \<Longrightarrow> ulp x * 2 ^ 52 \<le> x"
  using exponent_below [of x] by (simp add: ulp_def power_int_diff)

lemma to_double_error:
  assumes "0 \<le> x"
  shows "\<bar>to_double x - x\<bar> \<le> x / 2 ^ 53"
proof (cases "x = 0")
  case True
  then show ?thesis by (simp add: to_double_def)
next
  case False
  with assms have x: "0 < x" by simp
  note u = ulp_pos [of x] ulp_below [OF x]
  have "\<bar>to_double x - x\<bar> = \<bar>of_int (nearest_even (x / ulp x)) - x / ulp x\<bar> * ulp x"
    using x u(1) abs_mult [of "of_int (nearest_even (x / ulp x)) - x / ulp x" "ulp x"]
    by (simp add: to_double_def left_diff_distrib)
  also have "\<dots> \<le> 1 / 2 * ulp x"
    using nearest_even_error u(1) by (intro mult_right_mono) auto
  also have "\<dots> \<le> x / 2 ^ 53" using u(2) by simp
  finally show ?thesis .
qed

lemma to_double_nonneg: "0 \<le> x \<Longrightarrow> 0 \<le> to_double x"
  using ulp_pos [of x] by (auto simp: to_double_def intro!: mult_nonneg_nonneg nearest_even_nonneg)

section \<open>Amounts in cents\<close>

text \<open>An amount of \<open>n\<close> cents as the float that the program has, and the cents that the program gets
  back from a float: \<open>int(x * 100)\<close>.\<close>

definition amount_of :: "int \<Rightarrow> rat" where
  "amount_of n = divide_double (of_int n) 100"

definition cents :: "rat \<Rightarrow> int" where
  "cents x = int_of_double (times_double x 100)"

text \<open>Up to a few thousand billions, the way to a float and back loses at most one cent, and never gains one.\<close>

definition max_cents :: int where
  "max_cents = 2 ^ 50"

lemma cents_amount_of:
  assumes "0 \<le> n" "n \<le> max_cents"
  shows "cents (amount_of n) = n \<or> cents (amount_of n) = n - 1"
proof -
  define a b where "a = amount_of n" and "b = times_double a 100"
  have n: "0 \<le> (of_int n :: rat)" "(of_int n :: rat) \<le> 2 ^ 50"
    using assms of_int_le_iff [of n "2 ^ 50", where 'a = rat] by (simp_all add: max_cents_def)
  have a: "0 \<le> a" "\<bar>a - of_int n / 100\<bar> \<le> of_int n / 100 / 2 ^ 53"
    using to_double_nonneg [of "of_int n / 100"] to_double_error [of "of_int n / 100"] n(1)
    by (simp_all add: a_def amount_of_def divide_double_def)
  have b: "0 \<le> b" "\<bar>b - a * 100\<bar> \<le> a * 100 / 2 ^ 53"
    using to_double_nonneg [of "a * 100"] to_double_error [of "a * 100"] a(1)
    by (simp_all add: b_def times_double_def)
  from abs_le_D1 [OF a(2)] abs_le_D2 [OF a(2)] n
  have a': "a * 100 \<le> of_int n + 1 / 8" "of_int n - 1 / 8 \<le> a * 100" by simp_all
  with abs_le_D1 [OF b(2)] abs_le_D2 [OF b(2)] n
  have "of_int n - 1 \<le> b" "b < of_int n + 1" by simp_all
  then have "\<lfloor>b\<rfloor> = n \<or> \<lfloor>b\<rfloor> = n - 1" by linarith
  with b(1) show ?thesis by (simp add: cents_def int_of_double_def a_def b_def)
qed

lemma cents_29: "cents (amount_of 29) = 28"
  by code_simp
end
