(* ===== verification/Transactions.thy ===== *)
theory Transactions
  imports Loans Patrons Floats
begin

text \<open>
  The money that patrons owe: classes \<open>PatronTransaction\<close> (\<open>rero_ils/modules/patron_transactions/api.py\<close>,
  \<open>extensions.py\<close>, \<open>utils.py\<close>) and \<open>PatronTransactionEvent\<close>
  (\<open>rero_ils/modules/patron_transaction_events/api.py\<close>), with the extension \<open>DecimalAmountExtension\<close>.

  Amounts are doubles, with the rounding of \<open>Floats\<close>. The pids of both resources are the numbers of their
  sequences; dates are numbers. Whether the patron, the organisation and so on of a record exist, and the
  libraries that loans and notifications lead to, are the fields of \<open>directory\<close>. Links from a record
  to others and the indexing listeners are left out.
\<close>

section \<open>Records\<close>

datatype event_type = FEE | PAYMENT | DISPUTE | CANCEL_EVENT

datatype transaction_status = OPEN | CLOSED

datatype transaction_type =
  DAMAGED | ILL | LOST | OTHER_FEE | OVERDUE_FEE | PHOTOCOPY | SUBSCRIPTION_FEE

record event =
  ev_parent :: nat
  ev_date :: int
  ev_type :: event_type
  ev_subtype :: "string option"
  ev_amount :: "rat option"
  ev_note :: "string option"
  ev_library :: "string option"
  ev_operator :: "string option"
  ev_steps :: "(int \<times> rat) list option"

record transaction =
  t_type :: transaction_type
  t_status :: transaction_status
  t_total :: "rat option"
  t_date :: int
  t_patron :: string
  t_organisation :: "string option"
  t_library :: "string option"
  t_loan :: "string option"
  t_notification :: "string option"
  t_note :: "string option"

text \<open>The member \<open>event\<close> that a client may send with a new transaction.\<close>

record event_request =
  rq_operator :: "string option"
  rq_library :: "string option"

record ledger =
  transactions :: "(nat, transaction) dict"
  events :: "(nat, event) dict"
  transaction_serial :: nat
  event_serial :: nat

record directory =
  knows_patron :: "string \<Rightarrow> bool"
  knows_organisation :: "string \<Rightarrow> bool"
  knows_library :: "string \<Rightarrow> bool"
  knows_notification :: "string \<Rightarrow> bool"
  library_of_loan :: "string \<Rightarrow> string option option"
  library_of_notification :: "string \<Rightarrow> string option"

section \<open>Validation\<close>

text \<open>\<open>_check_amount\<close>: the shortest decimal text of the double has at most two decimals. For amounts below
  \<open>10 ^ 15\<close> cents this is the text of the double nearest to a whole number of cents.\<close>

definition two_decimals :: "rat \<Rightarrow> bool" where
  "two_decimals x \<longleftrightarrow> x = amount_of (nearest_even (x * 100))"

definition check_amount :: "rat option \<Rightarrow> py_error + unit" where
  "check_amount a =
     (case a of
        None \<Rightarrow> Inr ()
      | Some x \<Rightarrow> if two_decimals x then Inr () else Inl (ValidationError ''must be multiple of 0.01''))"

definition fee_subtypes :: "string list" where
  "fee_subtypes = [''overdue'', ''damaged'', ''lost'', ''other'']"

definition payment_subtypes :: "string list" where
  "payment_subtypes = [''cash'', ''invoice'', ''debit_card'', ''credit_card'', ''paypal'']"

definition one_of :: "string list \<Rightarrow> string option \<Rightarrow> bool" where
  "one_of xs v = (case v of None \<Rightarrow> False | Some x \<Rightarrow> x \<in> set xs)"

text \<open>The JSON schema of an event, and the references that must exist. \<open>known\<close> are the pids of transactions.\<close>

definition event_schema :: "event \<Rightarrow> bool" where
  "event_schema e \<longleftrightarrow>
     (case ev_amount e of None \<Rightarrow> True | Some x \<Rightarrow> 0 < x)
     \<and> (case ev_type e of
          FEE \<Rightarrow> one_of fee_subtypes (ev_subtype e) \<and> ev_amount e \<noteq> None
        | PAYMENT \<Rightarrow> one_of payment_subtypes (ev_subtype e) \<and> ev_operator e \<noteq> None \<and> ev_amount e \<noteq> None
        | DISPUTE \<Rightarrow> ev_operator e \<noteq> None \<and> ev_note e \<noteq> None
        | CANCEL_EVENT \<Rightarrow> ev_operator e \<noteq> None \<and> ev_amount e \<noteq> None \<and> ev_note e \<noteq> None)"

definition exists_if_given :: "(string \<Rightarrow> bool) \<Rightarrow> string option \<Rightarrow> bool" where
  "exists_if_given P v = (case v of None \<Rightarrow> True | Some x \<Rightarrow> P x)"

definition validate_event :: "directory \<Rightarrow> (nat \<Rightarrow> bool) \<Rightarrow> event \<Rightarrow> py_error + unit" where
  "validate_event dir known e =
     (if \<not> event_schema e then Inl (ValidationError ''schema'')
      else if known (ev_parent e) \<and> exists_if_given (knows_library dir) (ev_library e)
        \<and> exists_if_given (knows_patron dir) (ev_operator e)
      then Inr () else Inl (ValidationError ''Pid does not exist''))"

definition validate_transaction :: "directory \<Rightarrow> transaction \<Rightarrow> py_error + unit" where
  "validate_transaction dir t =
     (if (case t_total t of None \<Rightarrow> False | Some x \<Rightarrow> x < 0) then Inl (ValidationError ''schema'')
      else if knows_patron dir (t_patron t) \<and> exists_if_given (knows_organisation dir) (t_organisation t)
        \<and> exists_if_given (knows_notification dir) (t_notification t)
      then Inr () else Inl (ValidationError ''Pid does not exist''))"

section \<open>Events\<close>

definition find_transaction :: "ledger \<Rightarrow> nat \<Rightarrow> transaction option" where
  "find_transaction s p = dict_get (transactions s) p"

definition is_transaction :: "ledger \<Rightarrow> nat \<Rightarrow> bool" where
  "is_transaction s p \<longleftrightarrow> find_transaction s p \<noteq> None"

text \<open>\<open>IlsRecord.create\<close> of an event: a pid is minted, the extensions run before the validation.\<close>

definition store_event :: "directory \<Rightarrow> (nat \<Rightarrow> bool) \<Rightarrow> event \<Rightarrow> ledger \<Rightarrow> py_error + (nat \<times> ledger)" where
  "store_event dir known e s =
     and_then (check_amount (ev_amount e)) (\<lambda>_.
     and_then (validate_event dir known e) (\<lambda>_.
       let p = event_serial s in
       Inr (p, s\<lparr>events := dict_set p e (events s), event_serial := Suc p\<rparr>)))"

definition update_transaction :: "directory \<Rightarrow> nat \<Rightarrow> transaction \<Rightarrow> ledger \<Rightarrow> py_error + ledger" where
  "update_transaction dir p t s =
     and_then (validate_transaction dir t) (\<lambda>_. Inr (s\<lparr>transactions := dict_set p t (transactions s)\<rparr>))"

definition update_parent_patron_transaction :: "directory \<Rightarrow> event \<Rightarrow> ledger \<Rightarrow> py_error + ledger" where
  "update_parent_patron_transaction dir e s =
     (case ev_amount e of
        None \<Rightarrow> Inr s
      | Some x \<Rightarrow>
          if x = 0 \<or> ev_type e = DISPUTE then Inr s
          else case find_transaction s (ev_parent e) of
              None \<Rightarrow> Inl AttributeError
            | Some t \<Rightarrow>
                (case t_total t of
                   None \<Rightarrow> Inl TypeError
                 | Some due \<Rightarrow>
                     let total_amount = (if ev_type e = FEE then cents due + cents x else cents due - cents x);
                         t' = t\<lparr>t_total := Some (amount_of total_amount),
                                t_status := (if total_amount = 0 then CLOSED else t_status t)\<rparr> in
                     update_transaction dir (ev_parent e) t' s))"

text \<open>\<open>PatronTransactionEvent.create\<close>. When the update of the parent raises, the event itself stays if it was
  committed before; without that commit the caller rolls it back. The result has the state apart from it.\<close>

definition create_event ::
  "directory \<Rightarrow> bool \<Rightarrow> bool \<Rightarrow> event \<Rightarrow> ledger \<Rightarrow> ledger \<times> (py_error + nat)" where
  "create_event dir dbcommit update_parent e s =
     (case store_event dir (is_transaction s) e s of
        Inl er \<Rightarrow> (s, Inl er)
      | Inr (p, s1) \<Rightarrow>
          if update_parent
          then (case update_parent_patron_transaction dir e s1 of
                  Inl er \<Rightarrow> (if dbcommit then s1 else s, Inl er)
                | Inr s2 \<Rightarrow> (s2, Inr p))
          else (s1, Inr p))"

section \<open>Transactions\<close>

text \<open>The extension of a transaction: its initial event.\<close>

definition base_data_patron_event :: "nat \<Rightarrow> transaction \<Rightarrow> (int \<times> rat) list option \<Rightarrow> event" where
  "base_data_patron_event p t steps =
     \<lparr>ev_parent = p, ev_date = t_date t, ev_type = FEE, ev_subtype = Some ''other'', ev_amount = t_total t,
      ev_note = Some ''Initial charge'', ev_library = t_library t, ev_operator = None,
      ev_steps = (case steps of Some (x # xs) \<Rightarrow> steps | _ \<Rightarrow> None)\<rparr>"

definition data_operator_event :: "event \<Rightarrow> event_request option \<Rightarrow> event" where
  "data_operator_event e rq =
     (case rq of
        None \<Rightarrow> e
      | Some r \<Rightarrow>
          e\<lparr>ev_operator := (case rq_operator r of None \<Rightarrow> ev_operator e | Some x \<Rightarrow> Some x),
            ev_library := (case rq_library r of None \<Rightarrow> ev_library e | Some x \<Rightarrow> Some x)\<rparr>)"

definition data_overdue :: "directory \<Rightarrow> event \<Rightarrow> transaction \<Rightarrow> py_error + event" where
  "data_overdue dir e t =
     (if t_type t \<noteq> OVERDUE_FEE then Inr e
      else
        and_then (case t_loan t of
                    Some l \<Rightarrow> (case library_of_loan dir l of None \<Rightarrow> Inl AttributeError | Some lib \<Rightarrow> Inr lib)
                  | None \<Rightarrow> Inr (case t_notification t of None \<Rightarrow> None | Some n \<Rightarrow> library_of_notification dir n))
          (\<lambda>lib. let e' = e\<lparr>ev_subtype := Some ''overdue''\<rparr> in
            Inr (case lib of None \<Rightarrow> e' | Some x \<Rightarrow> e'\<lparr>ev_library := Some x\<rparr>)))"

definition pre_create ::
  "directory \<Rightarrow> nat \<Rightarrow> transaction \<Rightarrow> event_request option \<Rightarrow> (int \<times> rat) list option \<Rightarrow> ledger \<Rightarrow> py_error + ledger" where
  "pre_create dir p t rq steps s =
     and_then (data_overdue dir (data_operator_event (base_data_patron_event p t steps) rq) t) (\<lambda>e.
     and_then (store_event dir (\<lambda>q. q = p \<or> is_transaction s q) e s) (\<lambda>(q, s'). Inr s'))"

definition create_transaction ::
  "directory \<Rightarrow> transaction \<Rightarrow> event_request option \<Rightarrow> (int \<times> rat) list option \<Rightarrow> ledger \<Rightarrow> py_error + (nat \<times> ledger)" where
  "create_transaction dir t rq steps s =
     (let p = transaction_serial s in
      and_then (pre_create dir p t rq steps s) (\<lambda>s1.
      and_then (validate_transaction dir t) (\<lambda>_.
        Inr (p, s1\<lparr>transactions := dict_set p t (transactions s1), transaction_serial := Suc p\<rparr>))))"

definition number_of_events :: "ledger \<Rightarrow> nat \<Rightarrow> nat" where
  "number_of_events s p = length (filter (\<lambda>(q, e). ev_parent e = p) (events s))"

definition transaction_reasons_not_to_delete :: "ledger \<Rightarrow> nat \<Rightarrow> (string \<times> nat) list" where
  "transaction_reasons_not_to_delete s p =
     (let n = number_of_events s p in if n \<noteq> 0 then [(''events'', n)] else [])"

text \<open>The events of a transaction, latest first, and the amount of its first event.\<close>

definition events_of :: "ledger \<Rightarrow> nat \<Rightarrow> (nat \<times> event) list" where
  "events_of s p = filter (\<lambda>(q, e). ev_parent e = p) (events s)"

definition get_events_by_transaction_id :: "ledger \<Rightarrow> nat \<Rightarrow> (nat \<times> event) list" where
  "get_events_by_transaction_id s p = sort_key (\<lambda>(q, e). - ev_date e) (events_of s p)"

definition get_initial_amount_transaction_event :: "ledger \<Rightarrow> nat \<Rightarrow> py_error + rat" where
  "get_initial_amount_transaction_event s p =
     (case sort_key (\<lambda>(q, e). ev_date e) (events_of s p) of
        [] \<Rightarrow> Inl StopIteration
      | (q, e) # _ \<Rightarrow> (case ev_amount e of None \<Rightarrow> Inl AttributeError | Some x \<Rightarrow> Inr x))"

section \<open>Queries and the transactions the program creates\<close>

text \<open>\<open>_build_transaction_query\<close>. Status and types filter when they are given (and not empty).\<close>

definition build_transaction_query ::
  "ledger \<Rightarrow> string \<Rightarrow> transaction_status option \<Rightarrow> transaction_type list \<Rightarrow> (nat \<times> transaction) list" where
  "build_transaction_query s patron status types =
     filter (\<lambda>(p, t). t_patron t = patron
         \<and> (case status of None \<Rightarrow> True | Some st \<Rightarrow> t_status t = st)
         \<and> (types = [] \<or> t_type t \<in> set types))
       (transactions s)"

definition get_transactions_pids_for_patron :: "ledger \<Rightarrow> string \<Rightarrow> transaction_status option \<Rightarrow> nat list" where
  "get_transactions_pids_for_patron s patron status = map fst (build_transaction_query s patron status [])"

definition get_transactions_count_for_patron :: "ledger \<Rightarrow> string \<Rightarrow> transaction_status option \<Rightarrow> nat" where
  "get_transactions_count_for_patron s patron status = length (build_transaction_query s patron status [])"

text \<open>The sum is an aggregation of the search engine over doubles: an argument.\<close>

definition get_transactions_total_amount_for_patron ::
  "(rat list \<Rightarrow> rat) \<Rightarrow> ledger \<Rightarrow> string \<Rightarrow> transaction_status option \<Rightarrow> transaction_type list \<Rightarrow> bool \<Rightarrow> rat" where
  "get_transactions_total_amount_for_patron sum_of s patron status types with_subscription =
     sum_of (List.map_filter (\<lambda>(p, t). t_total t)
       (filter (\<lambda>(p, t). with_subscription \<or> t_type t \<noteq> SUBSCRIPTION_FEE)
         (build_transaction_query s patron status types)))"

definition get_last_transaction_by_loan_pid :: "ledger \<Rightarrow> string \<Rightarrow> transaction_status option \<Rightarrow> nat option" where
  "get_last_transaction_by_loan_pid s l status =
     (case sort_key (\<lambda>(p, t). - t_date t)
            (filter (\<lambda>(p, t). t_loan t = Some l \<and> (case status of None \<Rightarrow> True | Some st \<Rightarrow> t_status t = st))
              (transactions s)) of
        [] \<Rightarrow> None
      | (p, t) # _ \<Rightarrow> Some p)"

text \<open>The three functions that create a transaction. Fees and amounts of policies come in cents.\<close>

definition create_patron_transaction_from_overdue_loan ::
  "directory \<Rightarrow> int \<Rightarrow> loan \<Rightarrow> string \<Rightarrow> (int \<times> int) list \<Rightarrow> ledger \<Rightarrow> py_error + (nat option \<times> ledger)" where
  "create_patron_transaction_from_overdue_loan dir now l organisation fees s =
     (let total_amount = sum_for_fees fees in
      if total_amount > 0 then
        and_then (create_transaction dir
            \<lparr>t_type = OVERDUE_FEE, t_status = OPEN, t_total = Some (amount_of total_amount), t_date = now,
             t_patron = l_patron l, t_organisation = Some organisation, t_library = None, t_loan = Some (l_pid l),
             t_notification = None, t_note = Some ''incremental overdue fees''\<rparr>
            None (Some (map (\<lambda>(fee, d). (d, amount_of fee)) fees)) s)
          (\<lambda>(p, s'). Inr (Some p, s'))
      else Inr (None, s))"

definition create_patron_transaction_from_notification ::
  "directory \<Rightarrow> int \<Rightarrow> string \<Rightarrow> loan \<Rightarrow> string \<Rightarrow> int \<Rightarrow> ledger \<Rightarrow> py_error + (nat option \<times> ledger)" where
  "create_patron_transaction_from_notification dir now notification l organisation total_amount s =
     (if total_amount > 0 then
        and_then (create_transaction dir
            \<lparr>t_type = OVERDUE_FEE, t_status = OPEN, t_total = Some (amount_of total_amount), t_date = now,
             t_patron = l_patron l, t_organisation = Some organisation, t_library = None, t_loan = Some (l_pid l),
             t_notification = Some notification, t_note = None\<rparr> None None s)
          (\<lambda>(p, s'). Inr (Some p, s'))
      else Inr (None, s))"

text \<open>The variable \<open>start\<close> of the code is a tuple of one date because of a comma, so that the note shows it
  with parentheses and quotes.\<close>

definition tuple_text :: "string \<Rightarrow> string" where
  "tuple_text d = ''('' @ [CHR 0x27] @ d @ [CHR 0x27] @ '',)''"

definition create_subscription_for_patron ::
  "directory \<Rightarrow> int \<Rightarrow> string \<Rightarrow> string \<Rightarrow> patron_type \<Rightarrow> string \<Rightarrow> string \<Rightarrow> ledger
     \<Rightarrow> py_error + (nat option \<times> ledger)" where
  "create_subscription_for_patron dir now patron organisation ty starting ending s =
     (if is_subscription_required ty then
        and_then (create_transaction dir
            \<lparr>t_type = SUBSCRIPTION_FEE, t_status = OPEN, t_total = map_option amount_of (subscription_amount ty),
             t_date = now, t_patron = patron, t_organisation = Some organisation, t_library = None, t_loan = None,
             t_notification = None, t_note = Some (tuple_text starting @ ''-'' @ ending)\<rparr> None None s)
          (\<lambda>(p, s'). Inr (Some p, s'))
      else Inr (None, s))"

end
