(* ===== verification/TransactionProperties.thy ===== *)
theory TransactionProperties
  imports Transactions
begin

text \<open>
  The properties of the money that patrons owe: an open transaction has a debt, its total follows its events up
  to the cents that the floats lose, a payment of the total closes it, a payment is refused exactly when the
  truncated cents do not suffice.
\<close>

section \<open>Amounts\<close>

lemma nearest_even_eq:
  assumes "\<bar>x - of_int n\<bar> < 1 / 2"
  shows "nearest_even x = n"
proof -
  have "\<bar>of_int (nearest_even x) - of_int n\<bar> < (1::rat)"
    using assms nearest_even_error [of x] by linarith
  then show ?thesis by linarith
qed

lemma amount_of_near:
  assumes "0 \<le> n" "n \<le> max_cents"
  shows "\<bar>amount_of n * 100 - of_int n\<bar> \<le> 1 / 8"
proof -
  have n: "0 \<le> (of_int n :: rat)" "(of_int n :: rat) \<le> 2 ^ 50"
    using assms of_int_le_iff [of n "2 ^ 50", where 'a = rat] by (simp_all add: max_cents_def)
  have a: "\<bar>amount_of n - of_int n / 100\<bar> \<le> of_int n / 100 / 2 ^ 53"
    using to_double_error [of "of_int n / 100"] n(1) by (simp add: amount_of_def divide_double_def)
  from abs_le_D1 [OF a] abs_le_D2 [OF a] n
  have "amount_of n * 100 \<le> of_int n + 1 / 8" "of_int n - 1 / 8 \<le> amount_of n * 100" by simp_all
  then show ?thesis by linarith
qed

lemma two_decimals_amount_of:
  assumes "0 \<le> n" "n \<le> max_cents"
  shows "two_decimals (amount_of n)"
  using nearest_even_eq [of "amount_of n * 100" n] amount_of_near [OF assms]
  by (simp add: two_decimals_def)

lemma to_double_pos:
  assumes "0 < x"
  shows "0 < to_double x"
  using to_double_error [of x] assms abs_le_D2 [of "to_double x - x" "x / 2 ^ 53"] by simp

lemma amount_of_sign:
  "0 < amount_of n \<longleftrightarrow> 0 < n" "amount_of n < 0 \<longleftrightarrow> n < 0" "amount_of n = 0 \<longleftrightarrow> n = 0" "0 \<le> amount_of n \<longleftrightarrow> 0 \<le> n"
proof -
  have z: "to_double 0 = 0" by (simp add: to_double_def)
  have pos: "0 < n \<Longrightarrow> 0 < amount_of n"
    by (simp add: amount_of_def divide_double_def to_double_pos)
  have "to_double (- x) = - to_double x" for x by (auto simp: to_double_def)
  from this [of "- (of_int n / 100)"] have neg: "n < 0 \<Longrightarrow> amount_of n < 0"
    using to_double_pos [of "- (of_int n / 100)"] by (simp add: amount_of_def divide_double_def)
  have zero: "n = 0 \<Longrightarrow> amount_of n = 0" by (simp add: amount_of_def divide_double_def z)
  show "0 < amount_of n \<longleftrightarrow> 0 < n" "amount_of n < 0 \<longleftrightarrow> n < 0" "amount_of n = 0 \<longleftrightarrow> n = 0" "0 \<le> amount_of n \<longleftrightarrow> 0 \<le> n"
    using pos neg zero by (cases n "0::int" rule: linorder_cases; force)+
qed

lemma cents_zero [simp]: "cents (amount_of 0) = 0"
  by code_simp

lemma cents_bounds:
  assumes "0 \<le> n" "n \<le> max_cents"
  shows "n - 1 \<le> cents (amount_of n)" "cents (amount_of n) \<le> n" "0 \<le> cents (amount_of n)"
proof -
  show "n - 1 \<le> cents (amount_of n)" "cents (amount_of n) \<le> n" using cents_amount_of [OF assms] by auto
  show "0 \<le> cents (amount_of n)" using cents_amount_of [OF assms] assms by (cases "n = 0") auto
qed

lemma two_decimals_positive:
  assumes "two_decimals x" "0 < x"
  shows "\<exists>n > 0. x = amount_of n"
  using assms amount_of_sign(1) [of "nearest_even (x * 100)"] by (metis two_decimals_def)

section \<open>What an event does\<close>

text \<open>The change of the cents of a total, as the code computes it from the truncated amounts.\<close>

definition signed :: "event_type \<Rightarrow> int \<Rightarrow> int" where
  "signed ty k = (case ty of FEE \<Rightarrow> k | DISPUTE \<Rightarrow> 0 | _ \<Rightarrow> - k)"

lemma find_transaction_set [simp]:
  "find_transaction (s\<lparr>transactions := dict_set p t (transactions s)\<rparr>) q = (if q = p then Some t else find_transaction s q)"
  by (simp add: find_transaction_def)

lemma find_transaction_set_events [simp]:
  "find_transaction (s\<lparr>events := x, event_serial := y, transactions := dict_set p t (transactions s)\<rparr>) q =
     (if q = p then Some t else find_transaction s q)"
  by (simp add: find_transaction_def)

lemma store_event_Inr:
  "store_event dir known e s = Inr (p, s') \<longleftrightarrow>
     check_amount (ev_amount e) = Inr () \<and> validate_event dir known e = Inr () \<and> p = event_serial s
     \<and> s' = s\<lparr>events := dict_set p e (events s), event_serial := Suc p\<rparr>"
  by (auto simp: store_event_def and_then_eq_Inr Let_def)

lemma check_amount_Inr: "check_amount a = Inr () \<longleftrightarrow> (case a of None \<Rightarrow> True | Some x \<Rightarrow> two_decimals x)"
  by (auto simp: check_amount_def split: option.splits)

lemma validate_event_Inr:
  "validate_event dir known e = Inr () \<longleftrightarrow>
     event_schema e \<and> known (ev_parent e) \<and> exists_if_given (knows_library dir) (ev_library e)
     \<and> exists_if_given (knows_patron dir) (ev_operator e)"
  by (simp add: validate_event_def)

lemma update_transaction_Inr:
  "update_transaction dir p t s = Inr s' \<longleftrightarrow>
     validate_transaction dir t = Inr () \<and> s' = s\<lparr>transactions := dict_set p t (transactions s)\<rparr>"
  by (auto simp: update_transaction_def and_then_eq_Inr)

lemma validate_transaction_Inr:
  "validate_transaction dir t = Inr () \<longleftrightarrow>
     (case t_total t of None \<Rightarrow> True | Some x \<Rightarrow> 0 \<le> x)
     \<and> knows_patron dir (t_patron t) \<and> exists_if_given (knows_organisation dir) (t_organisation t)
     \<and> exists_if_given (knows_notification dir) (t_notification t)"
  by (auto simp: validate_transaction_def split: option.splits)

text \<open>The transaction after an event.\<close>

definition moved :: "event_type \<Rightarrow> int \<Rightarrow> int \<Rightarrow> transaction \<Rightarrow> transaction" where
  "moved ty due k t =
     (if ty = DISPUTE then t
      else t\<lparr>t_total := Some (amount_of (due + signed ty k)),
             t_status := (if due + signed ty k = 0 then CLOSED else t_status t)\<rparr>)"

lemma update_parent_moves:
  assumes "find_transaction s (ev_parent e) = Some t" "t_total t = Some (amount_of n)"
    and "ev_amount e = Some (amount_of k)" "0 < k" "ev_type e \<noteq> DISPUTE"
  shows "update_parent_patron_transaction dir e s =
    update_transaction dir (ev_parent e) (moved (ev_type e) (cents (amount_of n)) (cents (amount_of k)) t) s"
  using assms
  by (auto simp: update_parent_patron_transaction_def Let_def moved_def signed_def amount_of_sign
      split: event_type.splits)

lemma moved_cents:
  assumes "0 \<le> n" "n \<le> max_cents" "0 < k" "k \<le> max_cents" "ty \<noteq> DISPUTE"
    and "m = cents (amount_of n) + signed ty (cents (amount_of k))"
  shows "n + signed ty k - 2 \<le> m" "m \<le> n + signed ty k + 1" "m \<le> n + k"
  using cents_bounds [OF assms(1,2)] cents_bounds [of k] assms(3-)
  by (auto simp: signed_def split: event_type.splits)

text \<open>A sequence of events, each committed, up to the first that raises.\<close>

fun create_events :: "directory \<Rightarrow> event list \<Rightarrow> ledger \<Rightarrow> py_error + ledger" where
  "create_events dir [] s = Inr s"
| "create_events dir (e # es) s =
     (case create_event dir True True e s of
        (s', Inl er) \<Rightarrow> Inl er
      | (s', Inr p) \<Rightarrow> create_events dir es s')"

lemma create_event_Inr:
  "create_event dir c True e s = (s', Inr p) \<longleftrightarrow>
     (\<exists>s1. store_event dir (is_transaction s) e s = Inr (p, s1) \<and> update_parent_patron_transaction dir e s1 = Inr s')"
  by (auto simp: create_event_def split: sum.splits prod.splits)

lemma find_transaction_events [simp]: "find_transaction (s\<lparr>events := x, event_serial := y\<rparr>) p = find_transaction s p"
  by (simp add: find_transaction_def)

lemma update_parent_dispute:
  "ev_type e = DISPUTE \<Longrightarrow> update_parent_patron_transaction dir e s = Inr s"
  by (simp add: update_parent_patron_transaction_def split: option.splits)

lemma create_event_moves:
  assumes "create_event dir c True e s = (s', Inr q)"
    and "find_transaction s (ev_parent e) = Some t" "t_total t = Some (amount_of n)" "0 \<le> n"
    and "ev_amount e = Some (amount_of k)" "0 < k"
  shows "\<exists>m. find_transaction s' (ev_parent e) = Some (moved (ev_type e) (cents (amount_of n)) (cents (amount_of k)) t)
    \<and> t_total (moved (ev_type e) (cents (amount_of n)) (cents (amount_of k)) t) = Some (amount_of m) \<and> 0 \<le> m
    \<and> m = (if ev_type e = DISPUTE then n else cents (amount_of n) + signed (ev_type e) (cents (amount_of k)))"
proof (cases "ev_type e = DISPUTE")
  case True
  then show ?thesis
    using assms by (auto simp: create_event_Inr store_event_Inr update_parent_dispute moved_def)
next
  case False
  then show ?thesis
    using assms
    by (auto simp: create_event_Inr store_event_Inr update_parent_moves [where n = n and k = k] update_transaction_Inr
        validate_transaction_Inr moved_def amount_of_sign)
qed

lemma create_events_drift:
  assumes "create_events dir es s = Inr s'"
    and "find_transaction s p = Some t" "t_total t = Some (amount_of n)" "0 \<le> n"
    and "\<forall>e \<in> set es. ev_parent e = p \<and> ev_amount e = Some (amount_of (k e)) \<and> 0 < k e"
    and "n + (\<Sum>e\<leftarrow>es. k e) \<le> max_cents"
  shows "\<exists>t' m. find_transaction s' p = Some t' \<and> t_total t' = Some (amount_of m) \<and> 0 \<le> m
    \<and> n + (\<Sum>e\<leftarrow>es. signed (ev_type e) (k e)) - 2 * int (length es) \<le> m
    \<and> m \<le> n + (\<Sum>e\<leftarrow>es. signed (ev_type e) (k e)) + int (length es)"
  using assms
proof (induction es arbitrary: s t n)
  case Nil
  then show ?case by auto
next
  case (Cons e es)
  let ?c = "cents (amount_of n)" and ?d = "cents (amount_of (k e))"
  have e: "ev_parent e = p" "ev_amount e = Some (amount_of (k e))" "0 < k e" using Cons.prems(5) by auto
  have ks: "0 \<le> (\<Sum>e\<leftarrow>es. k e)" using Cons.prems(5) by (intro sum_list_nonneg) auto
  then have le: "n \<le> max_cents" "k e \<le> max_cents" "n + k e + (\<Sum>e\<leftarrow>es. k e) \<le> max_cents"
    using Cons.prems(4,6) e(3) by auto
  from Cons.prems(1) obtain s1 q where s1: "create_event dir True True e s = (s1, Inr q)" "create_events dir es s1 = Inr s'"
    by (auto split: prod.splits sum.splits)
  from create_event_moves [OF s1(1) _ Cons.prems(3,4) e(2,3)] Cons.prems(2) e(1)
  obtain m where m: "find_transaction s1 p = Some (moved (ev_type e) ?c ?d t)"
    "t_total (moved (ev_type e) ?c ?d t) = Some (amount_of m)" "0 \<le> m"
    "m = (if ev_type e = DISPUTE then n else ?c + signed (ev_type e) ?d)" by auto
  have b: "n + signed (ev_type e) (k e) - 2 \<le> m" "m \<le> n + signed (ev_type e) (k e) + 1" "m \<le> n + k e"
    using moved_cents [OF Cons.prems(4) le(1) e(3) le(2), of "ev_type e"] m(4) e(3)
    by (auto simp: signed_def split: if_splits)
  have "m + (\<Sum>e\<leftarrow>es. k e) \<le> max_cents" using b(3) le(3) by linarith
  from Cons.IH [OF s1(2) m(1,2,3) _ this] Cons.prems(5) b(1,2)
  show ?case by force
qed

section \<open>Reachable ledgers\<close>

definition empty_ledger :: ledger where
  "empty_ledger = \<lparr>transactions = [], events = [], transaction_serial = 1, event_serial = 1\<rparr>"

text \<open>A step: a new transaction, or an event whose parent is updated; a step may raise.\<close>

inductive ledger_step :: "directory \<Rightarrow> ledger \<Rightarrow> ledger \<Rightarrow> bool" for dir where
  new_transaction: "create_transaction dir t rq steps s = Inr (p, s') \<Longrightarrow> ledger_step dir s s'"
| new_event: "create_event dir c True e s = (s', r) \<Longrightarrow> ledger_step dir s s'"

definition debt_ok :: "transaction \<Rightarrow> bool" where
  "debt_ok t \<longleftrightarrow> (\<exists>n. 0 \<le> n \<and> t_total t = Some (amount_of n) \<and> (t_status t = OPEN \<longrightarrow> 0 < n))"

text \<open>Events are never overwritten: their pids are below the serial.\<close>

definition ledger_ok :: "ledger \<Rightarrow> bool" where
  "ledger_ok s \<longleftrightarrow>
     (\<forall>q \<in> fst ` set (events s). q < event_serial s)
     \<and> (\<forall>p t. find_transaction s p = Some t \<longrightarrow> debt_ok t \<and> 0 < number_of_events s p)"

lemma dict_set_fresh: "k \<notin> fst ` set d \<Longrightarrow> dict_set k v d = d @ [(k, v)]"
  unfolding dict_set_def by (induction d) auto

lemma events_added:
  assumes "\<forall>q \<in> fst ` set (events s). q < event_serial s"
  shows "dict_set (event_serial s) e (events s) = events s @ [(event_serial s, e)]"
  using assms by (intro dict_set_fresh) auto

lemma store_event_ok:
  assumes "ledger_ok s" "store_event dir known e s = Inr (p, s')"
  shows "ledger_ok s'" "find_transaction s' = find_transaction s" "transaction_serial s' = transaction_serial s"
    "transactions s' = transactions s" "0 < number_of_events s' (ev_parent e)"
proof -
  have ok: "\<forall>q \<in> fst ` set (events s). q < event_serial s" using assms(1) by (simp add: ledger_ok_def)
  have s': "s' = s\<lparr>events := events s @ [(event_serial s, e)], event_serial := Suc (event_serial s)\<rparr>"
    using assms(2) events_added [OF ok, of e] by (simp add: store_event_Inr)
  show "find_transaction s' = find_transaction s" "transaction_serial s' = transaction_serial s"
    "transactions s' = transactions s" "0 < number_of_events s' (ev_parent e)"
    unfolding s' by (auto simp: number_of_events_def)
  show "ledger_ok s'"
    using assms(1) unfolding s' by (auto simp: ledger_ok_def number_of_events_def less_Suc_eq)
qed

lemma update_transaction_ok:
  assumes "ledger_ok s" "update_transaction dir p t s = Inr s'" "debt_ok t" "is_transaction s p"
  shows "ledger_ok s'"
proof -
  have s': "s' = s\<lparr>transactions := dict_set p t (transactions s)\<rparr>" using assms(2) by (simp add: update_transaction_Inr)
  have n: "number_of_events s' q = number_of_events s q" for q by (simp add: s' number_of_events_def)
  have f: "find_transaction s' q = (if q = p then Some t else find_transaction s q)" for q by (simp add: s')
  obtain t0 where "find_transaction s p = Some t0" using assms(4) by (auto simp: is_transaction_def)
  with assms(1) have p: "0 < number_of_events s p" unfolding ledger_ok_def by blast
  have "events s' = events s" "event_serial s' = event_serial s" by (simp_all add: s')
  with assms(1,3) p show ?thesis unfolding ledger_ok_def n f by (simp split: if_splits)
qed

lemma update_parent_ok:
  assumes "ledger_ok s" "update_parent_patron_transaction dir e s = Inr s'"
  shows "ledger_ok s'"
proof (cases "ev_amount e = None \<or> ev_amount e = Some 0 \<or> ev_type e = DISPUTE")
  case True
  then show ?thesis using assms by (auto simp: update_parent_patron_transaction_def split: option.splits)
next
  case False
  then obtain x where x: "ev_amount e = Some x" "x \<noteq> 0" "ev_type e \<noteq> DISPUTE" by auto
  with assms(2) obtain t due n where t: "find_transaction s (ev_parent e) = Some t" "t_total t = Some due"
    "update_transaction dir (ev_parent e)
      (t\<lparr>t_total := Some (amount_of n), t_status := (if n = 0 then CLOSED else t_status t)\<rparr>) s = Inr s'"
    by (auto simp: update_parent_patron_transaction_def Let_def split: option.splits)
  then have "0 \<le> n" by (auto simp: update_transaction_Inr validate_transaction_Inr amount_of_sign)
  then have "debt_ok (t\<lparr>t_total := Some (amount_of n), t_status := (if n = 0 then CLOSED else t_status t)\<rparr>)"
    by (auto simp: debt_ok_def)
  with update_transaction_ok [OF assms(1) t(3)] t(1) show ?thesis by (simp add: is_transaction_def)
qed

lemma create_event_ok:
  assumes "ledger_ok s" "create_event dir c True e s = (s', r)"
  shows "ledger_ok s'"
proof (cases "store_event dir (is_transaction s) e s")
  case (Inl er)
  then show ?thesis using assms by (simp add: create_event_def)
next
  case (Inr pr)
  then obtain q s1 where q: "store_event dir (is_transaction s) e s = Inr (q, s1)" by (cases pr) auto
  have s1: "ledger_ok s1" by (rule store_event_ok(1) [OF assms(1) q])
  show ?thesis
  proof (cases "update_parent_patron_transaction dir e s1")
    case (Inl er)
    then show ?thesis using assms q s1 by (auto simp: create_event_def)
  next
    case (Inr s2)
    then show ?thesis using assms(2) q update_parent_ok [OF s1 Inr] by (simp add: create_event_def)
  qed
qed

lemma data_overdue_same:
  "data_overdue dir e t = Inr e' \<Longrightarrow> ev_parent e' = ev_parent e \<and> ev_amount e' = ev_amount e \<and> ev_type e' = ev_type e"
  by (auto simp: data_overdue_def and_then_eq_Inr Let_def split: if_splits option.splits)

lemma operator_event_same:
  "ev_parent (data_operator_event e rq) = ev_parent e" "ev_amount (data_operator_event e rq) = ev_amount e"
  "ev_type (data_operator_event e rq) = ev_type e"
  by (simp_all add: data_operator_event_def split: option.splits)

lemma create_transaction_ok:
  assumes "ledger_ok s" "create_transaction dir t rq steps s = Inr (p, s')"
  shows "ledger_ok s'"
proof -
  from assms(2) obtain e q s1 where e: "data_overdue dir (data_operator_event (base_data_patron_event p t steps) rq) t = Inr e"
    and q: "store_event dir (\<lambda>q. q = p \<or> is_transaction s q) e s = Inr (q, s1)"
    and s': "s' = s1\<lparr>transactions := dict_set p t (transactions s1), transaction_serial := Suc p\<rparr>"
    by (auto simp: create_transaction_def pre_create_def and_then_eq_Inr Let_def)
  have same: "ev_parent e = p" "ev_amount e = t_total t" "ev_type e = FEE"
    using data_overdue_same [OF e] by (simp_all add: operator_event_same base_data_patron_event_def)
  from q same obtain x where x: "t_total t = Some x" "two_decimals x" "0 < x"
    by (auto simp: store_event_Inr check_amount_Inr validate_event_Inr event_schema_def split: option.splits)
  from two_decimals_positive [OF x(2,3)] obtain n where "0 < n" "x = amount_of n" by blast
  with x have "debt_ok t" by (auto simp: debt_ok_def intro!: exI [of _ n])
  note st = store_event_ok [OF assms(1) q]
  have n: "number_of_events s' r = number_of_events s1 r" for r by (simp add: s' number_of_events_def)
  have f: "find_transaction s' r = (if r = p then Some t else find_transaction s1 r)" for r
    by (simp add: s' find_transaction_def)
  have ev: "events s' = events s1" "event_serial s' = event_serial s1" by (simp_all add: s')
  show ?thesis
    using st(1,5) \<open>debt_ok t\<close> unfolding ledger_ok_def n f ev same(1) by (simp split: if_splits)
qed

lemma ledger_step_ok: "ledger_step dir s s' \<Longrightarrow> ledger_ok s \<Longrightarrow> ledger_ok s'"
  by (induction rule: ledger_step.induct) (auto intro: create_transaction_ok create_event_ok)

lemma ledger_steps_ok: "(ledger_step dir)\<^sup>*\<^sup>* s s' \<Longrightarrow> ledger_ok s \<Longrightarrow> ledger_ok s'"
  by (induction rule: rtranclp_induct) (auto intro: ledger_step_ok)

lemma empty_ledger_ok: "ledger_ok empty_ledger"
  by (simp add: ledger_ok_def empty_ledger_def find_transaction_def)

section \<open>The properties\<close>

definition everything_known :: directory where
  "everything_known =
     \<lparr>knows_patron = (\<lambda>_. True), knows_organisation = (\<lambda>_. True), knows_library = (\<lambda>_. True),
      knows_notification = (\<lambda>_. True), library_of_loan = (\<lambda>_. Some (Some ''lib1'')), library_of_notification = (\<lambda>_. None)\<rparr>"

definition sample_fee :: "int \<Rightarrow> transaction" where
  "sample_fee n =
     \<lparr>t_type = DAMAGED, t_status = OPEN, t_total = Some (amount_of n), t_date = 0, t_patron = ''ptrn1'',
      t_organisation = Some ''org1'', t_library = None, t_loan = None, t_notification = None, t_note = None\<rparr>"

definition sample_payment :: "int \<Rightarrow> event" where
  "sample_payment k =
     \<lparr>ev_parent = 1, ev_date = 1, ev_type = PAYMENT, ev_subtype = Some ''cash'', ev_amount = Some (amount_of k),
      ev_note = None, ev_library = None, ev_operator = Some ''ptrn2'', ev_steps = None\<rparr>"

definition sample_ledger :: "int \<Rightarrow> ledger" where
  "sample_ledger n = empty_ledger\<lparr>transactions := [(1, sample_fee n)], transaction_serial := 2\<rparr>"



text \<open>
  C25. The total follows its events up to the cents that the floats lose: after a sequence of committed
  events on a transaction (fees, payments, cancellations, disputes), each of a whole number of cents, the total is
  a whole number of cents that differs from the exact one by at most one cent upwards and two cents downwards
  for each event, as long as the amounts stay below \<open>2 ^ 50\<close> cents.
\<close>
theorem total_follows_events:
  assumes "create_events dir es s = Inr s'"
    and "find_transaction s p = Some t" "t_total t = Some (amount_of n)" "0 \<le> n"
    and "\<forall>e \<in> set es. ev_parent e = p \<and> ev_amount e = Some (amount_of (k e)) \<and> 0 < k e"
    and "n + (\<Sum>e\<leftarrow>es. k e) \<le> max_cents"
  shows "\<exists>t' m. find_transaction s' p = Some t' \<and> t_total t' = Some (amount_of m) \<and> 0 \<le> m
    \<and> n + (\<Sum>e\<leftarrow>es. signed (ev_type e) (k e)) - 2 * int (length es) \<le> m
    \<and> m \<le> n + (\<Sum>e\<leftarrow>es. signed (ev_type e) (k e)) + int (length es)"
  using assms by (rule create_events_drift)

theorem total_follows_events_witness:
  "\<exists>s' t' m. create_events everything_known [sample_payment 30] (sample_ledger 58) = Inr s'
    \<and> find_transaction s' 1 = Some t' \<and> t_total t' = Some (amount_of m) \<and> 26 \<le> m \<and> m \<le> 29"
proof -
  have "case create_events everything_known [sample_payment 30] (sample_ledger 58) of Inl e \<Rightarrow> False | Inr s \<Rightarrow> True"
    by code_simp
  then obtain s' where s': "create_events everything_known [sample_payment 30] (sample_ledger 58) = Inr s'"
    by (auto split: sum.splits)
  have f: "find_transaction (sample_ledger 58) 1 = Some (sample_fee 58)"
    by (simp add: sample_ledger_def find_transaction_def dict_get_def)
  from total_follows_events [OF s' f, where n = 58 and k = "\<lambda>_. 30"] s' show ?thesis
    by (force simp: sample_fee_def sample_payment_def signed_def max_cents_def)
qed

text \<open>
  C26. Whoever pays the total that is shown has paid: a valid payment (or cancellation) of the amount of the
  total, whatever cents the floats lose, is accepted, brings the total to zero and closes the transaction.
\<close>
theorem payment_of_total_closes:
  assumes "find_transaction s (ev_parent e) = Some t" "t_total t = Some (amount_of n)" "0 < n" "n \<le> max_cents"
    and "ev_type e = PAYMENT \<or> ev_type e = CANCEL_EVENT" "ev_amount e = t_total t"
    and "validate_event dir (is_transaction s) e = Inr ()" "validate_transaction dir t = Inr ()"
  shows "\<exists>s' q. create_event dir c True e s = (s', Inr q)
    \<and> find_transaction s' (ev_parent e) = Some (t\<lparr>t_total := Some 0, t_status := CLOSED\<rparr>)"
proof -
  have z: "amount_of 0 = 0" by (simp add: amount_of_sign)
  define s1 where "s1 = s\<lparr>events := dict_set (event_serial s) e (events s), event_serial := Suc (event_serial s)\<rparr>"
  have 1: "store_event dir (is_transaction s) e s = Inr (event_serial s, s1)"
    using assms two_decimals_amount_of [of n] by (simp add: store_event_Inr s1_def check_amount_Inr)
  have m: "moved (ev_type e) (cents (amount_of n)) (cents (amount_of n)) t = t\<lparr>t_total := Some 0, t_status := CLOSED\<rparr>"
    using assms(5) by (auto simp: moved_def signed_def z)
  have "update_parent_patron_transaction dir e s1 =
      update_transaction dir (ev_parent e) (t\<lparr>t_total := Some 0, t_status := CLOSED\<rparr>) s1"
    using update_parent_moves [of s1 e t n n dir] assms m by (auto simp: s1_def)
  also have "\<dots> = Inr (s1\<lparr>transactions := dict_set (ev_parent e) (t\<lparr>t_total := Some 0, t_status := CLOSED\<rparr>) (transactions s1)\<rparr>)"
    using assms(8) by (simp add: update_transaction_Inr validate_transaction_Inr)
  finally show ?thesis using 1 by (simp add: create_event_Inr)
qed

theorem payment_of_total_closes_witness:
  "\<exists>s' q. create_event everything_known False True (sample_payment 29) (sample_ledger 29) = (s', Inr q)
    \<and> find_transaction s' 1 = Some (sample_fee 29\<lparr>t_total := Some 0, t_status := CLOSED\<rparr>)"
proof -
  have f: "find_transaction (sample_ledger 29) 1 = Some (sample_fee 29)"
    by (simp add: sample_ledger_def find_transaction_def dict_get_def)
  have v: "validate_event everything_known (is_transaction (sample_ledger 29)) (sample_payment 29) = Inr ()"
    "validate_transaction everything_known (sample_fee 29) = Inr ()" by code_simp+
  from payment_of_total_closes [of "sample_ledger 29" "sample_payment 29" "sample_fee 29" 29, OF _ _ _ _ _ _ v] f
  show ?thesis by (simp add: sample_fee_def sample_payment_def max_cents_def)
qed

lemma payment_outcome:
  assumes "find_transaction s (ev_parent e) = Some t" "t_total t = Some (amount_of n)"
    and "ev_type e = PAYMENT \<or> ev_type e = CANCEL_EVENT" "ev_amount e = Some (amount_of k)" "0 < k" "k \<le> max_cents"
    and "validate_event dir (is_transaction s) e = Inr ()" "validate_transaction dir t = Inr ()"
  defines "s1 \<equiv> s\<lparr>events := dict_set (event_serial s) e (events s), event_serial := Suc (event_serial s)\<rparr>"
  shows "create_event dir c True e s =
    (if cents (amount_of n) < cents (amount_of k) then (if c then s1 else s, Inl (ValidationError ''schema''))
     else (s1\<lparr>transactions := dict_set (ev_parent e) (moved (ev_type e) (cents (amount_of n)) (cents (amount_of k)) t)
             (transactions s1)\<rparr>, Inr (event_serial s)))"
proof -
  have 1: "store_event dir (is_transaction s) e s = Inr (event_serial s, s1)"
    using assms two_decimals_amount_of [of k] by (simp add: store_event_Inr s1_def check_amount_Inr)
  have u: "update_parent_patron_transaction dir e s1 =
      update_transaction dir (ev_parent e) (moved (ev_type e) (cents (amount_of n)) (cents (amount_of k)) t) s1"
    using update_parent_moves [of s1 e t n k dir] assms by (auto simp: s1_def)
  have t: "t_total (moved (ev_type e) (cents (amount_of n)) (cents (amount_of k)) t)
      = Some (amount_of (cents (amount_of n) - cents (amount_of k)))"
    "t_patron (moved (ev_type e) (cents (amount_of n)) (cents (amount_of k)) t) = t_patron t"
    "t_organisation (moved (ev_type e) (cents (amount_of n)) (cents (amount_of k)) t) = t_organisation t"
    "t_notification (moved (ev_type e) (cents (amount_of n)) (cents (amount_of k)) t) = t_notification t"
    using assms(3) by (auto simp: moved_def signed_def)
  have v: "validate_transaction dir (moved (ev_type e) (cents (amount_of n)) (cents (amount_of k)) t)
      = (if cents (amount_of n) < cents (amount_of k) then Inl (ValidationError ''schema'') else Inr ())"
    using assms(8) by (auto simp: validate_transaction_def t amount_of_sign split: if_splits)
  show ?thesis by (simp add: create_event_def 1 u update_transaction_def v)
qed

lemma cents_compare:
  assumes "0 < n" "n \<le> max_cents" "0 < k" "k \<le> max_cents"
  shows "k \<le> n \<Longrightarrow> cents (amount_of k) \<le> cents (amount_of n)" "n + 2 \<le> k \<Longrightarrow> cents (amount_of n) < cents (amount_of k)"
  using cents_bounds [of n] cents_bounds [of k] assms by (cases "k = n"; simp)+

text \<open>
  C27. When a payment is refused: a payment or cancellation of \<open>k\<close> cents on a total of \<open>n\<close> cents
  raises exactly when the truncated cents of the payment exceed those of the total; never when \<open>k\<close> is
  at most \<open>n\<close>, always when it is larger by two cents or more. A refused payment leaves the transaction as it was;
  the event itself stays in the database when it was committed first.
\<close>
theorem payment_refused_iff:
  assumes "find_transaction s (ev_parent e) = Some t" "t_total t = Some (amount_of n)" "0 < n" "n \<le> max_cents"
    and "ev_type e = PAYMENT \<or> ev_type e = CANCEL_EVENT" "ev_amount e = Some (amount_of k)" "0 < k" "k \<le> max_cents"
    and "validate_event dir (is_transaction s) e = Inr ()" "validate_transaction dir t = Inr ()"
    and "create_event dir c True e s = (s', r)"
  shows "(r = Inl (ValidationError ''schema'') \<longleftrightarrow> cents (amount_of n) < cents (amount_of k))
    \<and> (k \<le> n \<longrightarrow> r = Inr (event_serial s)) \<and> (n + 2 \<le> k \<longrightarrow> r = Inl (ValidationError ''schema''))
    \<and> ((\<exists>er. r = Inl er) \<longrightarrow> find_transaction s' (ev_parent e) = Some t
        \<and> (if c then dict_get (events s') (event_serial s) = Some e else s' = s))"
  using payment_outcome [OF assms(1,2,5-10), of c] assms(1,11) cents_compare [OF assms(3,4,7,8)]
  by (auto split: if_splits)

theorem payment_refused_iff_witness:
  "\<exists>s'. create_event everything_known True True (sample_payment 31) (sample_ledger 29) = (s', Inl (ValidationError ''schema''))
    \<and> find_transaction s' 1 = Some (sample_fee 29) \<and> dict_get (events s') 1 = Some (sample_payment 31)"
proof -
  have f: "find_transaction (sample_ledger 29) 1 = Some (sample_fee 29)" "event_serial (sample_ledger 29) = 1"
    by (simp_all add: sample_ledger_def find_transaction_def dict_get_def empty_ledger_def)
  have v: "validate_event everything_known (is_transaction (sample_ledger 29)) (sample_payment 31) = Inr ()"
    "validate_transaction everything_known (sample_fee 29) = Inr ()" by code_simp+
  obtain s' r where e: "create_event everything_known True True (sample_payment 31) (sample_ledger 29) = (s', r)"
    by (cases "create_event everything_known True True (sample_payment 31) (sample_ledger 29)") auto
  from payment_refused_iff [of "sample_ledger 29" "sample_payment 31" "sample_fee 29" 29 31, OF _ _ _ _ _ _ _ _ v e] f e
  show ?thesis by (simp add: sample_fee_def sample_payment_def max_cents_def)
qed

text \<open>The cents that are lost can stop a payment in full: a fee of 58 cents, 30 paid, and the 28 that
  remain are refused.\<close>

lemma last_payment_refused:
  "(case create_event everything_known True True (sample_payment 30) (sample_ledger 58) of
      (s, Inr q) \<Rightarrow> snd (create_event everything_known True True (sample_payment 28) s) | _ \<Rightarrow> Inr 0)
    = Inl (ValidationError ''schema'')"
  by code_simp

text \<open>A fee on a closed transaction leaves it closed with a debt.\<close>

lemma fee_on_closed_transaction:
  "(case create_event everything_known True True (sample_payment 50 \<lparr>ev_type := FEE, ev_subtype := Some ''other''\<rparr>)
       (empty_ledger\<lparr>transactions := [(1, sample_fee 50\<lparr>t_total := Some 0, t_status := CLOSED\<rparr>)], transaction_serial := 2\<rparr>) of
      (s, r) \<Rightarrow> map_option (\<lambda>t. (t_total t, t_status t)) (find_transaction s 1)) = Some (Some (amount_of 50), CLOSED)"
  by code_simp

end
