(* ===== verification/Permissions.thy ===== *)
theory Permissions
  imports Patrons AcqOrders
begin

text \<open>
  Who may do what: the needs that a logged user provides (\<open>on_identity_loaded\<close> of
  \<open>rero_ils/modules/ext.py\<close>), the generators of \<open>rero_ils/modules/permissions.py\<close> and of the modules, and the
  policy of every resource (\<open>permissions.py\<close> of each module).

  A policy is a list of generators for each operation. A generator gives needs, one of which the user must have, and
  excluded needs. Which actions a role has lies in the database of invenio-access, and how a list of needs and
  excludes is decided is the code of invenio: \<open>decide\<close> is a parameter, its documented behaviour the predicate
  \<open>documented\<close>.
\<close>

section \<open>Needs, users and records\<close>

datatype need =
    Action string
  | Any_user
  | System_process
  | Role_need string
  | Library_need string
  | Organisation_need string
  | Owner_need "string option"

record staff_member =
  sm_pid :: string
  sm_organisation :: string
  sm_libraries :: "string list"
  sm_roles :: "string list"
  organisation_libraries :: "string list"

text \<open>\<open>librarian\<close> is \<open>current_librarian\<close>, \<open>patron_accounts\<close> the pids and organisations of
  \<open>current_patrons\<close>, \<open>base_needs\<close> what invenio itself adds to the identity.\<close>

record user =
  user_roles :: "string list"
  librarian :: "staff_member option"
  patron_accounts :: "(string \<times> string) list"
  base_needs :: "need list"
  is_admin :: bool

datatype stat_type = BILLING | LIBRARIAN | REPORT

text \<open>What the generators read of a record; a resource has those that its class defines.\<close>

record target =
  tg_pid :: string
  tg_organisation :: string
  tg_library :: "string option"
  tg_libraries :: "string list option"
  tg_patron :: "string option"
  tg_active :: bool
  tg_order_status :: "order_status option"
  tg_roles :: "string list"
  tg_anonymized :: bool
  tg_serial :: bool
  tg_can_edit :: bool
  tg_private :: bool
  tg_creator :: string
  tg_stat :: "stat_type option"
  tg_parent_library :: "string option"

definition FULL_PERMISSIONS :: string where "FULL_PERMISSIONS = ''pro_full_permissions''"
definition LIBRARY_ADMINISTRATOR :: string where "LIBRARY_ADMINISTRATOR = ''pro_library_administrator''"
definition USER_MANAGER :: string where "USER_MANAGER = ''pro_user_manager''"

definition full_permissions :: "staff_member \<Rightarrow> bool" where
  "full_permissions m \<longleftrightarrow> FULL_PERMISSIONS \<in> set (sm_roles m)"

definition provides :: "user \<Rightarrow> need list" where
  "provides u =
     base_needs u @ map Role_need (user_roles u)
     @ (case librarian u of
          Some m \<Rightarrow>
            [Owner_need (Some (sm_pid m)), Organisation_need (sm_organisation m)]
            @ map Library_need (if full_permissions m then organisation_libraries m else sm_libraries m)
        | None \<Rightarrow>
            concat (map (\<lambda>(p, org). [Owner_need (Some p), Organisation_need org]) (patron_accounts u)))"

section \<open>Generators\<close>

text \<open>The callbacks of the generators: which libraries, and which patron, a record belongs to.\<close>

datatype library_callback = Library_pid | Record_pid | Library_pids | Library_pid_or_dummy | Metadata_library

datatype owner_callback = Patron_pid | Own_pid

datatype generator =
    Disable
  | AnyUser
  | SystemProcess
  | AllowedByAction string
  | RestrictByOrganisation string
  | RestrictByManageableLibrary string library_callback
  | RestrictByOwnerOrOrganisation string owner_callback
  | RestrictByLocalFieldParent string
  | RestrictStaffByManageableLibrary string
  | TemplateReadRestriction string
  | TemplateWriteRestriction string
  | RestrictStatistics string
  | DisallowedIfRollovered
  | DisallowedByOrderStatus "order_status list"
  | DisallowIfCannotEdit
  | DisallowIfNotSerialHolding
  | DisallowedIfAnonymized
  | RestrictDeleteDependOnPatronRolesManagement

fun libraries_of :: "library_callback \<Rightarrow> target \<Rightarrow> string list" where
  "libraries_of Library_pid r = (case tg_library r of None \<Rightarrow> [] | Some l \<Rightarrow> [l])"
| "libraries_of Record_pid r = [tg_pid r]"
| "libraries_of Library_pids r = (case tg_libraries r of None \<Rightarrow> [] | Some ls \<Rightarrow> ls)"
| "libraries_of Library_pid_or_dummy r = (case tg_library r of None \<Rightarrow> [''unavailable_data''] | Some l \<Rightarrow> [l])"
| "libraries_of Metadata_library r = (case tg_library r of None \<Rightarrow> [] | Some l \<Rightarrow> [l])"

definition restrict_by_organisation :: "string \<Rightarrow> user \<Rightarrow> target option \<Rightarrow> need list" where
  "restrict_by_organisation a u record =
     (case record of
        None \<Rightarrow> [Action a]
      | Some r \<Rightarrow> if Organisation_need (tg_organisation r) \<notin> set (provides u) then [] else [Action a])"

definition restrict_by_manageable_library :: "string \<Rightarrow> library_callback \<Rightarrow> user \<Rightarrow> target option \<Rightarrow> need list" where
  "restrict_by_manageable_library a cb u record =
     (case record of
        None \<Rightarrow> [Action a]
      | Some r \<Rightarrow>
          let library_pids = libraries_of cb r in
          if library_pids = [] then [Action a]
          else if list_ex (\<lambda>l. Library_need l \<in> set (provides u)) library_pids then [Action a] else [])"

definition owner_of :: "owner_callback \<Rightarrow> target \<Rightarrow> need" where
  "owner_of cb r = Owner_need (case cb of Patron_pid \<Rightarrow> tg_patron r | Own_pid \<Rightarrow> Some (tg_pid r))"

definition restrict_by_owner_or_organisation ::
  "string \<Rightarrow> owner_callback \<Rightarrow> user \<Rightarrow> target option \<Rightarrow> need list" where
  "restrict_by_owner_or_organisation a cb u record =
     (case record of
        None \<Rightarrow> [Action a]
      | Some r \<Rightarrow>
          let required = (if patron_accounts u \<noteq> [] then [owner_of cb r] else [])
                @ (if librarian u \<noteq> None then [Organisation_need (tg_organisation r)] else []) in
          if required \<noteq> [] \<and> \<not> list_ex (\<lambda>n. n \<in> set (provides u)) required then [] else [Action a])"

definition restrict_by_local_field_parent :: "string \<Rightarrow> user \<Rightarrow> target option \<Rightarrow> need list" where
  "restrict_by_local_field_parent a u record =
     (case record of
        None \<Rightarrow> [Action a]
      | Some r \<Rightarrow>
          if Organisation_need (tg_organisation r) \<notin> set (provides u) then []
          else if (case tg_parent_library r of None \<Rightarrow> False | Some l \<Rightarrow> Library_need l \<notin> set (provides u)) then []
          else [Action a])"

definition restrict_staff_by_manageable_library :: "string \<Rightarrow> user \<Rightarrow> target option \<Rightarrow> need list" where
  "restrict_staff_by_manageable_library a u record =
     (case record of
        None \<Rightarrow> [Action a]
      | Some r \<Rightarrow>
          if list_ex (\<lambda>x. x \<in> set PROFESSIONAL_ROLES) (tg_roles r)
            \<and> \<not> list_ex (\<lambda>l. Library_need l \<in> set (provides u)) (case tg_libraries r of None \<Rightarrow> [] | Some ls \<Rightarrow> ls)
          then [] else restrict_by_organisation a u record)"

text \<open>\<open>current_librarian.get\<close> fails when there is no librarian.\<close>

definition template_read_restriction :: "string \<Rightarrow> user \<Rightarrow> target option \<Rightarrow> py_error + need list" where
  "template_read_restriction a u record =
     (case record of
        None \<Rightarrow> Inr [Action a]
      | Some r \<Rightarrow>
          let owner = Owner_need (Some (tg_creator r)); provided = set (provides u) in
          if librarian u = None \<and> owner \<notin> provided then Inr []
          else if Organisation_need (tg_organisation r) \<notin> provided then Inr []
          else case librarian u of
              None \<Rightarrow> Inl AttributeError
            | Some m \<Rightarrow>
                if sm_roles m \<noteq> [] \<and> tg_private r then
                  if FULL_PERMISSIONS \<in> set (sm_roles m) then Inr [Action a]
                  else if LIBRARY_ADMINISTRATOR \<in> set (sm_roles m)
                  then (if list_all (\<lambda>l. Library_need l \<notin> provided) (sm_libraries m) then Inr [] else Inr [Action a])
                  else if owner \<notin> provided then Inr [] else Inr [Action a]
                else Inr [Action a])"

definition template_write_restriction :: "string \<Rightarrow> user \<Rightarrow> target option \<Rightarrow> need list" where
  "template_write_restriction a u record =
     (case record of
        None \<Rightarrow> [Action a]
      | Some r \<Rightarrow>
          let provided = set (provides u) in
          if Organisation_need (tg_organisation r) \<in> provided \<and> Role_need FULL_PERMISSIONS \<in> provided then [Action a]
          else if tg_private r \<and> Owner_need (Some (tg_creator r)) \<in> provided then [Action a] else [])"

definition restrict_statistics :: "string \<Rightarrow> user \<Rightarrow> target option \<Rightarrow> need list" where
  "restrict_statistics a u record =
     (case record of
        None \<Rightarrow> [Action a]
      | Some r \<Rightarrow>
          if tg_stat r = Some REPORT \<and> Organisation_need (tg_organisation r) \<notin> set (provides u) then []
          else [Action a])"

fun needs :: "generator \<Rightarrow> user \<Rightarrow> target option \<Rightarrow> py_error + need list" where
  "needs AnyUser u r = Inr [Any_user]"
| "needs SystemProcess u r = Inr [System_process]"
| "needs (AllowedByAction a) u r = Inr [Action a]"
| "needs (RestrictByOrganisation a) u r = Inr (restrict_by_organisation a u r)"
| "needs (RestrictByManageableLibrary a cb) u r = Inr (restrict_by_manageable_library a cb u r)"
| "needs (RestrictByOwnerOrOrganisation a cb) u r = Inr (restrict_by_owner_or_organisation a cb u r)"
| "needs (RestrictByLocalFieldParent a) u r = Inr (restrict_by_local_field_parent a u r)"
| "needs (RestrictStaffByManageableLibrary a) u r = Inr (restrict_staff_by_manageable_library a u r)"
| "needs (TemplateReadRestriction a) u r = template_read_restriction a u r"
| "needs (TemplateWriteRestriction a) u r = Inr (template_write_restriction a u r)"
| "needs (RestrictStatistics a) u r = Inr (restrict_statistics a u r)"
| "needs _ u r = Inr []"

section \<open>Management of roles\<close>

text \<open>The setting \<open>RERO_ILS_PATRON_ROLES_MANAGEMENT_RESTRICTIONS\<close>.\<close>

definition roles_management_restrictions :: "(string, string list) dict" where
  "roles_management_restrictions =
     [(FULL_PERMISSIONS, ALL_ROLES),
      (LIBRARY_ADMINISTRATOR,
        [''patron'', ''pro_read_only'', ''pro_circulation_manager'', ''pro_catalog_manager'', ''pro_user_manager'',
         ''pro_acquisition_manager'']),
      (USER_MANAGER, [''patron''])]"

definition manageable_roles :: "string list \<Rightarrow> string list" where
  "manageable_roles rs =
     concat (map (\<lambda>x. case dict_get roles_management_restrictions x of None \<Rightarrow> [] | Some ys \<Rightarrow> ys) rs)"

definition validate_role_changes :: "string list \<Rightarrow> string list \<Rightarrow> bool" where
  "validate_role_changes rs changes = list_all (\<lambda>x. x \<in> set (manageable_roles rs)) changes"

definition get_allowed_roles_management :: "user \<Rightarrow> string list" where
  "get_allowed_roles_management u = (if librarian u = None then [] else manageable_roles (user_roles u))"

section \<open>Excluded needs\<close>

definition exclude_if :: "bool \<Rightarrow> need list" where
  "exclude_if b = (if b then [Any_user] else [])"

definition given_and :: "(target \<Rightarrow> bool) \<Rightarrow> target option \<Rightarrow> bool" where
  "given_and P record = (case record of None \<Rightarrow> False | Some r \<Rightarrow> P r)"

fun excludes :: "generator \<Rightarrow> user \<Rightarrow> target option \<Rightarrow> py_error + need list" where
  "excludes Disable u r = Inr [Any_user]"
| "excludes DisallowedIfRollovered u r = Inr (exclude_if (given_and (\<lambda>t. \<not> tg_active t) r))"
| "excludes (DisallowedByOrderStatus allowed) u r =
     Inr (exclude_if (given_and (\<lambda>t. case tg_order_status t of None \<Rightarrow> False | Some st \<Rightarrow> st \<notin> set allowed) r))"
| "excludes DisallowIfCannotEdit u r = Inr (exclude_if (given_and (\<lambda>t. \<not> tg_can_edit t) r))"
| "excludes DisallowIfNotSerialHolding u r = Inr (exclude_if (given_and (\<lambda>t. \<not> tg_serial t) r))"
| "excludes DisallowedIfAnonymized u r = Inr (exclude_if (given_and tg_anonymized r))"
| "excludes (RestrictStatistics a) u r = Inr (exclude_if (given_and (\<lambda>t. tg_stat t = Some BILLING \<and> \<not> is_admin u) r))"
| "excludes RestrictDeleteDependOnPatronRolesManagement u r =
     (case r of
        None \<Rightarrow> Inl AttributeError
      | Some t \<Rightarrow> Inr (exclude_if (\<not> validate_role_changes (user_roles u) (tg_roles t))))"
| "excludes _ u r = Inr []"

text \<open>A policy for a user and a record: the needs and the excludes of its generators, and the decision.\<close>

definition evaluate :: "generator list \<Rightarrow> user \<Rightarrow> target option \<Rightarrow> py_error + (need list \<times> need list) list" where
  "evaluate gens u r =
     map_result (\<lambda>g. and_then (needs g u r) (\<lambda>ns. and_then (excludes g u r) (\<lambda>es. Inr (ns, es)))) gens"

definition allowed ::
  "((need list \<times> need list) list \<Rightarrow> bool) \<Rightarrow> generator list \<Rightarrow> user \<Rightarrow> target option \<Rightarrow> py_error + bool" where
  "allowed decide gens u r = and_then (evaluate gens u r) (\<lambda>xs. Inr (decide xs))"

text \<open>The documented decision: some need is held, and the excludes of no generator name any user.\<close>

definition documented :: "(need \<Rightarrow> bool) \<Rightarrow> ((need list \<times> need list) list \<Rightarrow> bool) \<Rightarrow> bool" where
  "documented holds decide \<longleftrightarrow>
     (\<forall>xs. decide xs \<longrightarrow> (\<exists>(ns, es) \<in> set xs. \<exists>n \<in> set ns. holds n))
     \<and> (\<forall>xs. (\<exists>(ns, es) \<in> set xs. Any_user \<in> set es) \<longrightarrow> \<not> decide xs)
     \<and> (\<forall>xs. (\<forall>(ns, es) \<in> set xs. es = []) \<and> (\<exists>(ns, es) \<in> set xs. \<exists>n \<in> set ns. holds n) \<longrightarrow> decide xs)"

end
