(* ===== verification/Policies.thy ===== *)
theory Policies
  imports Permissions
begin

text \<open>
  The policy of every resource: the classes \<open>*PermissionPolicy\<close> of the files \<open>permissions.py\<close>, one function per
  resource, what an operation does not name being \<open>Disable\<close> as in \<open>RecordPermissionPolicy\<close>; the answer of
  \<open>record_permissions\<close> and the matrix of \<open>expose_action_needs_by_patron\<close>.
\<close>

section \<open>Policies\<close>

datatype operation = Search | Read | Create | Update | Delete

fun acq_account_policy :: "operation \<Rightarrow> generator list" where
  "acq_account_policy Search = [AllowedByAction ''acac-search'']"
| "acq_account_policy Read = [RestrictByManageableLibrary ''acac-read'' Library_pid]"
| "acq_account_policy Create =
     [RestrictByManageableLibrary ''acac-create'' Library_pid, DisallowedIfRollovered]"
| "acq_account_policy Update =
     [RestrictByManageableLibrary ''acac-update'' Library_pid, DisallowedIfRollovered]"
| "acq_account_policy Delete =
     [RestrictByManageableLibrary ''acac-delete'' Library_pid, DisallowedIfRollovered]"

fun acq_order_line_policy :: "operation \<Rightarrow> generator list" where
  "acq_order_line_policy Search = [AllowedByAction ''acol-search'']"
| "acq_order_line_policy Read = [RestrictByManageableLibrary ''acol-read'' Library_pid]"
| "acq_order_line_policy Create =
     [RestrictByManageableLibrary ''acol-create'' Library_pid, DisallowedIfRollovered]"
| "acq_order_line_policy Update =
     [RestrictByManageableLibrary ''acol-update'' Library_pid, DisallowedIfRollovered,
      DisallowedByOrderStatus [ORDER_CANCELLED, ORDER_PENDING, ORDERED, PARTIALLY_RECEIVED]]"
| "acq_order_line_policy Delete =
     [RestrictByManageableLibrary ''acol-delete'' Library_pid, DisallowedIfRollovered,
      DisallowedByOrderStatus [ORDER_CANCELLED, ORDER_PENDING]]"

fun acq_order_policy :: "operation \<Rightarrow> generator list" where
  "acq_order_policy Search = [AllowedByAction ''acor-search'']"
| "acq_order_policy Read = [RestrictByManageableLibrary ''acor-read'' Library_pid]"
| "acq_order_policy Create = [RestrictByManageableLibrary ''acor-create'' Library_pid, DisallowedIfRollovered]"
| "acq_order_policy Update = [RestrictByManageableLibrary ''acor-update'' Library_pid, DisallowedIfRollovered]"
| "acq_order_policy Delete = [RestrictByManageableLibrary ''acor-delete'' Library_pid, DisallowedIfRollovered]"

fun acq_receipt_line_policy :: "operation \<Rightarrow> generator list" where
  "acq_receipt_line_policy Search = [AllowedByAction ''acrl-search'']"
| "acq_receipt_line_policy Read = [RestrictByManageableLibrary ''acrl-read'' Library_pid]"
| "acq_receipt_line_policy Create =
     [RestrictByManageableLibrary ''acrl-create'' Library_pid, DisallowedIfRollovered]"
| "acq_receipt_line_policy Update =
     [RestrictByManageableLibrary ''acrl-update'' Library_pid, DisallowedIfRollovered,
      DisallowedByOrderStatus [PARTIALLY_RECEIVED, RECEIVED]]"
| "acq_receipt_line_policy Delete =
     [RestrictByManageableLibrary ''acrl-delete'' Library_pid, DisallowedIfRollovered,
      DisallowedByOrderStatus [PARTIALLY_RECEIVED, RECEIVED]]"

fun acq_receipt_policy :: "operation \<Rightarrow> generator list" where
  "acq_receipt_policy Search = [AllowedByAction ''acre-search'']"
| "acq_receipt_policy Read = [RestrictByManageableLibrary ''acre-read'' Library_pid]"
| "acq_receipt_policy Create =
     [RestrictByManageableLibrary ''acre-create'' Library_pid, DisallowedIfRollovered]"
| "acq_receipt_policy Update =
     [RestrictByManageableLibrary ''acre-update'' Library_pid, DisallowedIfRollovered,
      DisallowedByOrderStatus [PARTIALLY_RECEIVED, RECEIVED, ORDERED]]"
| "acq_receipt_policy Delete =
     [RestrictByManageableLibrary ''acre-delete'' Library_pid, DisallowedIfRollovered,
      DisallowedByOrderStatus [PARTIALLY_RECEIVED, RECEIVED]]"

fun budget_policy :: "operation \<Rightarrow> generator list" where
  "budget_policy Search = [AllowedByAction ''budg-search'']"
| "budget_policy Read = [RestrictByOrganisation ''budg-read'']"
| "budget_policy Create = [RestrictByOrganisation ''budg-create'']"
| "budget_policy Update = [RestrictByOrganisation ''budg-update'']"
| "budget_policy Delete = [RestrictByOrganisation ''budg-delete'']"

fun circ_policy_policy :: "operation \<Rightarrow> generator list" where
  "circ_policy_policy Search = [AllowedByAction ''cipo-search'']"
| "circ_policy_policy Read = [RestrictByOrganisation ''cipo-read'']"
| "circ_policy_policy Create = [RestrictByOrganisation ''cipo-create'']"
| "circ_policy_policy Update = [RestrictByOrganisation ''cipo-update'']"
| "circ_policy_policy Delete = [RestrictByOrganisation ''cipo-delete'']"

fun collection_policy :: "operation \<Rightarrow> generator list" where
  "collection_policy Search = [AllowedByAction ''coll-search'']"
| "collection_policy Read = [RestrictByOrganisation ''coll-read'']"
| "collection_policy Create = [RestrictByManageableLibrary ''coll-create'' Library_pids]"
| "collection_policy Update = [RestrictByManageableLibrary ''coll-update'' Library_pids]"
| "collection_policy Delete = [RestrictByManageableLibrary ''coll-delete'' Library_pids]"

fun document_policy :: "operation \<Rightarrow> generator list" where
  "document_policy Search = [AllowedByAction ''doc-search'']"
| "document_policy Read = [AllowedByAction ''doc-read'']"
| "document_policy Create = [AllowedByAction ''doc-create'']"
| "document_policy Update = [AllowedByAction ''doc-update'', DisallowIfCannotEdit]"
| "document_policy Delete = [AllowedByAction ''doc-delete'', DisallowIfCannotEdit]"

fun local_entity_policy :: "operation \<Rightarrow> generator list" where
  "local_entity_policy Search = [AllowedByAction ''locent-search'']"
| "local_entity_policy Read = [AllowedByAction ''locent-read'']"
| "local_entity_policy Create = [AllowedByAction ''locent-create'']"
| "local_entity_policy Update = [AllowedByAction ''locent-update'']"
| "local_entity_policy Delete = [AllowedByAction ''locent-delete'']"

fun remote_entity_policy :: "operation \<Rightarrow> generator list" where
  "remote_entity_policy Search = [AnyUser]"
| "remote_entity_policy Read = [AnyUser]"
| "remote_entity_policy Create = [Disable]"
| "remote_entity_policy Update = [Disable]"
| "remote_entity_policy Delete = [Disable]"

fun file_policy :: "operation \<Rightarrow> generator list" where
  "file_policy Search = [AllowedByAction ''file-search'', SystemProcess]"
| "file_policy Read = [AllowedByAction ''file-read'', SystemProcess]"
| "file_policy Create = [AllowedByAction ''file-create'', SystemProcess]"
| "file_policy Update = [RestrictByManageableLibrary ''file-update'' Metadata_library, SystemProcess]"
| "file_policy Delete = [RestrictByManageableLibrary ''file-delete'' Metadata_library, SystemProcess]"

fun holding_policy :: "operation \<Rightarrow> generator list" where
  "holding_policy Search = [AllowedByAction ''hold-search'']"
| "holding_policy Read = [AllowedByAction ''hold-read'']"
| "holding_policy Create =
     [RestrictByManageableLibrary ''hold-create'' Library_pid, DisallowIfNotSerialHolding]"
| "holding_policy Update =
     [RestrictByManageableLibrary ''hold-update'' Library_pid, DisallowIfNotSerialHolding]"
| "holding_policy Delete =
     [RestrictByManageableLibrary ''hold-delete'' Library_pid, DisallowIfNotSerialHolding]"

fun ill_request_policy :: "operation \<Rightarrow> generator list" where
  "ill_request_policy Search = [AllowedByAction ''illr-search'']"
| "ill_request_policy Read = [RestrictByOwnerOrOrganisation ''illr-read'' Patron_pid]"
| "ill_request_policy Create = [AllowedByAction ''illr-create'']"
| "ill_request_policy Update = [RestrictByOrganisation ''illr-update'']"
| "ill_request_policy Delete = [RestrictByOrganisation ''illr-delete'']"

fun item_type_policy :: "operation \<Rightarrow> generator list" where
  "item_type_policy Search = [AllowedByAction ''itty-search'']"
| "item_type_policy Read = [RestrictByOrganisation ''itty-read'']"
| "item_type_policy Create = [RestrictByOrganisation ''itty-create'']"
| "item_type_policy Update = [RestrictByOrganisation ''itty-update'']"
| "item_type_policy Delete = [RestrictByOrganisation ''itty-delete'']"

fun item_policy :: "operation \<Rightarrow> generator list" where
  "item_policy Search = [AllowedByAction ''item-search'']"
| "item_policy Read = [AllowedByAction ''item-read'']"
| "item_policy Create = [RestrictByManageableLibrary ''item-create'' Library_pid]"
| "item_policy Update = [RestrictByManageableLibrary ''item-update'' Library_pid]"
| "item_policy Delete = [RestrictByManageableLibrary ''item-delete'' Library_pid]"

fun library_policy :: "operation \<Rightarrow> generator list" where
  "library_policy Search = [AllowedByAction ''lib-search'']"
| "library_policy Read = [RestrictByOrganisation ''lib-read'']"
| "library_policy Create = [RestrictByManageableLibrary ''lib-create'' Record_pid]"
| "library_policy Update = [RestrictByManageableLibrary ''lib-update'' Record_pid]"
| "library_policy Delete = [RestrictByManageableLibrary ''lib-delete'' Record_pid]"

fun loan_policy :: "operation \<Rightarrow> generator list" where
  "loan_policy Search = [RestrictByOwnerOrOrganisation ''loan-search'' Patron_pid]"
| "loan_policy Read = [DisallowedIfAnonymized, RestrictByOwnerOrOrganisation ''loan-read'' Patron_pid]"
| "loan_policy Create = [Disable]"
| "loan_policy Update = [Disable]"
| "loan_policy Delete = [Disable]"

fun local_field_policy :: "operation \<Rightarrow> generator list" where
  "local_field_policy Search = [AllowedByAction ''lofi-search'']"
| "local_field_policy Read = [AllowedByAction ''lofi-read'']"
| "local_field_policy Create = [RestrictByLocalFieldParent ''lofi-create'']"
| "local_field_policy Update = [RestrictByLocalFieldParent ''lofi-update'']"
| "local_field_policy Delete = [RestrictByLocalFieldParent ''lofi-delete'']"

fun location_policy :: "operation \<Rightarrow> generator list" where
  "location_policy Search = [AllowedByAction ''loc-search'']"
| "location_policy Read = [RestrictByOrganisation ''loc-read'']"
| "location_policy Create = [RestrictByManageableLibrary ''loc-create'' Library_pid]"
| "location_policy Update = [RestrictByManageableLibrary ''loc-update'' Library_pid]"
| "location_policy Delete = [RestrictByManageableLibrary ''loc-delete'' Library_pid]"

fun migration_policy :: "operation \<Rightarrow> generator list" where
  "migration_policy Search = [AllowedByAction ''mig-search'']"
| "migration_policy Read = [RestrictByOrganisation ''mig-read'']"
| "migration_policy Create = [Disable]"
| "migration_policy Update = [RestrictByOrganisation ''mig-update'']"
| "migration_policy Delete = [Disable]"

fun notification_policy :: "operation \<Rightarrow> generator list" where
  "notification_policy Search = [AllowedByAction ''notif-search'']"
| "notification_policy Read = [RestrictByOwnerOrOrganisation ''notif-read'' Patron_pid]"
| "notification_policy Create = [RestrictByManageableLibrary ''notif-create'' Library_pid_or_dummy]"
| "notification_policy Update = [RestrictByManageableLibrary ''notif-update'' Library_pid_or_dummy]"
| "notification_policy Delete = [RestrictByManageableLibrary ''notif-delete'' Library_pid_or_dummy]"

fun operation_log_policy :: "operation \<Rightarrow> generator list" where
  "operation_log_policy Search = [AllowedByAction ''oplg-search'']"
| "operation_log_policy Read = [AllowedByAction ''oplg-read'']"
| "operation_log_policy Create = [Disable]"
| "operation_log_policy Update = [Disable]"
| "operation_log_policy Delete = [Disable]"

fun organisation_policy :: "operation \<Rightarrow> generator list" where
  "organisation_policy Search = [AllowedByAction ''org-search'']"
| "organisation_policy Read = [RestrictByOrganisation ''org-read'']"
| "organisation_policy Create = [AllowedByAction ''org-create'']"
| "organisation_policy Update = [RestrictByOrganisation ''org-update'']"
| "organisation_policy Delete = [AllowedByAction ''org-delete'']"

fun transaction_event_policy :: "operation \<Rightarrow> generator list" where
  "transaction_event_policy Search = [AllowedByAction ''ptre-search'']"
| "transaction_event_policy Read = [RestrictByOwnerOrOrganisation ''ptre-read'' Patron_pid]"
| "transaction_event_policy Create = [RestrictByOrganisation ''ptre-create'']"
| "transaction_event_policy Update = [RestrictByOrganisation ''ptre-update'']"
| "transaction_event_policy Delete = [RestrictByOrganisation ''ptre-delete'']"

fun patron_transaction_policy :: "operation \<Rightarrow> generator list" where
  "patron_transaction_policy Search = [AllowedByAction ''pttr-search'']"
| "patron_transaction_policy Read = [RestrictByOwnerOrOrganisation ''pttr-read'' Patron_pid]"
| "patron_transaction_policy Create = [RestrictByOrganisation ''pttr-create'']"
| "patron_transaction_policy Update = [RestrictByOrganisation ''pttr-update'']"
| "patron_transaction_policy Delete = [RestrictByOrganisation ''pttr-delete'']"

fun patron_type_policy :: "operation \<Rightarrow> generator list" where
  "patron_type_policy Search = [AllowedByAction ''ptty-search'']"
| "patron_type_policy Read = [RestrictByOrganisation ''ptty-read'']"
| "patron_type_policy Create = [RestrictByOrganisation ''ptty-create'']"
| "patron_type_policy Update = [RestrictByOrganisation ''ptty-update'']"
| "patron_type_policy Delete = [RestrictByOrganisation ''ptty-delete'']"

fun patron_policy :: "operation \<Rightarrow> generator list" where
  "patron_policy Search = [AllowedByAction ''ptrn-search'']"
| "patron_policy Read = [RestrictByOwnerOrOrganisation ''ptrn-read'' Own_pid]"
| "patron_policy Create = [RestrictStaffByManageableLibrary ''ptrn-create'']"
| "patron_policy Update = [RestrictStaffByManageableLibrary ''ptrn-update'']"
| "patron_policy Delete =
     [RestrictStaffByManageableLibrary ''ptrn-delete'', RestrictDeleteDependOnPatronRolesManagement]"

fun statistics_policy :: "operation \<Rightarrow> generator list" where
  "statistics_policy Search = [AllowedByAction ''stat-search'']"
| "statistics_policy Read = [RestrictStatistics ''stat-read'', AllowedByAction ''stat-search'']"
| "statistics_policy Create = [Disable]"
| "statistics_policy Update = [Disable]"
| "statistics_policy Delete = [Disable]"

fun statistics_configuration_policy :: "operation \<Rightarrow> generator list" where
  "statistics_configuration_policy Search = [AllowedByAction ''stat_cfg-search'']"
| "statistics_configuration_policy Read = [RestrictByOrganisation ''stat_cfg-read'']"
| "statistics_configuration_policy Create = [RestrictByOrganisation ''stat_cfg-create'']"
| "statistics_configuration_policy Update = [RestrictByManageableLibrary ''stat_cfg-update'' Library_pid]"
| "statistics_configuration_policy Delete = [RestrictByManageableLibrary ''stat_cfg-delete'' Library_pid]"

fun template_policy :: "operation \<Rightarrow> generator list" where
  "template_policy Search = [AllowedByAction ''tmpl-search'']"
| "template_policy Read = [TemplateReadRestriction ''tmpl-read'']"
| "template_policy Create = [TemplateWriteRestriction ''tmpl-create'']"
| "template_policy Update = [TemplateWriteRestriction ''tmpl-update'']"
| "template_policy Delete = [TemplateWriteRestriction ''tmpl-delete'']"

fun vendor_policy :: "operation \<Rightarrow> generator list" where
  "vendor_policy Search = [AllowedByAction ''vndr-search'']"
| "vendor_policy Read = [RestrictByOrganisation ''vndr-read'']"
| "vendor_policy Create = [RestrictByOrganisation ''vndr-create'']"
| "vendor_policy Update = [RestrictByOrganisation ''vndr-update'']"
| "vendor_policy Delete = [RestrictByOrganisation ''vndr-delete'']"

fun file_content_policy :: "string \<Rightarrow> generator list" where
  "file_content_policy op =
     (if op \<in> {''get_content_files'', ''read_files''} then [AllowedByAction ''file-read'', SystemProcess]
      else if op = ''create_files'' then [AllowedByAction ''file-create'', SystemProcess]
      else if op \<in> {''set_content_files'', ''commit_files''}
      then [RestrictByManageableLibrary ''file-create'' Metadata_library, SystemProcess]
      else if op = ''update_files'' then [RestrictByManageableLibrary ''file-update'' Metadata_library, SystemProcess]
      else if op = ''delete_files'' then [RestrictByManageableLibrary ''file-delete'' Metadata_library, SystemProcess]
      else [Disable])"

section \<open>The permissions of a record\<close>

datatype answer =
    Bad_request
  | Record_not_found
  | Permissions "(operation \<times> bool) list" "string list"

text \<open>A factory gives the permission of an operation; that of \<open>Search\<close> and \<open>Create\<close> may be missing. Any
  exception ends in \<open>Bad_request\<close>. The reasons against a deletion are those of the record, or the
  lack of permission.\<close>

definition can_operate :: "(operation \<Rightarrow> (target option \<Rightarrow> py_error + bool) option) \<Rightarrow> operation \<Rightarrow> target option \<Rightarrow> py_error + bool" where
  "can_operate factory op r =
     (case factory op of
        None \<Rightarrow> if op \<in> {Search, Create} then Inr True else Inl TypeError
      | Some f \<Rightarrow> f r)"

definition record_permissions ::
  "(operation \<Rightarrow> (target option \<Rightarrow> py_error + bool) option) \<Rightarrow> (string \<Rightarrow> target option)
     \<Rightarrow> (target \<Rightarrow> bool \<times> string list) \<Rightarrow> string option \<Rightarrow> answer" where
  "record_permissions factory find_record deletable pid =
     (case and_then (can_operate factory Search None) (\<lambda>s.
           and_then (can_operate factory Create None) (\<lambda>c.
           case pid of
             None \<Rightarrow> Inr (Permissions [(Search, s), (Create, c)] [])
           | Some p \<Rightarrow>
               (case find_record p of
                  None \<Rightarrow> Inr Record_not_found
                | Some r \<Rightarrow>
                    and_then (can_operate factory Read (Some r)) (\<lambda>rd.
                    and_then (can_operate factory Update (Some r)) (\<lambda>up.
                    let (can_delete, reasons) = deletable r in
                    and_then (if can_delete then can_operate factory Delete (Some r) else Inr False) (\<lambda>dl.
                      Inr (Permissions [(Search, s), (Create, c), (Read, rd), (Update, up), (Delete, dl)]
                        (if \<not> dl \<and> reasons = [] then [''permission denied''] else reasons))))))))
      of Inl e \<Rightarrow> Bad_request | Inr a \<Rightarrow> a)"

section \<open>The matrix of the permissions of a patron\<close>

text \<open>Rows of the tables of invenio-access: an action, the role (or the user) and whether it is excluded.\<close>

type_synonym row = "string \<times> string \<times> bool"
type_synonym reasons = "(string, bool option) dict"
type_synonym matrix = "(string, reasons) dict"

definition base_reasons :: "string list \<Rightarrow> reasons" where
  "base_reasons rs =
     fold (\<lambda>k. dict_set k None) [''user'', ''any_user'', ''authenticated_user''] (fold (\<lambda>k. dict_set k None) rs [])"

definition set_reason :: "row \<Rightarrow> matrix \<Rightarrow> matrix" where
  "set_reason rw m =
     (case rw of (a, k, excluded) \<Rightarrow>
        (case dict_get m a of None \<Rightarrow> m | Some rs \<Rightarrow> dict_set a (dict_set k (Some (\<not> excluded)) rs) m))"

text \<open>For the rows of the user an unknown action is a \<open>KeyError\<close>; the others are passed over.\<close>

fun set_user_reasons :: "row list \<Rightarrow> matrix \<Rightarrow> py_error + matrix" where
  "set_user_reasons [] m = Inr m"
| "set_user_reasons ((a, k, x) # rows) m =
     (if dict_get m a = None then Inl (KeyError a) else set_user_reasons rows (set_reason (a, ''user'', x) m))"

definition permission_of :: "reasons \<Rightarrow> bool" where
  "permission_of rs \<longleftrightarrow> Some True \<in> set (map snd rs) \<and> Some False \<notin> set (map snd rs)"

definition expose_action_needs_by_patron ::
  "string list \<Rightarrow> string list \<Rightarrow> row list \<Rightarrow> row list \<Rightarrow> row list \<Rightarrow> py_error + (string \<times> bool \<times> reasons) list" where
  "expose_action_needs_by_patron actions patron_roles role_rows user_rows system_rows =
     (let m0 = map (\<lambda>a. (a, base_reasons patron_roles)) actions;
          m1 = fold set_reason (filter (\<lambda>(a, k, x). k \<in> set patron_roles) role_rows) m0 in
      and_then (set_user_reasons user_rows m1) (\<lambda>m2.
      let m3 = fold set_reason (filter (\<lambda>(a, k, x). k \<in> {''any_user'', ''authenticated_user''}) system_rows) m2 in
      Inr (map (\<lambda>(a, rs). (a, permission_of rs, rs)) m3)))"

end
