(* ===== verification/PermissionProperties.thy ===== *)
theory PermissionProperties
  imports Policies
begin

text \<open>
  What the policies guarantee: organisations are isolated, libraries belong to their staff, patrons read their own
  records, closed budgets are frozen, roles cannot be escalated, and the matrix of permissions says what it should.
\<close>

section \<open>Lemmas on policies\<close>

lemma map_result_in:
  "map_result f xs = Inr ys \<Longrightarrow> y \<in> set ys \<Longrightarrow> \<exists>x \<in> set xs. f x = Inr y"
  by (induction xs arbitrary: ys) (auto simp: and_then_eq_Inr)

lemma map_result_out:
  "map_result f xs = Inr ys \<Longrightarrow> x \<in> set xs \<Longrightarrow> \<exists>y \<in> set ys. f x = Inr y"
  by (induction xs arbitrary: ys) (auto simp: and_then_eq_Inr)

text \<open>An operation that is allowed has a generator with needs, and no generator excludes any user.\<close>

lemma allowed_needs:
  assumes "documented holds decide" "allowed decide gens u r = Inr True"
  shows "\<exists>g \<in> set gens. \<exists>ns n. needs g u r = Inr ns \<and> n \<in> set ns \<and> holds n"
proof -
  from assms(2) obtain xs where xs: "evaluate gens u r = Inr xs" "decide xs" by (auto simp: allowed_def and_then_eq_Inr)
  with assms(1) obtain ns es n where n: "(ns, es) \<in> set xs" "n \<in> set ns" "holds n"
    unfolding documented_def by blast
  from map_result_in [OF xs(1) [unfolded evaluate_def] n(1)] n show ?thesis by (auto simp: and_then_eq_Inr)
qed

lemma allowed_not_excluded:
  assumes "documented holds decide" "allowed decide gens u r = Inr True" "g \<in> set gens"
  shows "\<exists>es. excludes g u r = Inr es \<and> Any_user \<notin> set es"
proof -
  from assms(2) obtain xs where xs: "evaluate gens u r = Inr xs" "decide xs" by (auto simp: allowed_def and_then_eq_Inr)
  with assms(1) have "(ns, es) \<in> set xs \<Longrightarrow> Any_user \<notin> set es" for ns es unfolding documented_def by blast
  with map_result_out [OF xs(1) [unfolded evaluate_def] assms(3)] show ?thesis by (auto simp: and_then_eq_Inr)
qed

text \<open>The policies by name.\<close>

definition all_policies :: "(string \<times> (operation \<Rightarrow> generator list)) list" where
  "all_policies =
     [(''acq_account'', acq_account_policy), (''acq_order_line'', acq_order_line_policy), (''acq_order'', acq_order_policy),
      (''acq_receipt_line'', acq_receipt_line_policy), (''acq_receipt'', acq_receipt_policy), (''budget'', budget_policy),
      (''circ_policy'', circ_policy_policy), (''collection'', collection_policy), (''document'', document_policy),
      (''local_entity'', local_entity_policy), (''remote_entity'', remote_entity_policy), (''file'', file_policy),
      (''holding'', holding_policy), (''ill_request'', ill_request_policy), (''item_type'', item_type_policy),
      (''item'', item_policy), (''library'', library_policy), (''loan'', loan_policy), (''local_field'', local_field_policy),
      (''location'', location_policy), (''migration'', migration_policy), (''notification'', notification_policy),
      (''operation_log'', operation_log_policy), (''organisation'', organisation_policy),
      (''transaction_event'', transaction_event_policy), (''patron_transaction'', patron_transaction_policy),
      (''patron_type'', patron_type_policy), (''patron'', patron_policy), (''statistics'', statistics_policy),
      (''statistics_configuration'', statistics_configuration_policy), (''template'', template_policy),
      (''vendor'', vendor_policy)]"

definition policy_named :: "string \<Rightarrow> operation \<Rightarrow> generator list" where
  "policy_named name op = (case map_of all_policies name of None \<Rightarrow> [] | Some p \<Rightarrow> p op)"

text \<open>Pairs of a resource and operations on it.\<close>

definition pairs :: "(string list \<times> operation list) list \<Rightarrow> (string \<times> operation) list" where
  "pairs xs = concat (map (\<lambda>(ns, ops). List.product ns ops) xs)"

section \<open>Organisations\<close>

fun organisation_bound :: "generator \<Rightarrow> bool" where
  "organisation_bound (RestrictByOrganisation a) = True"
| "organisation_bound (RestrictByLocalFieldParent a) = True"
| "organisation_bound (RestrictStaffByManageableLibrary a) = True"
| "organisation_bound (TemplateReadRestriction a) = True"
| "organisation_bound RestrictDeleteDependOnPatronRolesManagement = True"
| "organisation_bound Disable = True"
| "organisation_bound g = False"

lemma organisation_bound_needs:
  assumes "organisation_bound g" "Organisation_need (tg_organisation r) \<notin> set (provides u)" "needs g u (Some r) = Inr ns"
  shows "ns = []"
  using assms
  by (cases g) (auto simp: restrict_by_organisation_def restrict_by_local_field_parent_def
      restrict_staff_by_manageable_library_def template_read_restriction_def Let_def split: if_splits)

definition organisations_of :: "user \<Rightarrow> string list" where
  "organisations_of u = (case librarian u of Some m \<Rightarrow> [sm_organisation m] | None \<Rightarrow> map snd (patron_accounts u))"

text \<open>What invenio adds to an identity is none of the needs of the program.\<close>

definition plain_base :: "user \<Rightarrow> bool" where
  "plain_base u \<longleftrightarrow>
     list_all (\<lambda>n. case n of Organisation_need x \<Rightarrow> False | Library_need x \<Rightarrow> False | Owner_need x \<Rightarrow> False | _ \<Rightarrow> True)
       (base_needs u)"

lemma plain_baseD:
  assumes "plain_base u"
  shows "Organisation_need x \<notin> set (base_needs u)" "Library_need y \<notin> set (base_needs u)" "Owner_need z \<notin> set (base_needs u)"
  using assms by (force simp: plain_base_def list_all_iff)+

lemma provides_organisation:
  "plain_base u \<Longrightarrow> Organisation_need x \<in> set (provides u) \<longleftrightarrow> x \<in> set (organisations_of u)"
  by (force simp: provides_def organisations_of_def plain_baseD split: option.splits if_splits)

lemma provides_library:
  "plain_base u \<Longrightarrow> Library_need x \<in> set (provides u) \<longleftrightarrow>
     (\<exists>m. librarian u = Some m \<and> x \<in> set (if full_permissions m then organisation_libraries m else sm_libraries m))"
  by (force simp: provides_def plain_baseD split: option.splits if_splits)

lemma provides_owner:
  "plain_base u \<Longrightarrow> Owner_need x \<in> set (provides u) \<longleftrightarrow>
     (\<exists>p. x = Some p \<and> p \<in> set (case librarian u of Some m \<Rightarrow> [sm_pid m] | None \<Rightarrow> map fst (patron_accounts u)))"
  by (force simp: provides_def plain_baseD split: option.splits if_splits)

definition organisation_restricted :: "(string \<times> operation) list" where
  "organisation_restricted =
     pairs
       [([''budget'', ''circ_policy'', ''item_type'', ''patron_type'', ''vendor''], [Read, Create, Update, Delete]),
        ([''patron_transaction'', ''transaction_event'', ''patron'', ''local_field''], [Create, Update, Delete]),
        ([''collection'', ''library'', ''location'', ''template''], [Read]),
        ([''organisation'', ''migration''], [Read, Update]),
        ([''ill_request''], [Update, Delete]),
        ([''statistics_configuration''], [Read, Create])]"

lemma organisation_restricted_bound:
  "(name, op) \<in> set organisation_restricted \<Longrightarrow> list_all organisation_bound (policy_named name op)"
proof -
  have "list_all (\<lambda>(name, op). list_all organisation_bound (policy_named name op)) organisation_restricted"
    by code_simp
  then show "(name, op) \<in> set organisation_restricted \<Longrightarrow> list_all organisation_bound (policy_named name op)"
    by (auto simp: list_all_iff)
qed

section \<open>Libraries\<close>

fun library_bound :: "generator \<Rightarrow> bool" where
  "library_bound (RestrictByManageableLibrary a cb) = (cb = Library_pid \<or> cb = Library_pid_or_dummy)"
| "library_bound DisallowedIfRollovered = True"
| "library_bound (DisallowedByOrderStatus xs) = True"
| "library_bound DisallowIfNotSerialHolding = True"
| "library_bound g = False"

lemma library_bound_needs:
  assumes "library_bound g" "tg_library r = Some l" "Library_need l \<notin> set (provides u)" "needs g u (Some r) = Inr ns"
  shows "ns = []"
  using assms by (cases g) (auto simp: restrict_by_manageable_library_def Let_def split: if_splits)

definition library_restricted :: "(string \<times> operation) list" where
  "library_restricted =
     pairs
       [([''acq_account'', ''acq_order'', ''acq_order_line'', ''acq_receipt'', ''acq_receipt_line''],
         [Read, Create, Update, Delete]),
        ([''item'', ''holding'', ''location'', ''notification''], [Create, Update, Delete]),
        ([''statistics_configuration''], [Update, Delete])]"

lemma library_restricted_bound:
  "(name, op) \<in> set library_restricted \<Longrightarrow> list_all library_bound (policy_named name op)"
proof -
  have "list_all (\<lambda>(name, op). list_all library_bound (policy_named name op)) library_restricted"
    by code_simp
  then show "(name, op) \<in> set library_restricted \<Longrightarrow> list_all library_bound (policy_named name op)"
    by (auto simp: list_all_iff)
qed

section \<open>Owners\<close>

definition owner_pid :: "string \<Rightarrow> target \<Rightarrow> string option" where
  "owner_pid name r = (if name = ''patron'' then Some (tg_pid r) else tg_patron r)"

definition owner_restricted :: "(string \<times> operation) list" where
  "owner_restricted =
     pairs [([''notification'', ''ill_request'', ''transaction_event'', ''patron_transaction'', ''patron'', ''loan''], [Read]),
            ([''loan''], [Search])]"

fun owner_bound :: "string \<Rightarrow> generator \<Rightarrow> bool" where
  "owner_bound name (RestrictByOwnerOrOrganisation a cb) = (cb = (if name = ''patron'' then Own_pid else Patron_pid))"
| "owner_bound name DisallowedIfAnonymized = True"
| "owner_bound name g = False"

lemma owner_bound_needs:
  assumes "owner_bound name g" "librarian u = None" "patron_accounts u \<noteq> []"
    and "Owner_need (owner_pid name r) \<notin> set (provides u)" "needs g u (Some r) = Inr ns"
  shows "ns = []"
  using assms
  by (cases g) (auto simp: restrict_by_owner_or_organisation_def owner_of_def owner_pid_def split: if_splits)

lemma owner_restricted_bound:
  "(name, op) \<in> set owner_restricted \<Longrightarrow> list_all (owner_bound name) (policy_named name op)"
proof -
  have "list_all (\<lambda>(name, op). list_all (owner_bound name) (policy_named name op)) owner_restricted"
    by code_simp
  then show "(name, op) \<in> set owner_restricted \<Longrightarrow> list_all (owner_bound name) (policy_named name op)"
    by (auto simp: list_all_iff)
qed

section \<open>Closed budgets\<close>

definition frozen_operations :: "(string \<times> operation) list" where
  "frozen_operations =
     pairs [([''acq_account'', ''acq_order'', ''acq_order_line'', ''acq_receipt'', ''acq_receipt_line''], [Create, Update, Delete])]"

lemma frozen_operations_exclude:
  "(name, op) \<in> set frozen_operations \<Longrightarrow> DisallowedIfRollovered \<in> set (policy_named name op)"
proof -
  have "list_all (\<lambda>(name, op). DisallowedIfRollovered \<in> set (policy_named name op)) frozen_operations"
    by code_simp
  then show "(name, op) \<in> set frozen_operations \<Longrightarrow> DisallowedIfRollovered \<in> set (policy_named name op)"
    by (auto simp: list_all_iff)
qed

section \<open>The matrix of permissions\<close>

lemma dict_get_member: "distinct_keys d \<Longrightarrow> dict_get d k = Some v \<longleftrightarrow> (k, v) \<in> set d"
  by (simp add: dict_get_def distinct_keys_def)

lemma set_reason_other: "a' \<noteq> a \<Longrightarrow> dict_get (set_reason (a, k, x) m) a' = dict_get m a'"
  by (simp add: set_reason_def split: option.splits)

lemma set_reason_same:
  "dict_get m a = Some rs \<Longrightarrow> dict_get (set_reason (a, k, x) m) a = Some (dict_set k (Some (\<not> x)) rs)"
  by (simp add: set_reason_def)

lemma distinct_set_reason: "distinct_keys m \<Longrightarrow> distinct_keys (set_reason rw m)"
  by (cases rw) (simp add: set_reason_def split: option.splits)

lemma distinct_fold_reasons: "distinct_keys m \<Longrightarrow> distinct_keys (fold set_reason rows m)"
  by (induction rows arbitrary: m) (simp_all add: distinct_set_reason)

definition same_key :: "row \<Rightarrow> string \<times> string" where
  "same_key rw = (fst rw, fst (snd rw))"

lemma fold_reasons:
  assumes "distinct (map same_key rows)" "dict_get m a = Some rs0" "distinct_keys rs0"
  shows "\<exists>rs. dict_get (fold set_reason rows m) a = Some rs \<and> distinct_keys rs
    \<and> (\<forall>k v. dict_get rs k = Some (Some v) \<longleftrightarrow>
          (a, k, \<not> v) \<in> set rows \<or> (dict_get rs0 k = Some (Some v) \<and> (\<forall>x. (a, k, x) \<notin> set rows)))"
  using assms
proof (induction rows arbitrary: m rs0)
  case Nil
  then show ?case by simp
next
  case (Cons rw rows)
  obtain b j y where rw: "rw = (b, j, y)" by (cases rw)
  have new: "(b, j, x) \<notin> set rows" for x using Cons.prems(1) by (force simp: rw same_key_def)
  show ?case
  proof (cases "b = a")
    case False
    then have "dict_get (set_reason rw m) a = Some rs0" using Cons.prems(2) by (simp add: rw set_reason_other)
    from Cons.IH [OF _ this Cons.prems(3)] Cons.prems(1) False show ?thesis by (simp add: rw)
  next
    case True
    then have "dict_get (set_reason rw m) a = Some (dict_set j (Some (\<not> y)) rs0)"
      using Cons.prems(2) by (simp add: rw set_reason_same)
    from Cons.IH [OF _ this] Cons.prems(1,3) obtain rs where
      rs: "dict_get (fold set_reason rows (set_reason rw m)) a = Some rs" "distinct_keys rs"
      "\<And>k v. dict_get rs k = Some (Some v) \<longleftrightarrow> (a, k, \<not> v) \<in> set rows
         \<or> (dict_get (dict_set j (Some (\<not> y)) rs0) k = Some (Some v) \<and> (\<forall>x. (a, k, x) \<notin> set rows))"
      by auto
    have "dict_get rs k = Some (Some v) \<longleftrightarrow> (a, k, \<not> v) \<in> set (rw # rows)
         \<or> (dict_get rs0 k = Some (Some v) \<and> (\<forall>x. (a, k, x) \<notin> set (rw # rows)))" for k v
      using rs(3) [of k v] new True by (auto simp: rw)
    with rs(1,2) show ?thesis by auto
  qed
qed

lemma fold_reasons_None: "dict_get m b = None \<Longrightarrow> dict_get (fold set_reason rows m) b = None"
proof (induction rows arbitrary: m)
  case (Cons rw rows)
  obtain x k y where rw: "rw = (x, k, y)" by (cases rw)
  have "dict_get (set_reason rw m) b = None"
    using Cons.prems by (cases "x = b") (auto simp: rw set_reason_other set_reason_def split: option.splits)
  with Cons show ?case by simp
qed simp

lemma set_user_reasons_Inr:
  "set_user_reasons rows m = Inr m' \<Longrightarrow> m' = fold set_reason (map (\<lambda>(a, k, x). (a, ''user'', x)) rows) m"
  by (induction rows m arbitrary: m' rule: set_user_reasons.induct) (auto split: if_splits)

lemma dict_set_in: "(k', v') \<in> set (dict_set k v d) \<Longrightarrow> (k', v') = (k, v) \<or> (k', v') \<in> set d"
  unfolding dict_set_def by (induction d) (auto split: if_splits)

lemma base_reasons_None: "(k, v) \<in> set (base_reasons rs) \<Longrightarrow> v = None"
proof -
  have step: "(\<forall>(k, v) \<in> set d. v = None) \<Longrightarrow> (\<forall>(k, v) \<in> set (fold (\<lambda>k. dict_set k None) ks d). v = None)" for ks :: "string list" and d :: reasons
  proof (induction ks arbitrary: d)
    case (Cons k ks)
    have "\<forall>(k', v) \<in> set (dict_set k None d). v = None"
      using Cons.prems dict_set_in by fastforce
    from Cons.IH [OF this] show ?case by simp
  qed simp
  show "(k, v) \<in> set (base_reasons rs) \<Longrightarrow> v = None"
    using step [OF step [of "[]" rs], of "[''user'', ''any_user'', ''authenticated_user'']"] by (auto simp: base_reasons_def)
qed

lemma base_reasons_distinct: "distinct_keys (base_reasons rs)"
proof -
  have "distinct_keys d \<Longrightarrow> distinct_keys (fold (\<lambda>k. dict_set k None) ks d)" for ks :: "string list" and d :: reasons
    by (induction ks arbitrary: d) simp_all
  note st = this
  show ?thesis unfolding base_reasons_def by (intro st) (simp add: distinct_keys_def)
qed

text \<open>The rows that concern a patron.\<close>

definition rows_of :: "string list \<Rightarrow> row list \<Rightarrow> row list \<Rightarrow> row list \<Rightarrow> row list" where
  "rows_of patron_roles role_rows user_rows system_rows =
     filter (\<lambda>(a, k, x). k \<in> set patron_roles) role_rows
     @ map (\<lambda>(a, k, x). (a, ''user'', x)) user_rows
     @ filter (\<lambda>(a, k, x). k \<in> {''any_user'', ''authenticated_user''}) system_rows"

lemma expose_matrix:
  assumes "expose_action_needs_by_patron actions rs role_rows user_rows system_rows = Inr res"
  shows "res = map (\<lambda>(a, x). (a, permission_of x, x))
    (fold set_reason (rows_of rs role_rows user_rows system_rows) (map (\<lambda>a. (a, base_reasons rs)) actions))"
  using assms by (auto simp: expose_action_needs_by_patron_def Let_def and_then_eq_Inr rows_of_def dest!: set_user_reasons_Inr)

lemma permission_of_reasons:
  assumes "distinct_keys x"
  shows "permission_of x \<longleftrightarrow> (\<exists>k. dict_get x k = Some (Some True)) \<and> (\<forall>k. dict_get x k \<noteq> Some (Some False))"
  using assms by (force simp: permission_of_def dict_get_member)

section \<open>The properties\<close>

definition no_record :: target where
  "no_record =
     \<lparr>tg_pid = ''1'', tg_organisation = ''org1'', tg_library = Some ''lib1'', tg_libraries = Some [''lib1''],
      tg_patron = Some ''ptrn1'', tg_active = True, tg_order_status = Some ORDER_PENDING, tg_roles = [''patron''],
      tg_anonymized = False, tg_serial = True, tg_can_edit = True, tg_private = False, tg_creator = ''ptrn1'',
      tg_stat = None, tg_parent_library = None\<rparr>"

definition sample_user :: user where
  "sample_user =
     \<lparr>user_roles = [''pro_user_manager''],
      librarian = Some \<lparr>sm_pid = ''ptrn9'', sm_organisation = ''org2'', sm_libraries = [''lib2''], sm_roles = [''pro_user_manager''],
                       organisation_libraries = [''lib2'', ''lib3'']\<rparr>,
      patron_accounts = [], base_needs = [Any_user], is_admin = False\<rparr>"

definition sample_patron :: user where
  "sample_patron =
     \<lparr>user_roles = [''patron''], librarian = None, patron_accounts = [(''ptrn5'', ''org1'')], base_needs = [Any_user],
      is_admin = False\<rparr>"

text \<open>The decision of the documentation, for a user who holds every action.\<close>

definition generous :: "(need list \<times> need list) list \<Rightarrow> bool" where
  "generous xs \<longleftrightarrow> list_ex (\<lambda>(ns, es). list_ex (\<lambda>n. True) ns) xs \<and> list_all (\<lambda>(ns, es). Any_user \<notin> set es) xs"

lemma generous_documented: "documented (\<lambda>n. True) generous"
  by (auto simp: documented_def generous_def list_ex_iff list_all_iff split_beta)







text \<open>
  C31. A closed budget is frozen: nobody, with whatever roles and actions, is allowed to create, update or delete an account, an
  order, an order line, a receipt or a receipt line whose budget is not active; and an order line can be
  deleted only while its order is pending or cancelled.
\<close>
theorem closed_budgets_are_frozen:
  assumes "documented holds decide"
  shows "((name, op) \<in> set frozen_operations \<and> \<not> tg_active r
      \<longrightarrow> allowed decide (policy_named name op) u (Some r) \<noteq> Inr True)
    \<and> (allowed decide (policy_named ''acq_order_line'' Delete) u (Some r) = Inr True
      \<longrightarrow> tg_order_status r \<in> {None, Some ORDER_PENDING, Some ORDER_CANCELLED})"
proof (intro conjI impI)
  assume fr: "(name, op) \<in> set frozen_operations \<and> \<not> tg_active r"
  show "allowed decide (policy_named name op) u (Some r) \<noteq> Inr True"
  proof
    assume "allowed decide (policy_named name op) u (Some r) = Inr True"
    from allowed_not_excluded [OF assms this frozen_operations_exclude] fr
    show False by (auto simp: exclude_if_def given_and_def)
  qed
next
  assume al: "allowed decide (policy_named ''acq_order_line'' Delete) u (Some r) = Inr True"
  have "DisallowedByOrderStatus [ORDER_CANCELLED, ORDER_PENDING] \<in> set (policy_named ''acq_order_line'' Delete)"
    by code_simp
  from allowed_not_excluded [OF assms al this] show "tg_order_status r \<in> {None, Some ORDER_PENDING, Some ORDER_CANCELLED}"
    by (auto simp: exclude_if_def given_and_def split: option.splits if_splits)
qed

theorem closed_budgets_are_frozen_witness:
  "allowed generous (policy_named ''acq_order'' Delete) sample_user (Some (no_record\<lparr>tg_active := False\<rparr>)) \<noteq> Inr True"
proof -
  have "(''acq_order'', Delete) \<in> set frozen_operations" "\<not> tg_active (no_record\<lparr>tg_active := False\<rparr>)" by code_simp+
  with closed_budgets_are_frozen [OF generous_documented] show ?thesis by blast
qed

text \<open>
  Roles cannot be escalated by deletion: whoever is allowed to delete a patron holds roles that may manage every role of that
  patron; so nobody without full permissions deletes a library administrator or a user with full permissions, and a user manager
  deletes only plain patrons. A member of the staff is deleted only by somebody with a library in common.
\<close>
theorem deletion_needs_manageable_roles:
  assumes "documented holds decide" "allowed decide (policy_named ''patron'' Delete) u (Some r) = Inr True"
  shows "(\<forall>x \<in> set (tg_roles r). \<exists>y \<in> set (user_roles u). x \<in> set (the (dict_get roles_management_restrictions y))
      \<and> dict_get roles_management_restrictions y \<noteq> None)
    \<and> (FULL_PERMISSIONS \<notin> set (user_roles u) \<longrightarrow>
        FULL_PERMISSIONS \<notin> set (tg_roles r) \<and> LIBRARY_ADMINISTRATOR \<notin> set (tg_roles r))
    \<and> (set (user_roles u) \<subseteq> {USER_MANAGER, ''patron''} \<longrightarrow> set (tg_roles r) \<subseteq> {''patron''})
    \<and> (set (tg_roles r) \<inter> set PROFESSIONAL_ROLES \<noteq> {} \<longrightarrow>
        (\<exists>l \<in> set (case tg_libraries r of None \<Rightarrow> [] | Some ls \<Rightarrow> ls). Library_need l \<in> set (provides u)))"
proof -
  have p: "policy_named ''patron'' Delete =
      [RestrictStaffByManageableLibrary ''ptrn-delete'', RestrictDeleteDependOnPatronRolesManagement]" by code_simp
  have v: "validate_role_changes (user_roles u) (tg_roles r)"
    using allowed_not_excluded [OF assms, of RestrictDeleteDependOnPatronRolesManagement]
    by (auto simp: p exclude_if_def split: if_splits)
  have m: "\<exists>y \<in> set (user_roles u). \<exists>ys. dict_get roles_management_restrictions y = Some ys \<and> x \<in> set ys"
    if "x \<in> set (tg_roles r)" for x
  proof -
    have "x \<in> set (manageable_roles (user_roles u))" using v that by (simp add: validate_role_changes_def list_all_iff)
    then obtain y where "y \<in> set (user_roles u)"
      "x \<in> set (case dict_get roles_management_restrictions y of None \<Rightarrow> [] | Some ys \<Rightarrow> ys)"
      by (auto simp: manageable_roles_def)
    then show ?thesis by (cases "dict_get roles_management_restrictions y") auto
  qed
  have g: "dict_get roles_management_restrictions y = Some ys \<longleftrightarrow>
      (y = FULL_PERMISSIONS \<and> ys = ALL_ROLES)
      \<or> (y = LIBRARY_ADMINISTRATOR \<and> ys = [''patron'', ''pro_read_only'', ''pro_circulation_manager'', ''pro_catalog_manager'',
           ''pro_user_manager'', ''pro_acquisition_manager''])
      \<or> (y = USER_MANAGER \<and> ys = [''patron''])" for y ys
    by (auto simp: dict_get_def roles_management_restrictions_def FULL_PERMISSIONS_def LIBRARY_ADMINISTRATOR_def USER_MANAGER_def)
  have "set (tg_roles r) \<inter> set PROFESSIONAL_ROLES \<noteq> {} \<Longrightarrow>
        (\<exists>l \<in> set (case tg_libraries r of None \<Rightarrow> [] | Some ls \<Rightarrow> ls). Library_need l \<in> set (provides u))"
    using allowed_needs [OF assms]
    by (auto simp: p restrict_staff_by_manageable_library_def list_ex_iff split: if_splits)
  moreover have "\<forall>x \<in> set (tg_roles r). \<exists>y \<in> set (user_roles u). x \<in> set (the (dict_get roles_management_restrictions y))
      \<and> dict_get roles_management_restrictions y \<noteq> None"
    using m by force
  moreover have "FULL_PERMISSIONS \<notin> set (user_roles u) \<Longrightarrow>
        FULL_PERMISSIONS \<notin> set (tg_roles r) \<and> LIBRARY_ADMINISTRATOR \<notin> set (tg_roles r)"
    using m [of FULL_PERMISSIONS] m [of LIBRARY_ADMINISTRATOR]
    by (auto simp: g FULL_PERMISSIONS_def LIBRARY_ADMINISTRATOR_def USER_MANAGER_def)
  moreover have "set (user_roles u) \<subseteq> {USER_MANAGER, ''patron''} \<Longrightarrow> set (tg_roles r) \<subseteq> {''patron''}"
    using m by (fastforce simp: g FULL_PERMISSIONS_def LIBRARY_ADMINISTRATOR_def USER_MANAGER_def)
  ultimately show ?thesis by blast
qed

theorem deletion_needs_manageable_roles_witness:
  "set (tg_roles (no_record\<lparr>tg_organisation := ''org2''\<rparr>)) \<subseteq> {''patron''}"
proof -
  have "allowed generous (policy_named ''patron'' Delete) sample_user (Some (no_record\<lparr>tg_organisation := ''org2''\<rparr>)) = Inr True"
    by code_simp
  from deletion_needs_manageable_roles [OF generous_documented this]
  show ?thesis by (simp add: sample_user_def USER_MANAGER_def)
qed

text \<open>
  C32. The matrix of permissions: when the rows that concern a patron name every action and role at most once,
  an action is shown as permitted exactly when some row that concerns the patron (a role of the patron, the
  user, any user, authenticated users) allows it and no such row excludes it.
\<close>
theorem matrix_of_permissions:
  assumes "expose_action_needs_by_patron actions rs role_rows user_rows system_rows = Inr res"
    and "distinct actions" "distinct (map same_key (rows_of rs role_rows user_rows system_rows))"
    and "(a, can, reasons) \<in> set res"
  shows "can \<longleftrightarrow> (\<exists>k. (a, k, False) \<in> set (rows_of rs role_rows user_rows system_rows))
    \<and> (\<forall>k. (a, k, True) \<notin> set (rows_of rs role_rows user_rows system_rows))"
proof -
  let ?rows = "rows_of rs role_rows user_rows system_rows"
  let ?m0 = "map (\<lambda>a. (a, base_reasons rs)) actions"
  have d0: "distinct_keys ?m0" using assms(2) by (simp add: distinct_keys_def comp_def)
  have get0: "dict_get ?m0 b = (if b \<in> set actions then Some (base_reasons rs) else None)" for b
    by (induction actions) (auto simp: dict_get_def)
  from assms(4) have c: "(a, reasons) \<in> set (fold set_reason ?rows ?m0)" "can = permission_of reasons"
    by (auto simp: expose_matrix [OF assms(1)])
  then have get: "dict_get (fold set_reason ?rows ?m0) a = Some reasons"
    using distinct_fold_reasons [OF d0] by (simp add: dict_get_member)
  have a: "a \<in> set actions"
  proof (rule ccontr)
    assume "a \<notin> set actions"
    then have "dict_get (fold set_reason ?rows ?m0) a = None" by (intro fold_reasons_None) (simp add: get0)
    with get show False by simp
  qed
  from fold_reasons [OF assms(3), of ?m0 a "base_reasons rs"] get0 a base_reasons_distinct get
  have r: "distinct_keys reasons"
    "\<And>k v. dict_get reasons k = Some (Some v) \<longleftrightarrow>
       (a, k, \<not> v) \<in> set ?rows \<or> (dict_get (base_reasons rs) k = Some (Some v) \<and> (\<forall>x. (a, k, x) \<notin> set ?rows))"
    by auto
  have none: "dict_get (base_reasons rs) k \<noteq> Some (Some v)" for k v
    using base_reasons_None by (force simp: dict_get_member [OF base_reasons_distinct])
  show ?thesis using r none by (simp add: c(2) permission_of_reasons)
qed

theorem matrix_of_permissions_witness:
  "\<exists>reasons. (''item-read'', False, reasons) \<in>
     set (case expose_action_needs_by_patron [''item-read''] [''patron''] [(''item-read'', ''patron'', False)] []
       [(''item-read'', ''any_user'', True)] of Inr xs \<Rightarrow> xs | Inl e \<Rightarrow> [])"
proof -
  let ?r = "expose_action_needs_by_patron [''item-read''] [''patron''] [(''item-read'', ''patron'', False)] []
       [(''item-read'', ''any_user'', True)]"
  have "case ?r of Inr xs \<Rightarrow> map fst xs = [''item-read''] | Inl e \<Rightarrow> False" by code_simp
  then obtain xs can reasons where x: "?r = Inr xs" "(''item-read'', can, reasons) \<in> set xs"
    by (cases ?r) auto
  have d: "distinct [''item-read'']" "distinct (map same_key (rows_of [''patron''] [(''item-read'', ''patron'', False)] []
       [(''item-read'', ''any_user'', True)]))"
    "(''item-read'', ''any_user'', True) \<in> set (rows_of [''patron''] [(''item-read'', ''patron'', False)] []
       [(''item-read'', ''any_user'', True)])" by code_simp+
  from matrix_of_permissions [OF x(1) d(1,2) x(2)] d(3) have "\<not> can" by blast
  with x show ?thesis by auto
qed

section \<open>Where the code differs from its documentation\<close>

text \<open>A report of another organisation can be read with the action to search: the second generator of the policy
  gives back the need that the first one withholds.\<close>

lemma foreign_report_readable:
  "allowed generous (policy_named ''statistics'' Read) sample_user (Some (no_record\<lparr>tg_stat := Some REPORT\<rparr>)) = Inr True"
  by code_simp

text \<open>A library administrator reads the private templates of other libraries: the test compares the libraries
  of the administrator with what the administrator provides.\<close>

lemma administrator_reads_private_templates:
  assumes "librarian u = Some m" "sm_libraries m \<noteq> []" "LIBRARY_ADMINISTRATOR \<in> set (sm_roles m)" "\<not> full_permissions m"
    and "tg_organisation r = sm_organisation m"
  shows "needs (TemplateReadRestriction a) u (Some r) = Inr [Action a]"
proof -
  have "\<exists>l \<in> set (sm_libraries m). Library_need l \<in> set (provides u)"
    using assms(1,2,4) by (cases "sm_libraries m") (auto simp: provides_def)
  with assms show ?thesis
    by (auto simp: template_read_restriction_def provides_def full_permissions_def Let_def list_all_iff)
qed

text \<open>The creator of a template who is no longer staff gets an exception instead of an answer.\<close>

lemma former_creator_fails:
  assumes "librarian u = None" "Owner_need (Some (tg_creator r)) \<in> set (provides u)"
    and "Organisation_need (tg_organisation r) \<in> set (provides u)"
  shows "needs (TemplateReadRestriction a) u (Some r) = Inl AttributeError"
  using assms by (simp add: template_read_restriction_def Let_def)

end
