(* ===== verification/Notifications.thy ===== *)
theory Notifications
  imports ItemCirculation Transactions
begin

text \<open>
  Notifications: class \<open>Notification\<close> of \<open>rero_ils/modules/notifications/api.py\<close>, its subclasses in
  \<open>subclasses/\<close>, the extension that chooses among them, and the functions of \<open>utils.py\<close>.

  A notification is a message to a patron, a library or a vendor. The record \<open>notice\<close> has the fields of the
  JSON document; \<open>notice_class\<close> are the concrete subclasses, and a method that the subclasses override is one
  function with a case for each. The records that a notification leads to (loan, item, patron, locations,
  libraries, order) are found through \<open>catalogue\<close>, which also holds what the code takes from elsewhere: the
  rendering of a Jinja template, the digest of \<open>hashlib\<close>, the text of a UUID. A reference that cannot
  be resolved is \<open>None\<close>, and using it is an \<open>AttributeError\<close>. The documents in the context of a template
  are named by the pid of the item.
\<close>

section \<open>Records\<close>

datatype recipient_type = To | Cc | Bcc | Reply_to

datatype notice_status = Done | Created | Cancelled_notice

record notice =
  nt_type :: notification_type
  nt_status :: "notice_status option"
  nt_created :: stamp
  process_date :: "stamp option"
  notification_sent :: "bool option"
  effective_recipients :: "(recipient_type \<times> string) list"
  nt_loan :: "string option"
  nt_order :: "string option"
  nt_item :: "string option"
  nt_counter :: "nat option"
  nt_recipients :: "(recipient_type \<times> string) list"

record patron_card =
  pc_email :: "string option"
  pc_additional_email :: "string option"
  pc_channel :: "channel option"
  pc_language :: "string option"
  pc_type :: string

record library_card =
  lb_name :: string
  lb_email :: "string option"
  lb_language :: "string option"
  lb_settings :: "(notification_type \<times> string \<times> int) list"

record location_card =
  lc_name :: string
  lc_pickup_name :: "string option"
  lc_library :: string
  lc_organisation :: string
  lc_email :: "string option"

text \<open>\<open>it_vendor\<close> is the language of the vendor of the holding, if there is a vendor.\<close>

record item_card =
  it_location :: string
  it_library :: string
  it_organisation :: string
  it_status :: item_status
  it_negative_availability :: bool
  it_temporary_type :: "string option"
  it_holding_type :: string
  it_holding_location :: string
  it_issue :: bool
  it_vendor :: "string option option"

record order_card =
  or_library :: string
  or_language :: "string option"

text \<open>What a template is rendered with.\<close>

record entry =
  en_item :: string
  en_patron :: "string option"
  en_pickup_name :: "string option"
  en_in_transit :: bool
  en_date :: "stamp option"
  en_counter :: "nat option"
  en_library :: "string option"

record message_context =
  include_patron_address :: bool
  cx_patron :: "string option"
  cx_library :: "string option"
  cx_order :: "string option"
  cx_issue :: "string option"
  delay :: int
  cx_loans :: "entry list"

record catalogue =
  loan_of :: "string \<Rightarrow> loan option"
  item_of :: "string \<Rightarrow> item_card option"
  loans_of_item :: "string \<Rightarrow> loan list"
  location_of :: "string \<Rightarrow> location_card option"
  library_of :: "string \<Rightarrow> library_card option"
  patron_of :: "string \<Rightarrow> patron_card option"
  order_of :: "string \<Rightarrow> order_card option"
  policy_index :: "cipo list"
  default_language :: string
  digest :: "string option list \<Rightarrow> string"
  uuid :: "string \<Rightarrow> string"
  rendering :: "string \<Rightarrow> message_context \<Rightarrow> string"

text \<open>A method called on what may be \<open>None\<close>.\<close>

definition need :: "'a option \<Rightarrow> py_error + 'a" where
  "need x = (case x of None \<Rightarrow> Inl AttributeError | Some v \<Rightarrow> Inr v)"

lemma need_simps [simp]: "need None = Inl AttributeError" "need (Some v) = Inr v"
  by (simp_all add: need_def)

lemma need_eq_Inr [simp]: "need x = Inr v \<longleftrightarrow> x = Some v"
  by (cases x) auto

definition lookup :: "(string \<Rightarrow> 'a option) \<Rightarrow> string option \<Rightarrow> 'a option" where
  "lookup f p = (case p of None \<Rightarrow> None | Some x \<Rightarrow> f x)"

section \<open>Types and classes\<close>

fun type_name :: "notification_type \<Rightarrow> string" where
  "type_name ACQUISITION_ORDER = ''acquisition_order''"
| "type_name AT_DESK = ''at_desk''"
| "type_name AUTO_EXTEND = ''auto_extend''"
| "type_name AVAILABILITY = ''availability''"
| "type_name BOOKING = ''booking''"
| "type_name CLAIM_ISSUE = ''claim_issue''"
| "type_name DUE_SOON = ''due_soon''"
| "type_name OVERDUE = ''overdue''"
| "type_name RECALL = ''recall''"
| "type_name REQUEST_NOTICE = ''request''"
| "type_name TRANSIT_NOTICE = ''transit_notice''"

definition CIRCULATION_NOTIFICATIONS :: "notification_type list" where
  "CIRCULATION_NOTIFICATIONS =
     [AT_DESK, AUTO_EXTEND, AVAILABILITY, DUE_SOON, OVERDUE, RECALL, TRANSIT_NOTICE, REQUEST_NOTICE, BOOKING]"

datatype notice_class =
    Availability_class | At_desk_class | Booking_class | Reminder_class | Recall_class | Request_class
  | Transit_class | Order_class | Claim_class

fun subclass_of :: "notification_type \<Rightarrow> notice_class" where
  "subclass_of AVAILABILITY = Availability_class"
| "subclass_of AT_DESK = At_desk_class"
| "subclass_of BOOKING = Booking_class"
| "subclass_of DUE_SOON = Reminder_class"
| "subclass_of OVERDUE = Reminder_class"
| "subclass_of RECALL = Recall_class"
| "subclass_of REQUEST_NOTICE = Request_class"
| "subclass_of TRANSIT_NOTICE = Transit_class"
| "subclass_of ACQUISITION_ORDER = Order_class"
| "subclass_of CLAIM_ISSUE = Claim_class"
| "subclass_of AUTO_EXTEND = Recall_class"

abbreviation class_of :: "notice \<Rightarrow> notice_class" where
  "class_of n \<equiv> subclass_of (nt_type n)"

text \<open>The subclasses of \<open>InternalCirculationNotification\<close>.\<close>

definition is_internal :: "notice_class \<Rightarrow> bool" where
  "is_internal c \<longleftrightarrow> c \<in> {At_desk_class, Request_class, Transit_class}"

definition is_circulation :: "notice_class \<Rightarrow> bool" where
  "is_circulation c \<longleftrightarrow> c \<notin> {Order_class, Claim_class}"

section \<open>The records behind a notification\<close>

definition loan_pid :: "notice \<Rightarrow> py_error + string" where
  "loan_pid n = (case nt_loan n of None \<Rightarrow> Inl (KeyError ''loan'') | Some p \<Rightarrow> Inr p)"

definition notice_loan :: "catalogue \<Rightarrow> notice \<Rightarrow> py_error + loan" where
  "notice_loan cat n = and_then (loan_pid n) (\<lambda>p. need (loan_of cat p))"

definition notice_item_pid :: "catalogue \<Rightarrow> notice \<Rightarrow> py_error + string" where
  "notice_item_pid cat n =
     (if class_of n = Claim_class
      then (case nt_item n of None \<Rightarrow> Inl (KeyError ''item'') | Some p \<Rightarrow> Inr p)
      else and_then (notice_loan cat n) (\<lambda>l. Inr (l_item l)))"

definition notice_item :: "catalogue \<Rightarrow> notice \<Rightarrow> py_error + item_card option" where
  "notice_item cat n = and_then (notice_item_pid cat n) (\<lambda>p. Inr (item_of cat p))"

definition the_item :: "catalogue \<Rightarrow> notice \<Rightarrow> py_error + item_card" where
  "the_item cat n = and_then (notice_item cat n) need"

definition notice_location :: "catalogue \<Rightarrow> notice \<Rightarrow> py_error + location_card" where
  "notice_location cat n = and_then (the_item cat n) (\<lambda>i. need (location_of cat (it_location i)))"

definition notice_order :: "catalogue \<Rightarrow> notice \<Rightarrow> py_error + order_card option" where
  "notice_order cat n =
     (case nt_order n of None \<Rightarrow> Inl (KeyError ''order'') | Some p \<Rightarrow> Inr (order_of cat p))"

definition library_pid :: "catalogue \<Rightarrow> notice \<Rightarrow> py_error + string" where
  "library_pid cat n =
     (if class_of n = Order_class then and_then (notice_order cat n) (\<lambda>x. and_then (need x) (\<lambda>r. Inr (or_library r)))
      else and_then (the_item cat n) (\<lambda>i. Inr (it_library i)))"

definition notice_library :: "catalogue \<Rightarrow> notice \<Rightarrow> py_error + library_card" where
  "notice_library cat n = and_then (library_pid cat n) (\<lambda>p. need (library_of cat p))"

definition notice_patron :: "catalogue \<Rightarrow> notice \<Rightarrow> py_error + patron_card" where
  "notice_patron cat n = and_then (notice_loan cat n) (\<lambda>l. need (patron_of cat (l_patron l)))"

definition notice_transaction_location :: "catalogue \<Rightarrow> notice \<Rightarrow> py_error + location_card option" where
  "notice_transaction_location cat n =
     and_then (notice_loan cat n) (\<lambda>l. Inr (lookup (location_of cat) (transaction_location l)))"

definition transaction_library :: "catalogue \<Rightarrow> notice \<Rightarrow> py_error + string \<times> library_card" where
  "transaction_library cat n =
     and_then (notice_transaction_location cat n) (\<lambda>t.
     and_then (need t) (\<lambda>loc.
     and_then (need (library_of cat (lc_library loc))) (\<lambda>lib. Inr (lc_library loc, lib))))"

definition notice_pickup_location :: "catalogue \<Rightarrow> notice \<Rightarrow> py_error + location_card option" where
  "notice_pickup_location cat n =
     and_then (notice_loan cat n) (\<lambda>l. Inr (lookup (location_of cat) (pickup_location l)))"

definition pickup_library :: "catalogue \<Rightarrow> notice \<Rightarrow> py_error + (string \<times> library_card) option" where
  "pickup_library cat n =
     and_then (notice_pickup_location cat n) (\<lambda>t.
     and_then (need t) (\<lambda>loc.
       Inr (map_option (Pair (lc_library loc)) (library_of cat (lc_library loc)))))"

text \<open>\<open>self.pickup_library or self.transaction_library\<close> of a booking.\<close>

definition booking_library :: "catalogue \<Rightarrow> notice \<Rightarrow> py_error + string \<times> library_card" where
  "booking_library cat n =
     and_then (pickup_library cat n) (\<lambda>p.
       case p of Some x \<Rightarrow> Inr x | None \<Rightarrow> transaction_library cat n)"

definition request_loan :: "catalogue \<Rightarrow> notice \<Rightarrow> py_error + loan option" where
  "request_loan cat n =
     and_then (notice_item_pid cat n) (\<lambda>p.
     and_then (the_item cat n) (\<lambda>_.
       let ls = loans_of_item cat p in
       Inr (case get_first_loan_by_state ITEM_AT_DESK ls of
              Some l \<Rightarrow> Some l
            | None \<Rightarrow>
                (case get_first_loan_by_state ITEM_IN_TRANSIT_FOR_PICKUP ls of
                   Some l \<Rightarrow> Some l
                 | None \<Rightarrow> get_first_loan_by_state PENDING ls))))"

text \<open>\<open>get_email\<close> of \<open>libraries/api.py\<close>: the first setting of the type.\<close>

definition get_email :: "library_card \<Rightarrow> notification_type \<Rightarrow> string option" where
  "get_email lib ty = map_option fst (dict_get (lb_settings lib) ty)"

section \<open>Channel, language, template\<close>

text \<open>\<open>get_circ_policy\<close> of \<open>loans/utils.py\<close>. The organisation of a loan is that of its item, which the
  creation of the loan copies; its location is that of its transaction, or else that of the holding.\<close>

definition loan_location_pid :: "item_card \<Rightarrow> loan \<Rightarrow> string" where
  "loan_location_pid i l = (case transaction_location l of None \<Rightarrow> it_holding_location i | Some p \<Rightarrow> p)"

definition item_category :: "item_card \<Rightarrow> string" where
  "item_category i = (case it_temporary_type i of None \<Rightarrow> it_holding_type i | Some t \<Rightarrow> t)"

definition get_circ_policy :: "catalogue \<Rightarrow> loan \<Rightarrow> py_error + cipo option" where
  "get_circ_policy cat l =
     and_then (need (item_of cat (l_item l))) (\<lambda>i.
     and_then (need (location_of cat (loan_location_pid i l))) (\<lambda>loc.
     and_then (need (patron_of cat (l_patron l))) (\<lambda>p.
       Inr (provide_circ_policy (policy_index cat) (it_organisation i) (lc_library loc) (pc_type p)
         (item_category i)))))"

definition reminder_type_of :: "notification_type \<Rightarrow> reminder_type" where
  "reminder_type_of ty = (if ty = DUE_SOON then Due_soon else Overdue)"

definition reminder_rank :: "notice \<Rightarrow> nat" where
  "reminder_rank n = (case nt_counter n of None \<Rightarrow> 0 | Some k \<Rightarrow> k)"

definition cipo_reminder :: "catalogue \<Rightarrow> notice \<Rightarrow> py_error + reminder option" where
  "cipo_reminder cat n =
     and_then (notice_loan cat n) (\<lambda>l.
     and_then (get_circ_policy cat l) (\<lambda>policy.
     and_then (need policy) (\<lambda>c.
       Inr (get_reminder c (reminder_type_of (nt_type n)) (reminder_rank n)))))"

definition patron_channel :: "catalogue \<Rightarrow> notice \<Rightarrow> py_error + channel option" where
  "patron_channel cat n = and_then (notice_patron cat n) (\<lambda>p. Inr (pc_channel p))"

definition get_communication_channel :: "catalogue \<Rightarrow> notice \<Rightarrow> py_error + channel option" where
  "get_communication_channel cat n =
     (let c = class_of n in
      if c = Reminder_class then
        and_then (cipo_reminder cat n) (\<lambda>r.
          case r of
            Some r' \<Rightarrow> if r_channel r' \<noteq> Patron_setting then Inr (Some (r_channel r')) else patron_channel cat n
          | None \<Rightarrow> patron_channel cat n)
      else if c \<in> {Availability_class, Recall_class} then patron_channel cat n
      else Inr (Some Email))"

definition order_language :: "catalogue \<Rightarrow> notice \<Rightarrow> py_error + string option" where
  "order_language cat n =
     and_then (notice_order cat n) (\<lambda>x. and_then (need x) (\<lambda>r.
       Inr (case or_language r of None \<Rightarrow> Some (default_language cat) | Some lang \<Rightarrow> Some lang)))"

definition claim_language :: "catalogue \<Rightarrow> notice \<Rightarrow> py_error + string option" where
  "claim_language cat n =
     and_then (notice_item cat n) (\<lambda>i. need (case i of None \<Rightarrow> None | Some i' \<Rightarrow> it_vendor i'))"

definition booking_language :: "catalogue \<Rightarrow> notice \<Rightarrow> py_error + string option" where
  "booking_language cat n = and_then (booking_library cat n) (\<lambda>(p, lib). Inr (lb_language lib))"

definition internal_language :: "catalogue \<Rightarrow> notice \<Rightarrow> py_error + string option" where
  "internal_language cat n = and_then (notice_library cat n) (\<lambda>lib. Inr (lb_language lib))"

definition patron_language :: "catalogue \<Rightarrow> notice \<Rightarrow> py_error + string option" where
  "patron_language cat n = and_then (notice_patron cat n) (\<lambda>p. Inr (pc_language p))"

definition get_language_to_use :: "catalogue \<Rightarrow> notice \<Rightarrow> py_error + string option" where
  "get_language_to_use cat n =
     (case class_of n of
        Order_class \<Rightarrow> order_language cat n
      | Claim_class \<Rightarrow> claim_language cat n
      | Booking_class \<Rightarrow> booking_language cat n
      | c \<Rightarrow> if is_internal c then internal_language cat n else patron_language cat n)"

text \<open>A missing language shows as \<open>None\<close> in the path.\<close>

definition shown :: "string option \<Rightarrow> string" where
  "shown x = (case x of None \<Rightarrow> ''None'' | Some v \<Rightarrow> v)"

definition default_template :: "catalogue \<Rightarrow> notice \<Rightarrow> py_error + string" where
  "default_template cat n =
     and_then (get_language_to_use cat n) (\<lambda>lang.
       Inr (''email/'' @ type_name (nt_type n) @ ''/'' @ shown lang @ ''.txt''))"

definition get_template_path :: "catalogue \<Rightarrow> notice \<Rightarrow> py_error + string" where
  "get_template_path cat n =
     (case class_of n of
        Order_class \<Rightarrow>
          and_then (get_language_to_use cat n) (\<lambda>lang.
            Inr (''rero_ils/vendor_order_mail/'' @ shown lang @ ''.tpl.txt''))
      | Claim_class \<Rightarrow>
          and_then (get_language_to_use cat n) (\<lambda>lang.
            Inr (''email/'' @ type_name (nt_type n) @ ''/'' @ shown lang @ ''.tpl.txt''))
      | At_desk_class \<Rightarrow>
          and_then (get_language_to_use cat n) (\<lambda>lang. Inr (''email/at_desk/'' @ shown lang @ ''.txt''))
      | Transit_class \<Rightarrow>
          and_then (get_language_to_use cat n) (\<lambda>lang. Inr (''email/transit_notice/'' @ shown lang @ ''.txt''))
      | Reminder_class \<Rightarrow>
          and_then (cipo_reminder cat n) (\<lambda>r.
            case r of
              Some r' \<Rightarrow>
                and_then (get_language_to_use cat n) (\<lambda>lang. Inr (r_template r' @ ''/'' @ shown lang @ ''.txt''))
            | None \<Rightarrow> default_template cat n)
      | _ \<Rightarrow> default_template cat n)"

section \<open>The key that groups notifications\<close>

fun channel_name :: "channel \<Rightarrow> string" where
  "channel_name Mail = ''mail''"
| "channel_name Email = ''email''"
| "channel_name Patron_setting = ''patron_setting''"

text \<open>The parts of the key, and their digest. \<open>pid\<close> is the pid of the notification, for its UUID.\<close>

definition key_start :: "catalogue \<Rightarrow> notice \<Rightarrow> py_error + string option list" where
  "key_start cat n =
     and_then (get_template_path cat n) (\<lambda>template.
     and_then (get_communication_channel cat n) (\<lambda>ch. Inr [Some template, map_option channel_name ch]))"

definition booking_key :: "catalogue \<Rightarrow> notice \<Rightarrow> py_error + string option list" where
  "booking_key cat n =
     and_then (key_start cat n) (\<lambda>parts. and_then (booking_library cat n) (\<lambda>(p, lib). Inr (parts @ [Some p])))"

definition internal_key :: "catalogue \<Rightarrow> notice \<Rightarrow> py_error + string option list" where
  "internal_key cat n =
     and_then (key_start cat n) (\<lambda>parts.
     and_then (library_pid cat n) (\<lambda>p. and_then (need (library_of cat p)) (\<lambda>_. Inr (parts @ [Some p]))))"

definition patron_key :: "catalogue \<Rightarrow> notice \<Rightarrow> py_error + string option list" where
  "patron_key cat n =
     and_then (key_start cat n) (\<lambda>parts.
     and_then (library_pid cat n) (\<lambda>p.
     and_then (notice_loan cat n) (\<lambda>l. Inr (parts @ [Some p, Some (l_patron l)]))))"

definition key_parts :: "catalogue \<Rightarrow> notice \<Rightarrow> py_error + string option list" where
  "key_parts cat n =
     (if class_of n = Booking_class then booking_key cat n
      else if is_internal (class_of n) then internal_key cat n
      else patron_key cat n)"

definition aggregation_key :: "catalogue \<Rightarrow> string \<Rightarrow> notice \<Rightarrow> py_error + string" where
  "aggregation_key cat pid n =
     (if is_circulation (class_of n) then and_then (key_parts cat n) (\<lambda>parts. Inr (digest cat parts))
      else Inr (uuid cat pid))"

section \<open>Recipients\<close>

definition option_list :: "'a option \<Rightarrow> 'a list" where
  "option_list x = (case x of None \<Rightarrow> [] | Some v \<Rightarrow> [v])"

definition library_address :: "catalogue \<Rightarrow> notice \<Rightarrow> py_error + string list" where
  "library_address cat n = and_then (notice_library cat n) (\<lambda>lib. Inr (option_list (get_email lib (nt_type n))))"

definition transaction_address :: "catalogue \<Rightarrow> notice \<Rightarrow> py_error + string list" where
  "transaction_address cat n =
     and_then (transaction_library cat n) (\<lambda>(p, lib). Inr (option_list (get_email lib (nt_type n))))"

definition request_address :: "catalogue \<Rightarrow> notice \<Rightarrow> py_error + string list" where
  "request_address cat n =
     and_then (notice_location cat n) (\<lambda>loc. case lc_email loc of Some a \<Rightarrow> Inr [a] | None \<Rightarrow> library_address cat n)"

definition patron_addresses :: "catalogue \<Rightarrow> notice \<Rightarrow> py_error + string list" where
  "patron_addresses cat n =
     and_then (get_communication_channel cat n) (\<lambda>ch.
       if ch = Some Email then
         and_then (notice_loan cat n) (\<lambda>l.
           Inr (case patron_of cat (l_patron l) of
                  None \<Rightarrow> []
                | Some p \<Rightarrow> option_list (pc_email p) @ option_list (pc_additional_email p)))
       else Inr [])"

definition get_recipients_to :: "catalogue \<Rightarrow> notice \<Rightarrow> py_error + string list" where
  "get_recipients_to cat n =
     (case class_of n of
        Request_class \<Rightarrow> request_address cat n
      | c \<Rightarrow> if c \<in> {At_desk_class, Transit_class, Booking_class} then transaction_address cat n
             else patron_addresses cat n)"

text \<open>The reply address of a circulation notification is a list of one element, which may be \<open>None\<close>.\<close>

definition get_recipients :: "catalogue \<Rightarrow> notice \<Rightarrow> recipient_type \<Rightarrow> py_error + string option list" where
  "get_recipients cat n ty =
     (if is_circulation (class_of n) then
        (case ty of
           To \<Rightarrow> and_then (get_recipients_to cat n) (\<lambda>xs. Inr (map Some xs))
         | Reply_to \<Rightarrow> and_then (notice_library cat n) (\<lambda>lib. Inr [lb_email lib])
         | _ \<Rightarrow> Inr [])
      else Inr (map (Some \<circ> snd) (filter (\<lambda>(t, a). t = ty) (nt_recipients n))))"

section \<open>The stored notifications\<close>

type_synonym notices = "(string, notice) dict"

text \<open>The notifications of a type about a loan that were created after its last transaction.\<close>

definition about_loan :: "notices \<Rightarrow> loan \<Rightarrow> notification_type \<Rightarrow> notices" where
  "about_loan ns l ty =
     filter (\<lambda>(p, n). nt_loan n = Some (l_pid l) \<and> nt_type n = ty
       \<and> (case transaction_date l of None \<Rightarrow> False | Some d \<Rightarrow> earlier d (nt_created n))) ns"

text \<open>A loan without a transaction date makes \<open>parse_datetime\<close> raise.\<close>

definition dated :: "loan \<Rightarrow> 'a \<Rightarrow> py_error + 'a" where
  "dated l x = (case transaction_date l of None \<Rightarrow> Inl TypeError | Some d \<Rightarrow> Inr x)"

definition is_notified :: "notices \<Rightarrow> loan \<Rightarrow> notification_type \<Rightarrow> nat \<Rightarrow> py_error + bool" where
  "is_notified ns l ty k = dated l (length (about_loan ns l ty) > k)"

definition number_of_notifications_sent :: "notices \<Rightarrow> loan \<Rightarrow> notification_type \<Rightarrow> py_error + nat" where
  "number_of_notifications_sent ns l ty =
     dated l (length (filter (\<lambda>(p, n). notification_sent n = Some True) (about_loan ns l ty)))"

definition get_notification :: "notices \<Rightarrow> loan \<Rightarrow> notification_type \<Rightarrow> (string \<times> notice) option" where
  "get_notification ns l ty =
     (case sort_key (\<lambda>(p, n). - instant (nt_created n))
            (filter (\<lambda>(p, n). nt_loan n = Some (l_pid l) \<and> nt_type n = ty) ns) of
        [] \<Rightarrow> None
      | x # _ \<Rightarrow> Some x)"

definition get_notifications :: "notices \<Rightarrow> notification_type \<Rightarrow> bool \<Rightarrow> bool \<Rightarrow> string list" where
  "get_notifications ns ty processed not_sent =
     map fst (filter (\<lambda>(p, n). nt_type n = ty
         \<and> (not_sent \<or> notification_sent n = None)
         \<and> (if processed then process_date n \<noteq> None else process_date n = None)) ns)"

definition get_claims_count :: "notices \<Rightarrow> string \<Rightarrow> nat" where
  "get_claims_count ns item = length (filter (\<lambda>(p, n). nt_item n = Some item \<and> nt_type n = CLAIM_ISSUE) ns)"

definition exists_similar_notification ::
  "notices \<Rightarrow> string \<Rightarrow> loan \<Rightarrow> notice \<Rightarrow> py_error + bool" where
  "exists_similar_notification ns pid l n =
     dated l (\<exists>(q, m) \<in> set (about_loan ns l (nt_type n)). nt_counter m = Some (reminder_rank n) \<and> q \<noteq> pid)"

section \<open>Validation and cancellation\<close>

definition required_recipients :: "notice \<Rightarrow> string option" where
  "required_recipients n =
     (let types = map fst (nt_recipients n) in
      if To \<notin> set types \<or> Reply_to \<notin> set types then Some ''Recipient type `to` and `reply_to` are required''
      else None)"

text \<open>\<open>extended_validation\<close>: the message, or nothing when the notification is valid.\<close>

definition order_validation :: "notice \<Rightarrow> py_error + string option" where
  "order_validation n =
     (case nt_order n of
        None \<Rightarrow> Inl (KeyError ''order'')
      | Some p \<Rightarrow>
          Inr (if p = [] then Some ''`order` field must be specified into `context` for AcquisitionNotification''
               else required_recipients n))"

definition claim_validation :: "catalogue \<Rightarrow> notice \<Rightarrow> py_error + string option" where
  "claim_validation cat n =
     and_then (notice_item cat n) (\<lambda>i.
       Inr (case i of
              None \<Rightarrow> Some ''`item` field must be specified into `context` for ClaimSerialIssueNotification''
            | Some x \<Rightarrow> if \<not> it_issue x then Some ''`item` field must reference an serial issue item.''
                        else required_recipients n))"

definition circulation_validation :: "notice \<Rightarrow> py_error + string option" where
  "circulation_validation n =
     (if nt_type n \<notin> set CIRCULATION_NOTIFICATIONS then Inr (Some ([CHR 0x27] @ type_name (nt_type n) @ '' isn't a CirculationNotification''))
      else and_then (loan_pid n) (\<lambda>p.
        Inr (if p = [] then Some ''`loan` field must be specified into `context` for CirculationNotification''
             else None)))"

definition notice_validation :: "catalogue \<Rightarrow> notice \<Rightarrow> py_error + string option" where
  "notice_validation cat n =
     (case class_of n of
        Order_class \<Rightarrow> order_validation n
      | Claim_class \<Rightarrow> claim_validation cat n
      | _ \<Rightarrow> circulation_validation n)"

definition validate_notice :: "catalogue \<Rightarrow> notice \<Rightarrow> py_error + unit" where
  "validate_notice cat n =
     and_then (notice_validation cat n) (\<lambda>r. case r of None \<Rightarrow> Inr () | Some why \<Rightarrow> Inl (ValidationError why))"

text \<open>The types of the notifications that the loan itself calls for, without a trigger.\<close>

definition candidate_types :: "catalogue \<Rightarrow> notices \<Rightarrow> loan \<Rightarrow> py_error + notification_type list" where
  "candidate_types cat ns l =
     and_then (need (item_of cat (l_item l))) (\<lambda>i.
       let ls = loans_of_item cat (l_item l) in
       Inr (map snd (get_notification_candidates
              (\<lambda>p ty. case loan_of cat p of None \<Rightarrow> False | Some co \<Rightarrow> about_loan ns co ty \<noteq> [])
              (map l_pid (get_requests ls)) (get_first_loan_by_state ITEM_ON_LOAN ls)
              (it_negative_availability i) None l)))"

text \<open>\<open>can_be_cancelled\<close>: the reason to cancel, or nothing. Each class asks its parent first, and a circulation
  notification is cancelled when its item is gone.\<close>

definition recall_cancelled :: "item_card \<Rightarrow> string option" where
  "recall_cancelled item = (if it_status item \<noteq> ON_LOAN then Some ''Item isn't anymore ON_LOAN state'' else None)"

definition internal_cancelled :: "catalogue \<Rightarrow> notices \<Rightarrow> notice \<Rightarrow> py_error + string option" where
  "internal_cancelled cat ns n =
     and_then (notice_loan cat n) (\<lambda>l.
     and_then (candidate_types cat ns l) (\<lambda>types.
       Inr (if nt_type n \<notin> set types then Some ''Notification type isn't into notification candidate'' else None)))"

definition at_desk_cancelled :: "catalogue \<Rightarrow> notices \<Rightarrow> notice \<Rightarrow> py_error + string option" where
  "at_desk_cancelled cat ns n =
     and_then (internal_cancelled cat ns n) (\<lambda>why.
       case why of
         Some w \<Rightarrow> Inr (Some w)
       | None \<Rightarrow>
           and_then (request_loan cat n) (\<lambda>r.
             Inr (case r of
                    None \<Rightarrow> Some ''No previous request found, none AT_DESK should be sent.''
                  | Some l \<Rightarrow> if l_state l \<noteq> Some ITEM_AT_DESK then Some ''The first found request isn't AT_DESK''
                              else None)))"

definition reminder_cancelled :: "catalogue \<Rightarrow> notices \<Rightarrow> string \<Rightarrow> notice \<Rightarrow> py_error + string option" where
  "reminder_cancelled cat ns pid n =
     and_then (cipo_reminder cat n) (\<lambda>r.
       if r = None then Inr (Some ''No corresponding CIPO reminder found'')
       else and_then (notice_loan cat n) (\<lambda>l.
            and_then (exists_similar_notification ns pid l n) (\<lambda>b.
              Inr (if b then Some ''Similar notification already proceed'' else None))))"

definition circulation_cancelled :: "catalogue \<Rightarrow> notice \<Rightarrow> (item_card \<Rightarrow> py_error + string option) \<Rightarrow> py_error + string option" where
  "circulation_cancelled cat n k =
     and_then (notice_item cat n) (\<lambda>i. case i of None \<Rightarrow> Inr (Some ''Item doesn't exists anymore'') | Some item \<Rightarrow> k item)"

definition order_cancelled :: "catalogue \<Rightarrow> notice \<Rightarrow> py_error + string option" where
  "order_cancelled cat n =
     and_then (notice_order cat n) (\<lambda>x. Inr (if x = None then Some ''Order doesn't exists anymore'' else None))"

definition can_be_cancelled :: "catalogue \<Rightarrow> notices \<Rightarrow> string \<Rightarrow> notice \<Rightarrow> py_error + string option" where
  "can_be_cancelled cat ns pid n =
     (case class_of n of
        Order_class \<Rightarrow> order_cancelled cat n
      | Recall_class \<Rightarrow> circulation_cancelled cat n (\<lambda>item. Inr (recall_cancelled item))
      | Reminder_class \<Rightarrow> circulation_cancelled cat n (\<lambda>item. reminder_cancelled cat ns pid n)
      | At_desk_class \<Rightarrow> circulation_cancelled cat n (\<lambda>item. at_desk_cancelled cat ns n)
      | c \<Rightarrow> circulation_cancelled cat n (\<lambda>item.
               if c \<in> {Availability_class, Request_class, Transit_class} then internal_cancelled cat ns n else Inr None))"

end
