(* ===== verification/Dispatch.thy ===== *)
theory Dispatch
  imports Notifications
begin

text \<open>
  The life of notifications: their creation (\<open>Notification.create\<close>, \<open>Loan.create_notification\<close>), the class
  \<open>Dispatcher\<close> of \<open>rero_ils/modules/notifications/dispatcher.py\<close>, and the tasks of \<open>tasks.py\<close>.

  The state \<open>office\<close> has the stored notifications (which are also what the search index answers from: each
  update reindexes), the messages sent, the operation log and the fees. An operation returns the state it leaves
  and a result, which is the exception when it raised: what was stored or sent before stays. The pids of a dispatch
  are distinct, so that the objects loaded at its start are those of the store. Log lines are left out.
\<close>

section \<open>State\<close>

record mail =
  m_to :: "string list"
  m_reply_to :: string
  m_cc :: "string list"
  m_bcc :: "string list"
  m_template :: string
  m_context :: message_context
  m_subject :: string
  m_body :: string
  m_countdown :: int
  m_notices :: "string list"

record office =
  notices :: notices
  outbox :: "mail list"
  op_log :: "(string \<times> string list) list"
  ledger_of :: ledger
  notice_serial :: nat

type_synonym 'a outcome_of = "office \<times> (py_error + 'a)"

definition then_do :: "'a outcome_of \<Rightarrow> ('a \<Rightarrow> office \<Rightarrow> 'b outcome_of) \<Rightarrow> 'b outcome_of" where
  "then_do m k = (case m of (s, Inl e) \<Rightarrow> (s, Inl e) | (s, Inr x) \<Rightarrow> k x s)"

lemma then_do_simps [simp]: "then_do (s, Inl e) k = (s, Inl e)" "then_do (s, Inr x) k = k x s"
  by (simp_all add: then_do_def)

lemma then_do_Inr: "then_do m k = (s', Inr y) \<longleftrightarrow> (\<exists>s x. m = (s, Inr x) \<and> k x s = (s', Inr y))"
  by (cases m, cases "snd m") auto

section \<open>The context of a message\<close>

definition no_context :: message_context where
  "no_context =
     \<lparr>include_patron_address = False, cx_patron = None, cx_library = None, cx_order = None, cx_issue = None,
      delay = 0, cx_loans = []\<rparr>"

definition blank_entry :: "string \<Rightarrow> entry" where
  "blank_entry item =
     \<lparr>en_item = item, en_patron = None, en_pickup_name = None, en_in_transit = False, en_date = None,
      en_counter = None, en_library = None\<rparr>"

definition in_transit :: "loan \<Rightarrow> bool" where
  "in_transit l \<longleftrightarrow> (case l_state l of None \<Rightarrow> False | Some s \<Rightarrow> s \<in> set ITEM_IN_TRANSIT)"

definition pickup_name_of :: "location_card \<Rightarrow> string" where
  "pickup_name_of loc = (case lc_pickup_name loc of None \<Rightarrow> lc_name loc | Some x \<Rightarrow> x)"

text \<open>The place where a request is picked up, and its patron: both are needed.\<close>

definition request_entry :: "catalogue \<Rightarrow> notice \<Rightarrow> entry \<Rightarrow> py_error + entry" where
  "request_entry cat n e =
     and_then (request_loan cat n) (\<lambda>rl.
     and_then (need rl) (\<lambda>r.
     and_then (need (case lookup (location_of cat) (pickup_location r) of
                       Some x \<Rightarrow> Some x
                     | None \<Rightarrow> lookup (location_of cat) (transaction_location r))) (\<lambda>loc.
     and_then (need (patron_of cat (l_patron r))) (\<lambda>_.
       Inr (e\<lparr>en_pickup_name := Some (pickup_name_of loc), en_patron := Some (l_patron r)\<rparr>)))))"

definition base_entry :: "catalogue \<Rightarrow> notice \<Rightarrow> py_error + loan \<times> entry" where
  "base_entry cat n =
     and_then (notice_loan cat n) (\<lambda>l. and_then (the_item cat n) (\<lambda>_. Inr (l, blank_entry (l_item l))))"

definition with_language :: "catalogue \<Rightarrow> notice \<Rightarrow> py_error + 'a \<Rightarrow> py_error + 'a" where
  "with_language cat n k = and_then (get_language_to_use cat n) (\<lambda>_. k)"

definition availability_entry :: "catalogue \<Rightarrow> notice \<Rightarrow> py_error + entry list" where
  "availability_entry cat n =
     and_then (base_entry cat n) (\<lambda>(l, e).
     and_then (notice_pickup_location cat n) (\<lambda>pick.
     and_then (case pick of
                 Some loc \<Rightarrow> and_then (pickup_library cat n) (\<lambda>lib. Inr (Some loc, map_option snd lib))
               | None \<Rightarrow>
                   and_then (notice_transaction_location cat n) (\<lambda>t.
                     case t of
                       None \<Rightarrow> Inr (None, None)
                     | Some loc \<Rightarrow> Inr (Some loc, library_of cat (lc_library loc)))) (\<lambda>(loc, lib).
       Inr (case (loc, lib) of
              (Some lo, Some li) \<Rightarrow>
                [e\<lparr>en_date := request_expire_date l,
                   en_pickup_name := Some (case lc_pickup_name lo of None \<Rightarrow> lb_name li | Some x \<Rightarrow> x)\<rparr>]
            | _ \<Rightarrow> []))))"

definition at_desk_entry :: "catalogue \<Rightarrow> notice \<Rightarrow> py_error + entry list" where
  "at_desk_entry cat n =
     with_language cat n (and_then (base_entry cat n) (\<lambda>(l, e).
       and_then (request_entry cat n (e\<lparr>en_date := request_expire_date l\<rparr>)) (\<lambda>e'. Inr [e'])))"

definition booking_entry :: "catalogue \<Rightarrow> notice \<Rightarrow> py_error + entry list" where
  "booking_entry cat n =
     with_language cat n (and_then (base_entry cat n) (\<lambda>(l, e).
       and_then (request_entry cat n (e\<lparr>en_in_transit := in_transit l\<rparr>)) (\<lambda>e'. Inr [e'])))"

definition request_notice_entry :: "catalogue \<Rightarrow> notice \<Rightarrow> py_error + entry list" where
  "request_notice_entry cat n =
     with_language cat n (and_then (base_entry cat n) (\<lambda>(l, e).
       and_then (notice_pickup_location cat n) (\<lambda>p.
       and_then (notice_transaction_location cat n) (\<lambda>t.
       and_then (need (case p of Some x \<Rightarrow> Some x | None \<Rightarrow> t)) (\<lambda>loc.
       and_then (notice_patron cat n) (\<lambda>_.
         Inr [e\<lparr>en_in_transit := in_transit l, en_pickup_name := Some (pickup_name_of loc),
                en_patron := Some (l_patron l)\<rparr>]))))))"

definition transit_entry :: "catalogue \<Rightarrow> notice \<Rightarrow> py_error + entry list" where
  "transit_entry cat n =
     with_language cat n (and_then (transaction_library cat n) (\<lambda>(p, lib).
       and_then (base_entry cat n) (\<lambda>(l, e). Inr [e\<lparr>en_library := Some p\<rparr>])))"

definition recall_entry :: "catalogue \<Rightarrow> notice \<Rightarrow> py_error + entry list" where
  "recall_entry cat n = and_then (notice_loan cat n) (\<lambda>l. Inr [(blank_entry (l_item l))\<lparr>en_date := end_date l\<rparr>])"

definition reminder_entry :: "catalogue \<Rightarrow> notice \<Rightarrow> py_error + entry list" where
  "reminder_entry cat n =
     and_then (base_entry cat n) (\<lambda>(l, e).
       Inr [e\<lparr>en_date := end_date l, en_counter := Some (Suc (reminder_rank n))\<rparr>])"

definition notice_entry :: "catalogue \<Rightarrow> notice \<Rightarrow> py_error + entry list" where
  "notice_entry cat n =
     (case class_of n of
        At_desk_class \<Rightarrow> at_desk_entry cat n
      | Booking_class \<Rightarrow> booking_entry cat n
      | Request_class \<Rightarrow> request_notice_entry cat n
      | Transit_class \<Rightarrow> transit_entry cat n
      | Availability_class \<Rightarrow> availability_entry cat n
      | Recall_class \<Rightarrow> recall_entry cat n
      | Reminder_class \<Rightarrow> reminder_entry cat n
      | _ \<Rightarrow> Inr [])"

text \<open>The last setting of availability notifications, in seconds.\<close>

definition availability_delay :: "library_card \<Rightarrow> int" where
  "availability_delay lib =
     (case dict_get (rev (lb_settings lib)) AVAILABILITY of None \<Rightarrow> 0 | Some (a, minutes) \<Rightarrow> minutes * 60)"

text \<open>What the first notification gives; the recalls and reminders compare a method with the name of a
  channel, which is never equal.\<close>

definition availability_head :: "catalogue \<Rightarrow> notice \<Rightarrow> py_error + message_context" where
  "availability_head cat n =
     and_then (notice_patron cat n) (\<lambda>_.
     and_then (pickup_library cat n) (\<lambda>lib.
     and_then (get_communication_channel cat n) (\<lambda>ch.
     and_then (need lib) (\<lambda>(p, card).
     and_then (notice_loan cat n) (\<lambda>l.
       Inr (no_context\<lparr>include_patron_address := (ch = Some Mail), cx_patron := Some (l_patron l),
                      cx_library := Some p, delay := availability_delay card\<rparr>))))))"

definition patron_head :: "catalogue \<Rightarrow> notice \<Rightarrow> py_error + message_context" where
  "patron_head cat n =
     and_then (notice_patron cat n) (\<lambda>_.
     and_then (notice_library cat n) (\<lambda>_.
     and_then (library_pid cat n) (\<lambda>p.
     and_then (notice_loan cat n) (\<lambda>l.
       Inr (no_context\<lparr>cx_patron := Some (l_patron l), cx_library := Some p\<rparr>)))))"

definition order_head :: "catalogue \<Rightarrow> notice \<Rightarrow> py_error + message_context" where
  "order_head cat n =
     and_then (notice_order cat n) (\<lambda>x. and_then (need x) (\<lambda>_. Inr (no_context\<lparr>cx_order := nt_order n\<rparr>)))"

definition claim_head :: "catalogue \<Rightarrow> notice \<Rightarrow> py_error + message_context" where
  "claim_head cat n = and_then (the_item cat n) (\<lambda>_. Inr (no_context\<lparr>cx_issue := nt_item n\<rparr>))"

definition context_head :: "catalogue \<Rightarrow> notice \<Rightarrow> py_error + message_context" where
  "context_head cat n =
     (case class_of n of
        At_desk_class \<Rightarrow> Inr (no_context\<lparr>delay := 30\<rparr>)
      | Availability_class \<Rightarrow> availability_head cat n
      | Order_class \<Rightarrow> order_head cat n
      | Claim_class \<Rightarrow> claim_head cat n
      | Recall_class \<Rightarrow> patron_head cat n
      | Reminder_class \<Rightarrow> patron_head cat n
      | _ \<Rightarrow> Inr no_context)"

definition get_notification_context :: "catalogue \<Rightarrow> notice list \<Rightarrow> py_error + message_context" where
  "get_notification_context cat ns =
     (case ns of
        [] \<Rightarrow> Inr no_context
      | n # _ \<Rightarrow>
          and_then (context_head cat n) (\<lambda>cx.
          and_then (map_result (notice_entry cat) ns) (\<lambda>es. Inr (cx\<lparr>cx_loans := concat es\<rparr>))))"

section \<open>Sending\<close>

text \<open>\<open>_create_email\<close>: the addresses to reply to are joined, so none may be missing; the first line of
  the rendered text is the subject.\<close>

definition create_email ::
  "catalogue \<Rightarrow> string list \<Rightarrow> string option list \<Rightarrow> message_context \<Rightarrow> string \<Rightarrow> string list \<Rightarrow> string list
     \<Rightarrow> int \<Rightarrow> string list \<Rightarrow> py_error + mail" where
  "create_email cat recipients reply_to cx template cc bcc countdown pids =
     (if None \<in> set reply_to then Inl TypeError
      else
        let lines = split_char newline (rendering cat template cx) in
        Inr \<lparr>m_to = recipients, m_reply_to = join '','' (List.map_filter id reply_to), m_cc = cc, m_bcc = bcc,
             m_template = template, m_context = cx, m_subject = hd lines, m_body = join [newline] (tl lines),
             m_countdown = countdown, m_notices = pids\<rparr>)"

text \<open>The two dispatchers return a mail to send and the recipients, or nothing when an address is missing.\<close>

definition printing_recipient :: "catalogue \<Rightarrow> notice \<Rightarrow> py_error + string option" where
  "printing_recipient cat n =
     and_then (if nt_type n \<in> {BOOKING, TRANSIT_NOTICE}
               then and_then (transaction_library cat n) (\<lambda>(p, lib). Inr lib)
               else if nt_type n = AVAILABILITY
               then and_then (pickup_library cat n) (\<lambda>x. and_then (need x) (\<lambda>(p, lib). Inr lib))
               else notice_library cat n) (\<lambda>lib.
       let recipient = get_email lib (nt_type n) in
       if nt_type n = REQUEST_NOTICE
       then and_then (notice_location cat n) (\<lambda>loc. Inr (case lc_email loc of None \<Rightarrow> recipient | Some a \<Rightarrow> Some a))
       else Inr recipient)"

definition send_mail_for_printing ::
  "catalogue \<Rightarrow> (string \<times> notice) list \<Rightarrow> py_error + (mail \<times> (recipient_type \<times> string) list) option" where
  "send_mail_for_printing cat batch =
     (let n = snd (hd batch) in
      and_then (printing_recipient cat n) (\<lambda>recipient.
      and_then (notice_library cat n) (\<lambda>lib.
        case (recipient, lb_email lib) of
          (Some r, Some reply_to) \<Rightarrow>
            and_then (get_notification_context cat (map snd batch)) (\<lambda>cx.
            and_then (get_template_path cat n) (\<lambda>template.
            and_then (create_email cat [r] [Some reply_to] (cx\<lparr>include_patron_address := True\<rparr>) template [] [] 0
                        (map fst batch)) (\<lambda>m.
              Inr (Some (m, [(To, r)])))))
        | _ \<Rightarrow> Inr None)))"

definition send_notification_by_email ::
  "catalogue \<Rightarrow> (string \<times> notice) list \<Rightarrow> py_error + (mail \<times> (recipient_type \<times> string) list) option" where
  "send_notification_by_email cat batch =
     (let n = snd (hd batch) in
      and_then (get_recipients cat n Reply_to) (\<lambda>reply_to.
      and_then (get_recipients cat n To) (\<lambda>recipients.
      and_then (get_recipients cat n Cc) (\<lambda>cc.
      and_then (get_recipients cat n Bcc) (\<lambda>bcc.
        if recipients = [] \<or> reply_to = [] then Inr None
        else
          let addresses = List.map_filter id recipients in
          and_then (get_notification_context cat (map snd batch)) (\<lambda>cx.
          and_then (get_template_path cat n) (\<lambda>template.
          and_then (create_email cat addresses reply_to cx template (List.map_filter id cc) (List.map_filter id bcc)
                      (delay cx) (map fst batch)) (\<lambda>m.
            Inr (Some (m, map (Pair To) addresses))))))))))"

text \<open>\<open>get_dispatcher_function\<close>, and the call: a channel without a function has \<open>not_yet_implemented\<close>,
  whose result \<open>True\<close> cannot be unpacked.\<close>

definition call_dispatcher ::
  "catalogue \<Rightarrow> channel option \<Rightarrow> (string \<times> notice) list
     \<Rightarrow> py_error + (mail \<times> (recipient_type \<times> string) list) option" where
  "call_dispatcher cat ch batch =
     (case ch of
        Some Email \<Rightarrow> send_notification_by_email cat batch
      | Some Mail \<Rightarrow> send_mail_for_printing cat batch
      | _ \<Rightarrow> Inl TypeError)"

section \<open>Updates of a notification\<close>

definition store_notice :: "catalogue \<Rightarrow> string \<Rightarrow> notice \<Rightarrow> office \<Rightarrow> unit outcome_of" where
  "store_notice cat pid n s =
     (case validate_notice cat n of
        Inl e \<Rightarrow> (s, Inl e)
      | Inr _ \<Rightarrow> (s\<lparr>notices := dict_set pid n (notices s)\<rparr>, Inr ()))"

definition update_notice :: "catalogue \<Rightarrow> string \<Rightarrow> (notice \<Rightarrow> notice) \<Rightarrow> office \<Rightarrow> unit outcome_of" where
  "update_notice cat pid f s =
     (case dict_get (notices s) pid of
        None \<Rightarrow> (s, Inl AttributeError)
      | Some n \<Rightarrow> store_notice cat pid (f n) s)"

definition processed_at :: "stamp \<Rightarrow> bool \<Rightarrow> notice_status \<Rightarrow> notice \<Rightarrow> notice" where
  "processed_at moment sent status n =
     n\<lparr>process_date := Some moment, notification_sent := Some sent, nt_status := Some status\<rparr>"

definition update_process_date ::
  "catalogue \<Rightarrow> stamp \<Rightarrow> bool \<Rightarrow> notice_status \<Rightarrow> string \<Rightarrow> office \<Rightarrow> unit outcome_of" where
  "update_process_date cat moment sent status pid s = update_notice cat pid (processed_at moment sent status) s"

definition update_effective_recipients ::
  "catalogue \<Rightarrow> (recipient_type \<times> string) list \<Rightarrow> string \<Rightarrow> office \<Rightarrow> unit outcome_of" where
  "update_effective_recipients cat rs pid s =
     update_notice cat pid (\<lambda>n. n\<lparr>effective_recipients := effective_recipients n @ rs\<rparr>) s"

section \<open>Dispatching\<close>

type_synonym batches = "(string, string list) dict"

definition add_to_batch :: "string \<Rightarrow> string \<Rightarrow> batches \<Rightarrow> batches" where
  "add_to_batch key pid bs =
     dict_set key ((case dict_get bs key of None \<Rightarrow> [] | Some ps \<Rightarrow> ps) @ [pid]) bs"

definition process_notification ::
  "catalogue \<Rightarrow> stamp \<Rightarrow> bool \<Rightarrow> string \<Rightarrow> notice \<Rightarrow> batches \<Rightarrow> office \<Rightarrow> batches outcome_of" where
  "process_notification cat moment resend pid n bs s =
     (if process_date n \<noteq> None \<and> \<not> resend then (s, Inr bs)
      else case can_be_cancelled cat (notices s) pid n of
          Inl e \<Rightarrow> (s, Inl e)
        | Inr (Some why) \<Rightarrow>
            then_do (update_process_date cat moment False Cancelled_notice pid s) (\<lambda>_ s'. (s', Inr bs))
        | Inr None \<Rightarrow>
            (case aggregation_key cat pid n of
               Inl e \<Rightarrow> (s, Inl e)
             | Inr key \<Rightarrow> (s, Inr (add_to_batch key pid bs))))"

text \<open>The first loop: an exception is counted, and the loop goes on.\<close>

fun process_all ::
  "catalogue \<Rightarrow> stamp \<Rightarrow> bool \<Rightarrow> (string \<times> notice) list \<Rightarrow> batches \<Rightarrow> nat \<Rightarrow> office \<Rightarrow> office \<times> batches \<times> nat" where
  "process_all cat moment resend [] bs errors s = (s, bs, errors)"
| "process_all cat moment resend ((pid, n) # rest) bs errors s =
     (case process_notification cat moment resend pid n bs s of
        (s', Inl e) \<Rightarrow> process_all cat moment resend rest bs (Suc errors) s'
      | (s', Inr bs') \<Rightarrow> process_all cat moment resend rest bs' errors s')"

fun for_all :: "(string \<Rightarrow> office \<Rightarrow> unit outcome_of) \<Rightarrow> string list \<Rightarrow> office \<Rightarrow> unit outcome_of" where
  "for_all f [] s = (s, Inr ())"
| "for_all f (p # ps) s = then_do (f p s) (\<lambda>_. for_all f ps)"

text \<open>One turn of the second loop, whose exceptions end the dispatch. The result is whether the batch was
  sent.\<close>

definition load :: "office \<Rightarrow> string list \<Rightarrow> (string \<times> notice) list" where
  "load s pids = List.map_filter (\<lambda>p. map_option (Pair p) (dict_get (notices s) p)) pids"

definition send_batch :: "catalogue \<Rightarrow> stamp \<Rightarrow> string list \<Rightarrow> office \<Rightarrow> bool outcome_of" where
  "send_batch cat moment pids s =
     (let batch = load s pids in
      case and_then (get_communication_channel cat (snd (hd batch))) (\<lambda>ch. call_dispatcher cat ch batch) of
        Inl e \<Rightarrow> (s, Inl e)
      | Inr None \<Rightarrow>
          then_do (for_all (update_process_date cat moment False Done) pids s) (\<lambda>_ s'. (s', Inr False))
      | Inr (Some (m, recipients)) \<Rightarrow>
          then_do (for_all (update_process_date cat moment True Done) pids (s\<lparr>outbox := outbox s @ [m]\<rparr>)) (\<lambda>_ s1.
          then_do (for_all (update_effective_recipients cat recipients) pids s1) (\<lambda>_ s2. (s2, Inr True))))"

record counts =
  cn_processed :: nat
  cn_sent :: nat
  cn_not_sent :: nat
  cn_errors :: nat

fun send_all :: "catalogue \<Rightarrow> stamp \<Rightarrow> string list list \<Rightarrow> nat \<Rightarrow> nat \<Rightarrow> office \<Rightarrow> (nat \<times> nat) outcome_of" where
  "send_all cat moment [] sent not_sent s = (s, Inr (sent, not_sent))"
| "send_all cat moment (pids # rest) sent not_sent s =
     then_do (send_batch cat moment pids s) (\<lambda>result s'.
       if result then send_all cat moment rest (sent + length pids) not_sent s'
       else send_all cat moment rest sent (not_sent + length pids) s')"

definition dispatch_notifications ::
  "catalogue \<Rightarrow> stamp \<Rightarrow> bool \<Rightarrow> string list \<Rightarrow> office \<Rightarrow> counts outcome_of" where
  "dispatch_notifications cat moment resend pids s =
     (let loaded = load s pids;
          (s1, bs, errors) = process_all cat moment resend loaded [] 0 s in
      then_do (send_all cat moment (map snd bs) 0 0 s1) (\<lambda>(sent, not_sent) s2.
        (s2, Inr \<lparr>cn_processed = length loaded, cn_sent = sent, cn_not_sent = not_sent, cn_errors = errors\<rparr>)))"

section \<open>Creation\<close>

text \<open>\<open>calculate_notification_amount\<close>, in cents. The policy is that of the transaction location, and of the
  category of the holding.\<close>

definition calculate_notification_amount :: "catalogue \<Rightarrow> notice \<Rightarrow> py_error + int" where
  "calculate_notification_amount cat n =
     (if nt_type n \<notin> {DUE_SOON, OVERDUE} then Inr 0
      else
        and_then (notice_transaction_location cat n) (\<lambda>t.
        and_then (need t) (\<lambda>loc.
        and_then (notice_patron cat n) (\<lambda>p.
        and_then (the_item cat n) (\<lambda>i.
        and_then (need (provide_circ_policy (policy_index cat) (lc_organisation loc) (lc_library loc) (pc_type p)
                          (it_holding_type i))) (\<lambda>c.
          Inr (case get_reminder c (reminder_type_of (nt_type n)) (reminder_rank n) of
                 None \<Rightarrow> 0
               | Some r \<Rightarrow> (case r_fee r of None \<Rightarrow> 0 | Some k \<Rightarrow> k))))))))"

definition charge_notice ::
  "catalogue \<Rightarrow> directory \<Rightarrow> stamp \<Rightarrow> string \<Rightarrow> notice \<Rightarrow> office \<Rightarrow> unit outcome_of" where
  "charge_notice cat dir moment pid n s =
     (case calculate_notification_amount cat n of
        Inl e \<Rightarrow> (s, Inl e)
      | Inr amount \<Rightarrow>
          if amount \<le> 0 then (s, Inr ())
          else
            case and_then (notice_loan cat n) (\<lambda>l.
                 and_then (notice_transaction_location cat n) (\<lambda>t.
                 and_then (need t) (\<lambda>loc.
                   create_patron_transaction_from_notification
                     (dir\<lparr>knows_notification := (\<lambda>q. dict_get (notices s) q \<noteq> None)\<rparr>)
                     (instant moment) pid l (lc_organisation loc) amount (ledger_of s)))) of
              Inl e \<Rightarrow> (s, Inl e)
            | Inr (_, ledger') \<Rightarrow> (s\<lparr>ledger_of := ledger'\<rparr>, Inr ()))"

definition log_notice :: "catalogue \<Rightarrow> string \<Rightarrow> notice \<Rightarrow> office \<Rightarrow> unit outcome_of" where
  "log_notice cat pid n s =
     (if \<not> is_circulation (class_of n) then (s, Inr ())
      else case get_recipients_to cat n of
          Inl e \<Rightarrow> (s, Inl e)
        | Inr rs \<Rightarrow> (s\<lparr>op_log := op_log s @ [(pid, if rs = [] then [''no-recipient-email''] else rs)]\<rparr>, Inr ()))"

definition create_notice ::
  "catalogue \<Rightarrow> directory \<Rightarrow> notification_type list \<Rightarrow> stamp \<Rightarrow> notice \<Rightarrow> office \<Rightarrow> string option outcome_of" where
  "create_notice cat dir disabled moment data s =
     (if nt_type data \<in> set disabled then (s, Inr None)
      else
        let pid = digits (Suc (notice_serial s));
            n = (if nt_status data = None then data\<lparr>nt_status := Some Created\<rparr> else data) in
        then_do (store_notice cat pid n s) (\<lambda>_ s1.
        let s2 = s1\<lparr>notice_serial := Suc (notice_serial s1)\<rparr> in
        then_do (charge_notice cat dir moment pid n s2) (\<lambda>_ s3.
        then_do (log_notice cat pid n s3) (\<lambda>_ s4. (s4, Inr (Some pid))))))"

text \<open>The document that \<open>Loan.create_notification\<close> writes for a loan.\<close>

definition loan_notice :: "stamp \<Rightarrow> notification_type \<Rightarrow> string \<Rightarrow> nat option \<Rightarrow> notice" where
  "loan_notice moment ty l counter =
     \<lparr>nt_type = ty, nt_status = None, nt_created = moment, process_date = None, notification_sent = None,
      effective_recipients = [], nt_loan = Some l, nt_order = None, nt_item = None, nt_counter = counter,
      nt_recipients = []\<rparr>"

text \<open>Whether a candidate is created, and with which counter: a reminder only once, and only if the policy has
  it.\<close>

definition wanted_notice ::
  "catalogue \<Rightarrow> notices \<Rightarrow> nat \<Rightarrow> loan \<Rightarrow> notification_type \<Rightarrow> py_error + nat option option" where
  "wanted_notice cat ns counter l ty =
     (if ty \<in> set REMINDERS_NOTIFICATIONS then
        and_then (is_notified ns l ty counter) (\<lambda>b.
          if b then Inr None
          else and_then (get_circ_policy cat l) (\<lambda>policy. and_then (need policy) (\<lambda>c.
            Inr (if get_reminder c (reminder_type_of ty) counter \<noteq> None then Some (Some counter) else None))))
      else Inr (Some None))"

definition create_notification_resource ::
  "catalogue \<Rightarrow> directory \<Rightarrow> notification_type list \<Rightarrow> stamp \<Rightarrow> notice \<Rightarrow> bool \<Rightarrow> office \<Rightarrow> string option outcome_of" where
  "create_notification_resource cat dir disabled moment data dispatch s =
     then_do (create_notice cat dir disabled moment data s) (\<lambda>created s1.
       case created of
         None \<Rightarrow> (s1, Inr None)
       | Some pid \<Rightarrow>
           if dispatch then then_do (dispatch_notifications cat moment False [pid] s1) (\<lambda>_ s2. (s2, Inr (Some pid)))
           else (s1, Inr (Some pid)))"

fun create_candidates ::
  "catalogue \<Rightarrow> directory \<Rightarrow> notification_type list \<Rightarrow> stamp \<Rightarrow> nat \<Rightarrow> (loan \<times> notification_type) list \<Rightarrow> office
     \<Rightarrow> string list outcome_of" where
  "create_candidates cat dir disabled moment counter [] s = (s, Inr [])"
| "create_candidates cat dir disabled moment counter ((l, ty) # rest) s =
     then_do (case wanted_notice cat (notices s) counter l ty of
                Inl e \<Rightarrow> (s, Inl e)
              | Inr None \<Rightarrow> (s, Inr None)
              | Inr (Some k) \<Rightarrow>
                  create_notification_resource cat dir disabled moment (loan_notice moment ty (l_pid l) k)
                    (ty \<in> set INTERNAL_NOTIFICATIONS) s) (\<lambda>created s1.
     then_do (create_candidates cat dir disabled moment counter rest s1) (\<lambda>pids s2.
       (s2, Inr (option_list created @ pids))))"

text \<open>\<open>Loan.create_notification\<close>: of the type asked for, or of the candidates of the loan.\<close>

definition candidate_loans ::
  "catalogue \<Rightarrow> loan \<Rightarrow> (string \<times> notification_type) list \<Rightarrow> (loan \<times> notification_type) list" where
  "candidate_loans cat l xs =
     List.map_filter (\<lambda>(p, ty). map_option (\<lambda>co. (co, ty)) (if p = l_pid l then Some l else loan_of cat p)) xs"

definition candidates_of :: "catalogue \<Rightarrow> notices \<Rightarrow> string option \<Rightarrow> loan \<Rightarrow> py_error + (loan \<times> notification_type) list" where
  "candidates_of cat ns trg l =
     and_then (need (item_of cat (l_item l))) (\<lambda>i.
       let ls = loans_of_item cat (l_item l) in
       Inr (candidate_loans cat l
              (get_notification_candidates
                (\<lambda>p ty. case loan_of cat p of None \<Rightarrow> False | Some co \<Rightarrow> about_loan ns co ty \<noteq> [])
                (map l_pid (get_requests ls)) (get_first_loan_by_state ITEM_ON_LOAN ls)
                (it_negative_availability i) trg l)))"

definition create_notification ::
  "catalogue \<Rightarrow> directory \<Rightarrow> notification_type list \<Rightarrow> stamp \<Rightarrow> string option \<Rightarrow> notification_type option \<Rightarrow> nat
     \<Rightarrow> loan \<Rightarrow> office \<Rightarrow> string list outcome_of" where
  "create_notification cat dir disabled moment trg ty counter l s =
     (case ty of
        Some t \<Rightarrow> create_candidates cat dir disabled moment counter [(l, t)] s
      | None \<Rightarrow>
          (case candidates_of cat (notices s) trg l of
             Inl e \<Rightarrow> (s, Inl e)
           | Inr cs \<Rightarrow> create_candidates cat dir disabled moment counter cs s))"

section \<open>Tasks\<close>

definition process_notifications :: "catalogue \<Rightarrow> stamp \<Rightarrow> notification_type \<Rightarrow> office \<Rightarrow> counts outcome_of" where
  "process_notifications cat moment ty s =
     dispatch_notifications cat moment False (get_notifications (notices s) ty False False) s"

text \<open>\<open>get_due_soon_loans\<close> and \<open>get_overdue_loans\<close>, over the loans in the order of their creation.\<close>

definition get_due_soon_loans :: "stamp \<Rightarrow> loan list \<Rightarrow> loan list" where
  "get_due_soon_loans date ls = filter (\<lambda>l. l_state l = Some ITEM_ON_LOAN \<and> is_loan_due_soon date l) ls"

definition get_overdue_loans :: "string option \<Rightarrow> stamp \<Rightarrow> loan list \<Rightarrow> loan list" where
  "get_overdue_loans patron date ls =
     filter (\<lambda>l. l_state l = Some ITEM_ON_LOAN
       \<and> (case end_date l of None \<Rightarrow> False | Some d \<Rightarrow> \<not> earlier date d)
       \<and> (case patron of None \<Rightarrow> True | Some p \<Rightarrow> l_patron l = p)) ls"

text \<open>An exception of \<open>create_notification\<close> is logged, and the loop goes on with the state it left.\<close>

fun create_each ::
  "(nat \<Rightarrow> loan \<Rightarrow> office \<Rightarrow> string list outcome_of) \<Rightarrow> (nat \<times> loan) list \<Rightarrow> nat \<Rightarrow> office \<Rightarrow> office \<times> nat" where
  "create_each create [] k s = (s, k)"
| "create_each create ((idx, l) # rest) k s =
     (case create idx l s of
        (s', Inl e) \<Rightarrow> create_each create rest k s'
      | (s', Inr pids) \<Rightarrow> create_each create rest (k + length pids) s')"

text \<open>The reminders of an overdue loan, whose number depends on the open days since the due date.\<close>

fun create_overdue ::
  "catalogue \<Rightarrow> (loan \<Rightarrow> py_error + int) \<Rightarrow> (nat \<Rightarrow> loan \<Rightarrow> office \<Rightarrow> string list outcome_of) \<Rightarrow> loan list \<Rightarrow> nat
     \<Rightarrow> office \<Rightarrow> nat outcome_of" where
  "create_overdue cat open_days create [] k s = (s, Inr k)"
| "create_overdue cat open_days create (l # ls) k s =
     (case and_then (open_days l) (\<lambda>days. and_then (get_circ_policy cat l) (\<lambda>policy.
             and_then (need policy) (\<lambda>c. Inr (get_reminders c Overdue (Some days))))) of
        Inl e \<Rightarrow> (s, Inl e)
      | Inr rs \<Rightarrow>
          (let (s', k') = create_each create (map (\<lambda>idx. (idx, l)) [0..<length rs]) k s
           in create_overdue cat open_days create ls k' s'))"

text \<open>\<open>create_notifications\<close>: the numbers of notifications created for the two types.\<close>

definition create_notifications ::
  "catalogue \<Rightarrow> directory \<Rightarrow> notification_type list \<Rightarrow> stamp \<Rightarrow> (loan \<Rightarrow> py_error + int) \<Rightarrow> notification_type list
     \<Rightarrow> stamp \<Rightarrow> loan list \<Rightarrow> office \<Rightarrow> (nat \<times> nat) outcome_of" where
  "create_notifications cat dir disabled moment open_days types tstamp all_loans s =
     (let create = (\<lambda>ty idx l. create_notification cat dir disabled moment None (Some ty) idx l) in
      then_do (if DUE_SOON \<in> set types then
                 (let (s1, k) = create_each (create DUE_SOON)
                                  (map (Pair 0) (get_due_soon_loans tstamp all_loans)) 0 s in
                  then_do (process_notifications cat moment DUE_SOON s1) (\<lambda>_ s2. (s2, Inr k)))
               else (s, Inr 0)) (\<lambda>due_soon s3.
      then_do (if OVERDUE \<in> set types then
                 then_do (create_overdue cat open_days (create OVERDUE) (get_overdue_loans None tstamp all_loans) 0 s3)
                   (\<lambda>k s4. then_do (process_notifications cat moment OVERDUE s4) (\<lambda>_ s5. (s5, Inr k)))
               else (s3, Inr 0)) (\<lambda>overdue_count s6. (s6, Inr (due_soon, overdue_count)))))"

end
