(* ===== verification/DispatchLemmas.thy ===== *)
theory DispatchLemmas
  imports Dispatch
begin

text \<open>
  What a dispatch does to each notification. \<open>fate\<close> says, from the state at the start alone, what the first
  loop decides about a notification; the lemmas show that the loops carry it out: the first one counts,
  cancels and groups, the second one sends each batch once and marks its notifications.
\<close>

section \<open>What the decisions read of the other notifications\<close>

definition core :: "notice \<Rightarrow> notification_type \<times> stamp \<times> string option \<times> nat option" where
  "core n = (nt_type n, nt_created n, nt_loan n, nt_counter n)"

definition core_of :: "notices \<Rightarrow> (string \<times> notification_type \<times> stamp \<times> string option \<times> nat option) list" where
  "core_of ns = map (\<lambda>(p, n). (p, core n)) ns"

definition core_about :: "loan \<Rightarrow> notification_type \<Rightarrow> string \<times> notification_type \<times> stamp \<times> string option \<times> nat option \<Rightarrow> bool" where
  "core_about l ty = (\<lambda>(p, ty', d, lo, k). lo = Some (l_pid l) \<and> ty' = ty
     \<and> (case transaction_date l of None \<Rightarrow> False | Some e \<Rightarrow> earlier e d))"

lemma core_of_about: "core_of (about_loan ns l ty) = filter (core_about l ty) (core_of ns)"
  by (induction ns) (auto simp: core_of_def about_loan_def core_def core_about_def)

lemma core_of_Nil [simp]: "core_of ns = [] \<longleftrightarrow> ns = []"
  by (simp add: core_of_def)

lemma about_loan_empty: "core_of ns = core_of ns' \<Longrightarrow> about_loan ns l ty = [] \<longleftrightarrow> about_loan ns' l ty = []"
  using core_of_about [of ns l ty] core_of_about [of ns' l ty] core_of_Nil by metis

lemma similar_core:
  "(\<exists>(q, m) \<in> set ns. nt_counter m = k \<and> q \<noteq> pid) \<longleftrightarrow> (\<exists>(q, ty, d, l, k') \<in> set (core_of ns). k' = k \<and> q \<noteq> pid)"
  by (force simp: core_of_def core_def)

lemma exists_similar_core:
  "core_of ns = core_of ns' \<Longrightarrow> exists_similar_notification ns pid l n = exists_similar_notification ns' pid l n"
  unfolding exists_similar_notification_def similar_core by (simp add: core_of_about)

lemma candidate_types_core: "core_of ns = core_of ns' \<Longrightarrow> candidate_types cat ns l = candidate_types cat ns' l"
  using about_loan_empty [of ns ns'] unfolding candidate_types_def by (simp cong: option.case_cong)

lemma can_be_cancelled_core:
  assumes "core_of ns = core_of ns'"
  shows "can_be_cancelled cat ns pid n = can_be_cancelled cat ns' pid n"
proof -
  have "candidate_types cat ns = candidate_types cat ns'"
    "exists_similar_notification ns = exists_similar_notification ns'"
    using candidate_types_core [OF assms] exists_similar_core [OF assms] by blast+
  then show ?thesis
    unfolding can_be_cancelled_def internal_cancelled_def at_desk_cancelled_def reminder_cancelled_def
    by (simp cong del: notice_class.case_cong_weak option.case_cong_weak if_weak_cong)
qed

lemma dict_get_Cons: "dict_get ((k, v) # d) k' = (if k' = k then Some v else dict_get d k')"
  by (simp add: dict_get_def)

lemma core_of_set: "dict_get ns p = Some n \<Longrightarrow> core n' = core n \<Longrightarrow> core_of (dict_set p n' ns) = core_of ns"
  by (induction ns) (auto simp: core_of_def dict_set_def dict_get_Cons split: if_splits)

lemma core_processed [simp]: "core (processed_at moment b st n) = core n"
  by (simp add: core_def processed_at_def)

section \<open>The fate of a notification\<close>

datatype fate = Skipped | Failed | To_cancel | Batched string

definition fate :: "catalogue \<Rightarrow> notices \<Rightarrow> bool \<Rightarrow> string \<Rightarrow> notice \<Rightarrow> fate" where
  "fate cat ns resend pid n =
     (if process_date n \<noteq> None \<and> \<not> resend then Skipped
      else case can_be_cancelled cat ns pid n of
          Inl e \<Rightarrow> Failed
        | Inr (Some why) \<Rightarrow> (case validate_notice cat n of Inl e \<Rightarrow> Failed | Inr _ \<Rightarrow> To_cancel)
        | Inr None \<Rightarrow> (case aggregation_key cat pid n of Inl e \<Rightarrow> Failed | Inr key \<Rightarrow> Batched key))"

lemma fate_core: "core_of ns = core_of ns' \<Longrightarrow> fate cat ns resend pid n = fate cat ns' resend pid n"
  by (simp add: fate_def can_be_cancelled_core [of ns ns'])

text \<open>The validation does not look at what the dispatcher writes.\<close>

lemma validate_cong:
  assumes "nt_type m = nt_type n" "nt_loan m = nt_loan n" "nt_order m = nt_order n" "nt_item m = nt_item n"
    "nt_recipients m = nt_recipients n"
  shows "validate_notice cat m = validate_notice cat n"
proof -
  have "required_recipients m = required_recipients n" "loan_pid m = loan_pid n"
    using assms by (simp_all add: required_recipients_def loan_pid_def)
  moreover from this have "notice_item cat m = notice_item cat n"
    using assms by (simp add: notice_item_def notice_item_pid_def notice_loan_def)
  ultimately have "notice_validation cat m = notice_validation cat n"
    using assms(1,3)
    unfolding notice_validation_def order_validation_def claim_validation_def circulation_validation_def
    by (simp cong del: notice_class.case_cong_weak option.case_cong_weak if_weak_cong)
  then show ?thesis by (simp add: validate_notice_def)
qed

lemma validate_processed [simp]: "validate_notice cat (processed_at moment b st n) = validate_notice cat n"
  by (rule validate_cong) (simp_all add: processed_at_def)

lemma validate_recipients [simp]: "validate_notice cat (n\<lparr>effective_recipients := rs\<rparr>) = validate_notice cat n"
  by (rule validate_cong) simp_all

definition cancel_in :: "stamp \<Rightarrow> string \<Rightarrow> notice \<Rightarrow> office \<Rightarrow> office" where
  "cancel_in moment pid n s =
     s\<lparr>notices := dict_set pid (processed_at moment False Cancelled_notice n) (notices s)\<rparr>"

lemma process_all_Cons:
  assumes "dict_get (notices s) p = Some n"
  shows "process_all cat moment resend ((p, n) # rest) bs k s =
    (case fate cat (notices s) resend p n of
       Skipped \<Rightarrow> process_all cat moment resend rest bs k s
     | Failed \<Rightarrow> process_all cat moment resend rest bs (Suc k) s
     | To_cancel \<Rightarrow> process_all cat moment resend rest bs k (cancel_in moment p n s)
     | Batched key \<Rightarrow> process_all cat moment resend rest (add_to_batch key p bs) k s)"
  using assms
  by (auto simp: process_notification_def fate_def update_process_date_def update_notice_def store_notice_def
      cancel_in_def split: sum.splits option.splits)

section \<open>Batches\<close>

definition batches_ok :: "(string \<times> string) list \<Rightarrow> batches \<Rightarrow> bool" where
  "batches_ok kps bs \<longleftrightarrow>
     distinct (map fst bs) \<and> mset (concat (map snd bs)) = mset (map snd kps)
     \<and> (\<forall>(k, ps) \<in> set bs. ps \<noteq> [] \<and> (\<forall>p \<in> set ps. (k, p) \<in> set kps))"

lemma mset_add_to_batch:
  "distinct (map fst bs) \<Longrightarrow> mset (concat (map snd (add_to_batch k p bs))) = add_mset p (mset (concat (map snd bs)))"
proof (induction bs)
  case Nil
  then show ?case by (simp add: add_to_batch_def dict_set_def)
next
  case (Cons b bs)
  obtain k' ps where b: "b = (k', ps)" by fastforce
  show ?case
  proof (cases "k' = k")
    case True
    then show ?thesis by (simp add: b add_to_batch_def dict_set_def dict_get_Cons)
  next
    case False
    then have "add_to_batch k p (b # bs) = b # add_to_batch k p bs"
      by (simp add: b add_to_batch_def dict_set_def dict_get_Cons)
    then show ?thesis using Cons by simp
  qed
qed

lemma in_add_to_batch:
  assumes "(k', ps) \<in> set (add_to_batch k p bs)" "distinct (map fst bs)"
  shows "(k', ps) \<in> set bs \<or> k' = k \<and> (ps = [p] \<or> (\<exists>qs. (k, qs) \<in> set bs \<and> ps = qs @ [p]))"
proof -
  have d: "distinct (map fst (add_to_batch k p bs))"
    using assms(2) by (simp add: add_to_batch_def dict_set_def distinct_update)
  have "dict_get (add_to_batch k p bs) k' = Some ps"
    unfolding dict_get_def by (rule map_of_is_SomeI [OF d assms(1)])
  then show ?thesis
    by (auto simp: add_to_batch_def dict_get_def split: if_splits option.splits dest: map_of_SomeD)
      (auto simp: dict_get_def dict_set_def update_conv' split: if_splits dest: map_of_SomeD)
qed

lemma batches_ok_Nil [simp]: "batches_ok [] []"
  by (simp add: batches_ok_def)

lemma batches_ok_add:
  assumes "batches_ok kps bs"
  shows "batches_ok (kps @ [(k, p)]) (add_to_batch k p bs)"
proof -
  from assms have d: "distinct (map fst bs)" and m: "mset (concat (map snd bs)) = mset (map snd kps)"
    and b: "\<And>k ps. (k, ps) \<in> set bs \<Longrightarrow> ps \<noteq> [] \<and> (\<forall>p \<in> set ps. (k, p) \<in> set kps)"
    unfolding batches_ok_def by auto
  have "distinct (map fst (add_to_batch k p bs))"
    using d by (simp add: add_to_batch_def dict_set_def distinct_update)
  moreover have "ps \<noteq> [] \<and> (\<forall>q \<in> set ps. (k', q) \<in> set (kps @ [(k, p)]))"
    if "(k', ps) \<in> set (add_to_batch k p bs)" for k' ps
    using in_add_to_batch [OF that d] b by fastforce
  ultimately show ?thesis
    unfolding batches_ok_def using m mset_add_to_batch [OF d, of k p] by auto
qed

section \<open>The first loop\<close>

definition batched :: "(string \<Rightarrow> notice \<Rightarrow> fate) \<Rightarrow> (string \<times> notice) list \<Rightarrow> (string \<times> string) list" where
  "batched f xs = List.map_filter (\<lambda>(p, n). case f p n of Batched k \<Rightarrow> Some (k, p) | _ \<Rightarrow> None) xs"

lemma batched_simps [simp]:
  "batched f [] = []"
  "batched f ((p, n) # xs) = (case f p n of Batched k \<Rightarrow> (k, p) # batched f xs | _ \<Rightarrow> batched f xs)"
  by (simp_all add: batched_def map_filter_simps split: fate.splits)

lemma in_batched: "(k, p) \<in> set (batched f xs) \<longleftrightarrow> (\<exists>n. (p, n) \<in> set xs \<and> f p n = Batched k)"
  by (induction xs) (auto split: fate.splits)

lemma batched_distinct: "distinct (map fst xs) \<Longrightarrow> distinct (map snd (batched f xs))"
proof (induction xs)
  case (Cons x xs)
  moreover have "p \<notin> snd ` set (batched f xs)" if "p \<notin> fst ` set xs" for p
    using that by (force simp: in_batched)
  ultimately show ?case by (cases x) (auto split: fate.splits)
qed simp

definition with_fate :: "(string \<Rightarrow> notice \<Rightarrow> fate) \<Rightarrow> fate \<Rightarrow> (string \<times> notice) list \<Rightarrow> (string \<times> notice) list" where
  "with_fate f x xs = filter (\<lambda>(p, n). f p n = x) xs"

text \<open>The same change to several notifications.\<close>

definition marked :: "(notice \<Rightarrow> notice) \<Rightarrow> string set \<Rightarrow> notices \<Rightarrow> notices \<Rightarrow> bool" where
  "marked g ps ns ns' \<longleftrightarrow>
     core_of ns' = core_of ns
     \<and> (\<forall>q. dict_get ns' q = (if q \<in> ps then map_option g (dict_get ns q) else dict_get ns q))"

lemma marked_refl [simp]: "marked g {} ns ns"
  by (simp add: marked_def)

lemma marked_Cons:
  assumes "dict_get ns p = Some n" "core (g n) = core n" "p \<notin> ps" "marked g ps (dict_set p (g n) ns) ns'"
  shows "marked g (insert p ps) ns ns'"
  using assms core_of_set [of ns p n "g n"] by (auto simp: marked_def)

lemma process_all_result:
  assumes "process_all cat moment resend xs bs k s = (s', bs', k')" "distinct (map fst xs)"
    and "\<And>p n. (p, n) \<in> set xs \<Longrightarrow> dict_get (notices s) p = Some n"
    and "core_of (notices s) = core_of ns" "batches_ok kps bs"
  shows "marked (processed_at moment False Cancelled_notice)
           (fst ` set (with_fate (fate cat ns resend) To_cancel xs)) (notices s) (notices s')
    \<and> outbox s' = outbox s
    \<and> batches_ok (kps @ batched (fate cat ns resend) xs) bs'
    \<and> k' = k + length (with_fate (fate cat ns resend) Failed xs)"
  using assms
proof (induction xs arbitrary: s bs k kps)
  case Nil
  then show ?case by (simp add: with_fate_def)
next
  case (Cons x xs)
  obtain p n where x: "x = (p, n)" by fastforce
  let ?f = "fate cat ns resend"
  from Cons.prems(3) x have n: "dict_get (notices s) p = Some n" by simp
  have rest: "\<And>q m. (q, m) \<in> set xs \<Longrightarrow> dict_get (notices s) q = Some m" using Cons.prems(3) by simp
  have d: "distinct (map fst xs)" "p \<notin> fst ` set xs" using Cons.prems(2) x by simp_all
  have f: "fate cat (notices s) resend p n = ?f p n" by (rule fate_core) (rule Cons.prems(4))
  note step = Cons.prems(1) [unfolded x process_all_Cons [OF n] f]
  show ?case
  proof (cases "?f p n")
    case Skipped
    with step have "process_all cat moment resend xs bs k s = (s', bs', k')" by simp
    from Cons.IH [OF this d(1) rest Cons.prems(4,5)] show ?thesis by (simp add: x Skipped with_fate_def)
  next
    case Failed
    with step have "process_all cat moment resend xs bs (Suc k) s = (s', bs', k')" by simp
    from Cons.IH [OF this d(1) rest Cons.prems(4,5)] show ?thesis by (simp add: x Failed with_fate_def)
  next
    case To_cancel
    let ?n' = "processed_at moment False Cancelled_notice n"
    have c: "core_of (notices (cancel_in moment p n s)) = core_of ns"
      using Cons.prems(4) core_of_set [OF n, of ?n'] by (simp add: cancel_in_def)
    have r: "\<And>q m. (q, m) \<in> set xs \<Longrightarrow> dict_get (notices (cancel_in moment p n s)) q = Some m"
      using rest d(2) by (force simp: cancel_in_def)
    from step To_cancel have "process_all cat moment resend xs bs k (cancel_in moment p n s) = (s', bs', k')" by simp
    note ih = Cons.IH [OF this d(1) r c Cons.prems(5)]
    have "p \<notin> fst ` set (with_fate ?f To_cancel xs)" using d(2) by (auto simp: with_fate_def)
    from marked_Cons [where g = "processed_at moment False Cancelled_notice", OF n core_processed this] ih show ?thesis
      by (simp add: x To_cancel with_fate_def cancel_in_def)
  next
    case (Batched key)
    with step have "process_all cat moment resend xs (add_to_batch key p bs) k s = (s', bs', k')" by simp
    from Cons.IH [OF this d(1) rest Cons.prems(4) batches_ok_add [OF Cons.prems(5)]]
    show ?thesis by (simp add: x Batched with_fate_def)
  qed
qed

section \<open>The second loop\<close>

lemma for_all_update:
  assumes "for_all (\<lambda>p. update_notice cat p g) pids s = (s', Inr ())" "distinct pids" "\<And>n. core (g n) = core n"
  shows "marked g (set pids) (notices s) (notices s') \<and> outbox s' = outbox s"
  using assms(1,2)
proof (induction pids arbitrary: s)
  case Nil
  then show ?case by simp
next
  case (Cons p ps)
  from Cons.prems(1) obtain s1 where s1: "update_notice cat p g s = (s1, Inr ())"
    "for_all (\<lambda>p. update_notice cat p g) ps s1 = (s', Inr ())" by (auto simp: then_do_Inr)
  from s1(1) obtain n where n: "dict_get (notices s) p = Some n" "s1 = s\<lparr>notices := dict_set p (g n) (notices s)\<rparr>"
    by (auto simp: update_notice_def store_notice_def split: option.splits sum.splits)
  have "p \<notin> set ps" using Cons.prems(2) by simp
  from marked_Cons [where g = g, OF n(1) assms(3) this] Cons.IH [OF s1(2)] Cons.prems(2) n(2)
  show ?case by simp
qed

lemma update_process_date_eq:
  "update_process_date cat moment b st = (\<lambda>p. update_notice cat p (processed_at moment b st))"
  by (intro ext) (simp add: update_process_date_def)

lemma update_recipients_eq:
  "update_effective_recipients cat rs = (\<lambda>p. update_notice cat p (\<lambda>n. n\<lparr>effective_recipients := effective_recipients n @ rs\<rparr>))"
  by (intro ext) (simp add: update_effective_recipients_def)

definition done_at :: "stamp \<Rightarrow> bool \<Rightarrow> notice \<Rightarrow> bool" where
  "done_at moment b n \<longleftrightarrow> nt_status n = Some Done \<and> process_date n = Some moment \<and> notification_sent n = Some b"

lemma create_email_notices: "create_email cat to rt cx t cc bcc d ps = Inr m \<Longrightarrow> m_notices m = ps \<and> m_to m = to"
  by (auto simp: create_email_def Let_def split: if_splits)

lemma call_dispatcher_mail:
  assumes "call_dispatcher cat ch batch = Inr (Some (m, rs))"
  shows "m_notices m = map fst batch"
    and "ch = Some Email \<Longrightarrow> \<exists>xs. get_recipients cat (snd (hd batch)) To = Inr xs \<and> m_to m = List.map_filter id xs"
  using assms
  by (auto simp: call_dispatcher_def send_mail_for_printing_def send_notification_by_email_def Let_def and_then_eq_Inr
      dest!: create_email_notices split: option.splits channel.splits if_splits)

lemma load_all: "\<forall>p \<in> set pids. dict_get (notices s) p \<noteq> None \<Longrightarrow> map fst (load s pids) = pids"
  by (induction pids) (auto simp: load_def map_filter_simps)

lemma load_in: "(p, n) \<in> set (load s pids) \<longleftrightarrow> p \<in> set pids \<and> dict_get (notices s) p = Some n"
  by (induction pids) (auto simp: load_def map_filter_simps split: option.splits)

lemma load_distinct: "distinct pids \<Longrightarrow> distinct (map fst (load s pids))"
proof (induction pids)
  case (Cons p ps)
  then show ?case
    using load_in [of p _ s ps] by (force simp: load_def map_filter_simps split: option.splits)
qed (simp add: load_def map_filter_simps)

text \<open>A mail is addressed to the recipients of its first notification, if that one goes by e-mail.\<close>

definition addressed :: "catalogue \<Rightarrow> notices \<Rightarrow> mail \<Rightarrow> bool" where
  "addressed cat ns m \<longleftrightarrow>
     (\<exists>n. m_notices m \<noteq> [] \<and> dict_get ns (hd (m_notices m)) = Some n
       \<and> (get_communication_channel cat n = Inr (Some Email) \<longrightarrow>
            (\<exists>xs. get_recipients cat n To = Inr xs \<and> m_to m = List.map_filter id xs)))"

definition delivered ::
  "catalogue \<Rightarrow> stamp \<Rightarrow> string list list \<Rightarrow> mail list \<Rightarrow> office \<Rightarrow> office \<Rightarrow> bool" where
  "delivered cat moment pss ms s s' \<longleftrightarrow>
     outbox s' = outbox s @ ms \<and> core_of (notices s') = core_of (notices s)
     \<and> distinct (concat (map m_notices ms))
     \<and> (\<forall>m \<in> set ms. m_notices m \<in> set pss \<and> addressed cat (notices s) m)
     \<and> (\<forall>p. p \<notin> set (concat pss) \<longrightarrow> dict_get (notices s') p = dict_get (notices s) p)
     \<and> (\<forall>p \<in> set (concat pss). \<exists>n. dict_get (notices s') p = Some n
          \<and> done_at moment (p \<in> set (concat (map m_notices ms))) n)"

lemma marked_trans:
  "marked g ps ns ns' \<Longrightarrow> marked h ps ns' ns'' \<Longrightarrow> marked (h \<circ> g) ps ns ns''"
  by (auto simp: marked_def map_option_case split: option.splits)

lemma marked_done:
  assumes "marked g ps ns ns'" "p \<in> ps" "dict_get ns p \<noteq> None" "\<And>n. done_at moment b (g n)"
  shows "\<exists>n. dict_get ns' p = Some n \<and> done_at moment b n"
  using assms by (auto simp: marked_def)

lemma send_batch_delivers:
  assumes "send_batch cat moment pids s = (s', Inr b)" "distinct pids" "pids \<noteq> []"
    and stored: "\<forall>p \<in> set pids. dict_get (notices s) p \<noteq> None"
  shows "\<exists>ms. delivered cat moment [pids] ms s s' \<and> concat (map m_notices ms) = (if b then pids else [])"
proof -
  note load = load_all [OF stored]
  let ?batch = "load s pids"
  let ?call = "and_then (get_communication_channel cat (snd (hd ?batch))) (\<lambda>ch. call_dispatcher cat ch ?batch)"
  obtain r where r: "?call = Inr r"
    using assms(1) by (cases ?call) (simp_all add: send_batch_def Let_def)
  then obtain ch where ch: "get_communication_channel cat (snd (hd ?batch)) = Inr ch" "call_dispatcher cat ch ?batch = Inr r"
    by (auto simp: and_then_eq_Inr)
  note unfolded = assms(1) [unfolded send_batch_def Let_def r sum.case]
  show ?thesis
  proof (cases r)
    case None
    with unfolded have "for_all (update_process_date cat moment False Done) pids s = (s', Inr ())" "\<not> b"
      by (auto simp: then_do_Inr)
    from for_all_update [OF this(1) [unfolded update_process_date_eq] assms(2)]
    have m: "marked (processed_at moment False Done) (set pids) (notices s) (notices s')" "outbox s' = outbox s" by simp_all
    then have "delivered cat moment [pids] [] s s'"
      using stored by (auto simp: delivered_def marked_def done_at_def processed_at_def)
    with \<open>\<not> b\<close> show ?thesis by (intro exI [of _ "[]"]) simp
  next
    case (Some x)
    obtain m rs where x: "x = (m, rs)" by fastforce
    from unfolded Some x obtain s1 where s1:
      "for_all (update_process_date cat moment True Done) pids (s\<lparr>outbox := outbox s @ [m]\<rparr>) = (s1, Inr ())"
      "for_all (update_effective_recipients cat rs) pids s1 = (s', Inr ())" and b: b
      by (auto simp: then_do_Inr)
    let ?g = "processed_at moment True Done" and ?h = "\<lambda>n::notice. n\<lparr>effective_recipients := effective_recipients n @ rs\<rparr>"
    have "core (?h n) = core n" for n by (simp add: core_def)
    from for_all_update [OF s1(1) [unfolded update_process_date_eq] assms(2)]
      for_all_update [OF s1(2) [unfolded update_recipients_eq] assms(2) this]
    have mk: "marked (?h \<circ> ?g) (set pids) (notices s) (notices s')" and o: "outbox s' = outbox s @ [m]"
      by (auto intro: marked_trans)
    have mn: "m_notices m = pids"
      using call_dispatcher_mail(1) [OF ch(2) [unfolded Some x]] load by simp
    have hd: "hd ?batch = (hd pids, the (dict_get (notices s) (hd pids)))"
      using assms(3) stored by (cases pids) (auto simp: load_def map_filter_simps)
    have "addressed cat (notices s) m"
      using call_dispatcher_mail(2) [OF ch(2) [unfolded Some x]] ch(1) hd mn assms(3) stored
      by (cases pids) (auto simp: addressed_def)
    moreover have "done_at moment True ((?h \<circ> ?g) n)" for n by (simp add: done_at_def processed_at_def)
    moreover from mk have "core_of (notices s') = core_of (notices s)"
      "\<forall>p. p \<notin> set pids \<longrightarrow> dict_get (notices s') p = dict_get (notices s) p" by (simp_all add: marked_def)
    ultimately have "delivered cat moment [pids] [m] s s'"
      unfolding delivered_def using mn o assms(2) marked_done [OF mk] stored by simp
    with b mn show ?thesis by (intro exI [of _ "[m]"]) simp
  qed
qed

lemma addressed_kept:
  "addressed cat ns m \<Longrightarrow> \<forall>p \<in> set (m_notices m). dict_get ns' p = dict_get ns p \<Longrightarrow> addressed cat ns' m"
  by (auto simp: addressed_def)

lemma deliveredD:
  assumes "delivered cat moment pss ms s s'"
  shows "outbox s' = outbox s @ ms" "core_of (notices s') = core_of (notices s)" "distinct (concat (map m_notices ms))"
    "m \<in> set ms \<Longrightarrow> m_notices m \<in> set pss \<and> addressed cat (notices s) m"
    "p \<notin> set (concat pss) \<Longrightarrow> dict_get (notices s') p = dict_get (notices s) p"
    "p \<in> set (concat pss) \<Longrightarrow>
       \<exists>n. dict_get (notices s') p = Some n \<and> done_at moment (p \<in> set (concat (map m_notices ms))) n"
  using assms unfolding delivered_def by blast+

lemma delivered_append:
  assumes "delivered cat moment pss ms s s1" "delivered cat moment qss ks s1 s2"
    and disjoint: "set (concat pss) \<inter> set (concat qss) = {}"
  shows "delivered cat moment (pss @ qss) (ms @ ks) s s2"
proof -
  let ?a = "concat (map m_notices ms)" and ?b = "concat (map m_notices ks)"
  note 1 = deliveredD [OF assms(1)] and 2 = deliveredD [OF assms(2)]
  have sub: "set ?a \<subseteq> set (concat pss)" "set ?b \<subseteq> set (concat qss)" using 1(4) 2(4) by auto
  have "m_notices m \<in> set (pss @ qss) \<and> addressed cat (notices s) m" if "m \<in> set (ms @ ks)" for m
  proof (cases "m \<in> set ms")
    case False
    with that have m: "m_notices m \<in> set qss" "addressed cat (notices s1) m" using 2(4) by auto
    then have "\<forall>p \<in> set (m_notices m). dict_get (notices s) p = dict_get (notices s1) p"
      using 1(5) disjoint by (metis IntI UN_I emptyE set_concat)
    with m show ?thesis using addressed_kept by auto
  qed (use 1(4) in auto)
  moreover have "\<exists>n. dict_get (notices s2) p = Some n \<and> done_at moment (p \<in> set (?a @ ?b)) n"
    if p: "p \<in> set (concat (pss @ qss))" for p
  proof (cases "p \<in> set (concat qss)")
    case True
    then have "p \<notin> set ?a" using disjoint sub(1) by blast
    with 2(6) [OF True] show ?thesis by auto
  next
    case False
    with p have "p \<in> set (concat pss)" "p \<notin> set ?b" using sub(2) by auto
    with 1(6) [of p] 2(5) [OF False] show ?thesis by auto
  qed
  moreover have "dict_get (notices s2) p = dict_get (notices s) p" if "p \<notin> set (concat (pss @ qss))" for p
    using that 1(5) [of p] 2(5) [of p] by auto
  moreover have "distinct (?a @ ?b)" using 1(3) 2(3) sub disjoint by (auto simp del: set_concat)
  ultimately show ?thesis unfolding delivered_def using 1(1,2) 2(1,2) by (simp del: set_concat)
qed

lemma send_all_delivers:
  assumes "send_all cat moment pss a b s = (s', Inr (a', b'))" "distinct (concat pss)" "[] \<notin> set pss"
    and "\<forall>p \<in> set (concat pss). dict_get (notices s) p \<noteq> None"
  shows "\<exists>ms. delivered cat moment pss ms s s' \<and> a' = a + length (concat (map m_notices ms))
           \<and> a' + b' = a + b + length (concat pss)"
  using assms
proof (induction pss arbitrary: a b s)
  case Nil
  then show ?case by (intro exI [of _ "[]"]) (auto simp: delivered_def)
next
  case (Cons ps pss)
  from Cons.prems(1) obtain s1 r where s1: "send_batch cat moment ps s = (s1, Inr r)"
    "send_all cat moment pss (if r then a + length ps else a) (if r then b else b + length ps) s1 = (s', Inr (a', b'))"
    by (auto simp: then_do_Inr split: if_splits)
  from send_batch_delivers [OF s1(1)] Cons.prems(2-4)
  obtain ms where ms: "delivered cat moment [ps] ms s s1" "concat (map m_notices ms) = (if r then ps else [])" by auto
  have disjoint: "set (concat [ps]) \<inter> set (concat pss) = {}" using Cons.prems(2) by simp
  have st: "\<forall>p \<in> set (concat pss). dict_get (notices s1) p \<noteq> None"
  proof
    fix p assume p: "p \<in> set (concat pss)"
    with disjoint have "p \<notin> set (concat [ps])" by blast
    with deliveredD(5) [OF ms(1)] p Cons.prems(4) show "dict_get (notices s1) p \<noteq> None" by simp
  qed
  from Cons.IH [OF s1(2) _ _ st] Cons.prems(2,3)
  obtain ks where ks: "delivered cat moment pss ks s1 s'"
    "a' = (if r then a + length ps else a) + length (concat (map m_notices ks))"
    "a' + b' = a + b + length ps + length (concat pss)" by (auto split: if_splits)
  from delivered_append [OF ms(1) ks(1) disjoint] ms(2) ks(2,3) show ?case
    by (intro exI [of _ "ms @ ks"]) auto
qed

section \<open>The dispatch\<close>

text \<open>What becomes of a notification of a given fate; \<open>sent\<close> says whether a mail was about it.\<close>

definition handled :: "stamp \<Rightarrow> bool \<Rightarrow> fate \<Rightarrow> notice \<Rightarrow> notice \<Rightarrow> bool" where
  "handled moment sent x n n' \<longleftrightarrow>
     (case x of
        To_cancel \<Rightarrow> n' = processed_at moment False Cancelled_notice n \<and> \<not> sent
      | Batched k \<Rightarrow> done_at moment sent n'
      | _ \<Rightarrow> n' = n \<and> \<not> sent)"

definition dispatched ::
  "catalogue \<Rightarrow> stamp \<Rightarrow> (string \<Rightarrow> notice \<Rightarrow> fate) \<Rightarrow> (string \<times> notice) list \<Rightarrow> mail list \<Rightarrow> batches
     \<Rightarrow> office \<Rightarrow> office \<Rightarrow> counts \<Rightarrow> bool" where
  "dispatched cat moment f xs ms bs s s' c \<longleftrightarrow>
     batches_ok (batched f xs) bs
     \<and> outbox s' = outbox s @ ms \<and> core_of (notices s') = core_of (notices s)
     \<and> distinct (concat (map m_notices ms))
     \<and> (\<forall>m \<in> set ms. m_notices m \<in> set (map snd bs) \<and> addressed cat (notices s) m)
     \<and> cn_processed c = length xs \<and> cn_errors c = length (with_fate f Failed xs)
     \<and> cn_sent c = length (concat (map m_notices ms))
     \<and> cn_sent c + cn_not_sent c = length (batched f xs)
     \<and> (\<forall>(p, n) \<in> set xs. \<exists>n'. dict_get (notices s') p = Some n'
          \<and> handled moment (p \<in> set (concat (map m_notices ms))) (f p n) n n')
     \<and> (\<forall>p. p \<notin> fst ` set xs \<longrightarrow> dict_get (notices s') p = dict_get (notices s) p)"

lemma batches_okD:
  assumes "batches_ok kps bs"
  shows "mset (concat (map snd bs)) = mset (map snd kps)" "set (concat (map snd bs)) = snd ` set kps"
    "length (concat (map snd bs)) = length kps" "[] \<notin> set (map snd bs)"
    "distinct (map snd kps) \<Longrightarrow> distinct (concat (map snd bs))"
proof -
  from assms show m: "mset (concat (map snd bs)) = mset (map snd kps)" unfolding batches_ok_def by blast
  from mset_eq_setD [OF m] show "set (concat (map snd bs)) = snd ` set kps" by simp
  from mset_eq_length [OF m] show "length (concat (map snd bs)) = length kps" by simp
  from assms show "[] \<notin> set (map snd bs)" unfolding batches_ok_def by force
  from mset_eq_imp_distinct_iff [OF m] show "distinct (map snd kps) \<Longrightarrow> distinct (concat (map snd bs))" by simp
qed

lemma dispatch_result:
  assumes "dispatch_notifications cat moment resend pids s = (s', Inr c)" "distinct pids"
  shows "\<exists>ms bs. dispatched cat moment (fate cat (notices s) resend) (load s pids) ms bs s s' c"
proof -
  let ?xs = "load s pids" and ?f = "fate cat (notices s) resend"
  let ?g = "processed_at moment False Cancelled_notice"
  obtain s1 bs k where loop: "process_all cat moment resend ?xs [] 0 s = (s1, bs, k)" by (metis surj_pair)
  from assms(1) loop obtain a b where second: "send_all cat moment (map snd bs) 0 0 s1 = (s', Inr (a, b))"
    and c: "c = \<lparr>cn_processed = length ?xs, cn_sent = a, cn_not_sent = b, cn_errors = k\<rparr>"
    by (auto simp: dispatch_notifications_def Let_def then_do_Inr)
  note d = load_distinct [OF assms(2), of s]
  have stored: "(p, n) \<in> set ?xs \<Longrightarrow> dict_get (notices s) p = Some n" for p n by (simp add: load_in)
  from process_all_result [OF loop d stored refl batches_ok_Nil]
  have first: "marked ?g (fst ` set (with_fate ?f To_cancel ?xs)) (notices s) (notices s1)" "outbox s1 = outbox s"
    "batches_ok (batched ?f ?xs) bs" "k = length (with_fate ?f Failed ?xs)" by simp_all
  note bs = batches_okD [OF first(3)]
  have unbatched: "p \<notin> set (concat (map snd bs))" if p: "(p, n) \<in> set ?xs" "\<forall>k. ?f p n \<noteq> Batched k" for p n
  proof
    assume "p \<in> set (concat (map snd bs))"
    then obtain m k where "(p, m) \<in> set ?xs" "?f p m = Batched k" unfolding bs(2) by (auto simp: in_batched)
    with stored [of p m] stored [OF p(1)] p(2) show False by simp
  qed
  have uncancelled: "dict_get (notices s1) p = Some n" if "(p, n) \<in> set ?xs" "?f p n \<noteq> To_cancel" for p n
  proof -
    have "p \<notin> fst ` set (with_fate ?f To_cancel ?xs)"
    proof
      assume "p \<in> fst ` set (with_fate ?f To_cancel ?xs)"
      then obtain m where "(p, m) \<in> set ?xs" "?f p m = To_cancel" by (auto simp: with_fate_def)
      with stored [of p m] stored [OF that(1)] that(2) show False by simp
    qed
    with first(1) stored [OF that(1)] show ?thesis by (simp add: marked_def)
  qed
  have st: "\<forall>p \<in> set (concat (map snd bs)). dict_get (notices s1) p \<noteq> None"
    unfolding bs(2) using uncancelled by (force simp: in_batched)
  from send_all_delivers [OF second bs(5) [OF batched_distinct [OF d]] bs(4) st]
  obtain ms where ms: "delivered cat moment (map snd bs) ms s1 s'" "a = length (concat (map m_notices ms))"
    "a + b = length (concat (map snd bs))" by auto
  note del = deliveredD [OF ms(1)]
  have sub: "set (concat (map m_notices ms)) \<subseteq> set (concat (map snd bs))"
  proof
    fix x assume "x \<in> set (concat (map m_notices ms))"
    then obtain m where m: "m \<in> set ms" "x \<in> set (m_notices m)" by auto
    with del(4) [OF m(1)] show "x \<in> set (concat (map snd bs))" unfolding set_concat by blast
  qed
  have "addressed cat (notices s) m" if m: "m \<in> set ms" for m
  proof -
    have "dict_get (notices s) p = dict_get (notices s1) p" if "p \<in> set (m_notices m)" for p
    proof -
      have "p \<in> set (concat (map snd bs))" using m that sub by auto
      then obtain n k where "(p, n) \<in> set ?xs" "?f p n = Batched k" unfolding bs(2) by (auto simp: in_batched)
      with uncancelled [of p n] stored [of p n] show ?thesis by simp
    qed
    with del(4) [OF m] addressed_kept show ?thesis by blast
  qed
  moreover have "\<exists>n'. dict_get (notices s') p = Some n'
      \<and> handled moment (p \<in> set (concat (map m_notices ms))) (?f p n) n n'" if p: "(p, n) \<in> set ?xs" for p n
  proof (cases "?f p n")
    case (Batched k)
    with p have "(k, p) \<in> set (batched ?f ?xs)" by (auto simp: in_batched)
    then have "p \<in> set (concat (map snd bs))" unfolding bs(2) by force
    from del(6) [OF this] show ?thesis by (simp add: handled_def Batched del: set_concat)
  next
    case To_cancel
    then have "p \<notin> set (concat (map snd bs))" using unbatched [OF p] by simp
    moreover have "dict_get (notices s1) p = Some (?g n)"
      using first(1) p stored [OF p] To_cancel by (force simp: marked_def with_fate_def)
    ultimately show ?thesis using del(5) sub by (auto simp add: handled_def To_cancel simp del: set_concat)
  qed (use unbatched [OF p] uncancelled [OF p] del(5) sub in \<open>auto simp: handled_def simp del: set_concat\<close>)
  moreover have "dict_get (notices s') p = dict_get (notices s) p" if "p \<notin> fst ` set ?xs" for p
  proof -
    from that have "p \<notin> set (concat (map snd bs))" unfolding bs(2) by (force simp: in_batched)
    moreover from that have "p \<notin> fst ` set (with_fate ?f To_cancel ?xs)" by (auto simp: with_fate_def)
    ultimately show ?thesis using del(5) first(1) by (simp add: marked_def del: set_concat)
  qed
  moreover have "core_of (notices s1) = core_of (notices s)" using first(1) by (simp add: marked_def)
  ultimately show ?thesis
    using first(2-4) del(1-4) ms(2,3) bs(3) c unfolding dispatched_def by (intro exI [of _ ms] exI [of _ bs]) fastforce
qed

end
