(* ===== verification/NotificationProperties.thy ===== *)
theory NotificationProperties
  imports DispatchLemmas
begin

text \<open>
  The properties of notifications: a dispatch accounts for each of them, sends each at most once, never sends it
  again, addresses a batch to the patron of each of its notifications; a loan gets no more reminders than its
  policy has. The lemmas after them are about what the code does in the cases that its comments exclude.
\<close>

section \<open>Dispatching\<close>

text \<open>
  C33. When a dispatch returns, it accounts for every notification it was given: one that was already processed, or
  that raised an exception, stays as it was; one that can be cancelled is cancelled; every other one is done and
  says whether it was sent. The counts are the numbers of these notifications, and no other notification changes.
\<close>

theorem dispatch_accounts_for_all:
  assumes "distinct pids" and "dispatch_notifications cat moment resend pids s = (s', Inr c)"
  shows "\<exists>sent. cn_processed c = length (load s pids)
    \<and> cn_errors c = length (with_fate (fate cat (notices s) resend) Failed (load s pids))
    \<and> cn_sent c = length sent \<and> distinct sent
    \<and> cn_sent c + cn_not_sent c = length (batched (fate cat (notices s) resend) (load s pids))
    \<and> (\<forall>(p, n) \<in> set (load s pids). \<exists>n'. dict_get (notices s') p = Some n'
         \<and> handled moment (p \<in> set sent) (fate cat (notices s) resend p n) n n')
    \<and> (\<forall>p. p \<notin> set pids \<longrightarrow> dict_get (notices s') p = dict_get (notices s) p)"
proof -
  from dispatch_result [OF assms(2,1)] obtain ms bs where
    d: "dispatched cat moment (fate cat (notices s) resend) (load s pids) ms bs s s' c" by blast
  have "p \<notin> fst ` set (load s pids)" if "p \<notin> set pids" for p using that by (auto simp: load_in)
  with d show ?thesis unfolding dispatched_def by (intro exI [of _ "concat (map m_notices ms)"]) fast
qed

text \<open>
  C34. A notification is in at most one of the mails of a dispatch, it is marked as sent exactly when it is in one,
  and only notifications that were to be sent, and have the same aggregation key, share a mail.
\<close>

theorem mails_of_dispatch:
  assumes "distinct pids" and "dispatch_notifications cat moment resend pids s = (s', Inr c)"
  shows "\<exists>ms. outbox s' = outbox s @ ms \<and> distinct (concat (map m_notices ms))
    \<and> (\<forall>m \<in> set ms. \<exists>key. \<forall>p \<in> set (m_notices m). \<exists>n. (p, n) \<in> set (load s pids)
         \<and> fate cat (notices s) resend p n = Batched key)
    \<and> (\<forall>(p, n) \<in> set (load s pids). \<forall>key. fate cat (notices s) resend p n = Batched key \<longrightarrow>
         (notification_sent (the (dict_get (notices s') p)) = Some True \<longleftrightarrow> p \<in> set (concat (map m_notices ms))))"
proof -
  let ?f = "fate cat (notices s) resend"
  from dispatch_result [OF assms(2,1)] obtain ms bs where d: "dispatched cat moment ?f (load s pids) ms bs s s' c" by blast
  have "\<exists>key. \<forall>p \<in> set (m_notices m). \<exists>n. (p, n) \<in> set (load s pids) \<and> ?f p n = Batched key" if "m \<in> set ms" for m
  proof -
    from d that obtain key where "(key, m_notices m) \<in> set bs" unfolding dispatched_def by fastforce
    moreover from d have "batches_ok (batched ?f (load s pids)) bs" unfolding dispatched_def by blast
    ultimately show ?thesis unfolding batches_ok_def by (fastforce simp: in_batched)
  qed
  moreover have "notification_sent (the (dict_get (notices s') p)) = Some True \<longleftrightarrow> p \<in> set (concat (map m_notices ms))"
    if "(p, n) \<in> set (load s pids)" "?f p n = Batched key" for p n key
  proof -
    from d that(1) obtain n' where "dict_get (notices s') p = Some n'"
      "handled moment (p \<in> set (concat (map m_notices ms))) (?f p n) n n'" unfolding dispatched_def by blast
    then show ?thesis by (simp add: handled_def that(2) done_at_def)
  qed
  ultimately show ?thesis using d unfolding dispatched_def by (intro exI [of _ ms]) blast
qed

lemma process_all_idle:
  assumes "\<And>p n. (p, n) \<in> set xs \<Longrightarrow> dict_get (notices s) p = Some n
      \<and> fate cat (notices s) resend p n \<in> {Skipped, Failed}"
  shows "\<exists>k'. process_all cat moment resend xs bs k s = (s, bs, k')"
  using assms
proof (induction xs arbitrary: k)
  case (Cons x xs)
  obtain p n where x: "x = (p, n)" by fastforce
  from Cons.prems [of p n] x have n: "dict_get (notices s) p = Some n" "fate cat (notices s) resend p n \<in> {Skipped, Failed}"
    by simp_all
  from Cons.prems have "\<And>q m. (q, m) \<in> set xs \<Longrightarrow> dict_get (notices s) q = Some m
      \<and> fate cat (notices s) resend q m \<in> {Skipped, Failed}" by simp
  from Cons.IH [OF this] n(2) show ?case by (auto simp: x process_all_Cons [OF n(1)] simp del: process_all.simps)
qed simp

text \<open>
  C35. Dispatching the same notifications a second time sends nothing and changes nothing, unless they are to be
  resent: what was processed is skipped, and what raised an exception raises it again.
\<close>

theorem second_dispatch_is_silent:
  assumes "distinct pids" and "dispatch_notifications cat moment resend pids s = (s', Inr c)"
  shows "\<exists>c'. dispatch_notifications cat later False pids s' = (s', Inr c') \<and> cn_sent c' = 0 \<and> cn_not_sent c' = 0"
proof -
  let ?f = "fate cat (notices s) resend"
  from dispatch_result [OF assms(2,1)] obtain ms bs where d: "dispatched cat moment ?f (load s pids) ms bs s s' c" by blast
  have idle: "fate cat (notices s') False p n' \<in> {Skipped, Failed}" if "(p, n') \<in> set (load s' pids)" for p n'
  proof -
    from that have n': "dict_get (notices s') p = Some n'" "p \<in> set pids" by (simp_all add: load_in)
    have "\<exists>n. (p, n) \<in> set (load s pids)"
    proof (rule ccontr)
      assume "\<nexists>n. (p, n) \<in> set (load s pids)"
      with d n' have "dict_get (notices s) p = Some n'" unfolding dispatched_def by force
      with n'(2) \<open>\<nexists>n. _\<close> show False by (simp add: load_in)
    qed
    then obtain n where n: "(p, n) \<in> set (load s pids)" by blast
    with d n' have h: "handled moment (p \<in> set (concat (map m_notices ms))) (?f p n) n n'"
      unfolding dispatched_def by fastforce
    have core: "fate cat (notices s') False p n' = fate cat (notices s) False p n'"
      using d unfolding dispatched_def by (intro fate_core) blast
    show ?thesis
    proof (cases "process_date n' = None")
      case True
      with h have same: "n' = n" and "?f p n \<in> {Skipped, Failed}"
        by (auto simp: handled_def done_at_def processed_at_def split: fate.splits)
      with True have "fate cat (notices s) False p n = Failed"
        by (auto simp: fate_def split: sum.splits option.splits)
      with core same show ?thesis by simp
    qed (simp add: fate_def)
  qed
  have "\<exists>k. process_all cat later False (load s' pids) [] 0 s' = (s', [], k)"
    by (rule process_all_idle) (use idle load_in in blast)
  then show ?thesis by (auto simp: dispatch_notifications_def)
qed

definition for_patron :: "notice \<Rightarrow> bool" where
  "for_patron n \<longleftrightarrow> class_of n \<in> {Availability_class, Recall_class, Reminder_class}"

lemma key_parts_patron:
  "for_patron n \<Longrightarrow> key_parts cat n = Inr xs \<Longrightarrow>
     \<exists>t ch lib l. xs = [Some t, map_option channel_name ch, Some lib, Some (l_patron l)]
       \<and> get_communication_channel cat n = Inr ch \<and> notice_loan cat n = Inr l"
  by (auto simp: for_patron_def key_parts_def patron_key_def key_start_def and_then_eq_Inr is_internal_def)

lemma key_parts_length:
  assumes "key_parts cat n = Inr xs" "length xs = 4" "is_circulation (class_of n)"
  shows "for_patron n"
proof (rule ccontr)
  assume "\<not> for_patron n"
  with assms(3) have "class_of n = Booking_class \<or> is_internal (class_of n)"
    by (cases "class_of n") (simp_all add: for_patron_def is_circulation_def is_internal_def)
  with assms(1,2) show False by (auto simp: key_parts_def booking_key_def internal_key_def key_start_def and_then_eq_Inr split: if_splits)
qed

lemma channel_name_inject: "channel_name a = channel_name b \<longleftrightarrow> a = b"
  by (cases a; cases b) simp_all

lemma fate_Batched: "fate cat ns resend p n = Batched key \<Longrightarrow> aggregation_key cat p n = Inr key"
  by (simp add: fate_def split: if_splits sum.splits option.splits)

lemma map_filter_Some: "List.map_filter id (map Some xs) = xs"
  by (induction xs) (simp_all add: map_filter_simps)

lemma same_key_same_patron:
  assumes "inj (digest cat)" "\<And>xs q. digest cat xs \<noteq> uuid cat q"
    and "aggregation_key cat p n = Inr key" "aggregation_key cat q m = Inr key" and "for_patron n"
  shows "for_patron m" "get_communication_channel cat m = get_communication_channel cat n"
    "\<exists>l k. notice_loan cat n = Inr l \<and> notice_loan cat m = Inr k \<and> l_patron k = l_patron l"
proof -
  have n: "is_circulation (class_of n)" using assms(5) by (auto simp: for_patron_def is_circulation_def)
  with assms(3) obtain xs where xs: "key_parts cat n = Inr xs" "key = digest cat xs"
    by (auto simp: aggregation_key_def and_then_eq_Inr)
  with assms(2,4) have m: "is_circulation (class_of m)"
    by (metis aggregation_key_def sum.inject(2))
  with assms(4) xs obtain ys where "key_parts cat m = Inr ys" "digest cat ys = digest cat xs"
    by (auto simp: aggregation_key_def and_then_eq_Inr)
  with assms(1) have ys: "key_parts cat m = Inr xs" by (simp add: inj_eq)
  note n' = key_parts_patron [OF assms(5) xs(1)]
  then have "length xs = 4" by auto
  then show fm: "for_patron m" by (rule key_parts_length [OF ys _ m])
  note m' = key_parts_patron [OF fm ys]
  from n' m' channel_name_inject show "get_communication_channel cat m = get_communication_channel cat n"
    by (auto simp: map_option_case split: option.splits)
  from n' m' show "\<exists>l k. notice_loan cat n = Inr l \<and> notice_loan cat m = Inr k \<and> l_patron k = l_patron l" by auto
qed

lemma recipients_of_patron:
  assumes "for_patron n" "get_communication_channel cat n = Inr (Some Email)" "notice_loan cat n = Inr l"
  shows "get_recipients cat n To =
    Inr (map Some (case patron_of cat (l_patron l) of
           None \<Rightarrow> [] | Some p \<Rightarrow> option_list (pc_email p) @ option_list (pc_additional_email p)))"
  using assms by (auto simp: get_recipients_def get_recipients_to_def patron_addresses_def for_patron_def is_circulation_def)

text \<open>
  C36. A mail reaches the patron of each of its notifications: when the notification is for a patron and goes by
  e-mail, the addressees of the mail are the recipients of that notification. It is assumed that the digest of the
  keys has no collisions and is never the text of a UUID.
\<close>

theorem mail_reaches_every_patron:
  assumes "inj (digest cat)" and "\<forall>xs q. digest cat xs \<noteq> uuid cat q"
    and "distinct pids" and "dispatch_notifications cat moment resend pids s = (s', Inr c)"
  shows "\<exists>ms. outbox s' = outbox s @ ms \<and>
    (\<forall>m \<in> set ms. \<forall>p \<in> set (m_notices m). \<exists>n. dict_get (notices s) p = Some n
       \<and> (for_patron n \<and> get_communication_channel cat n = Inr (Some Email) \<longrightarrow>
            get_recipients cat n To = Inr (map Some (m_to m))))"
proof -
  let ?f = "fate cat (notices s) resend"
  from dispatch_result [OF assms(4,3)] obtain ms bs where d: "dispatched cat moment ?f (load s pids) ms bs s s' c" by blast
  have "\<exists>n. dict_get (notices s) p = Some n
      \<and> (for_patron n \<and> get_communication_channel cat n = Inr (Some Email) \<longrightarrow>
           get_recipients cat n To = Inr (map Some (m_to m)))"
    if m: "m \<in> set ms" and p: "p \<in> set (m_notices m)" for m p
  proof -
    from d m obtain key where "(key, m_notices m) \<in> set bs" "addressed cat (notices s) m"
      unfolding dispatched_def by fastforce
    moreover from d have "batches_ok (batched ?f (load s pids)) bs" unfolding dispatched_def by blast
    ultimately have b: "\<exists>n. (q, n) \<in> set (load s pids) \<and> ?f q n = Batched key" if "q \<in> set (m_notices m)" for q
      using that unfolding batches_ok_def by (fastforce simp: in_batched)
    have keyed: "\<exists>n. dict_get (notices s) q = Some n \<and> aggregation_key cat q n = Inr key" if "q \<in> set (m_notices m)" for q
      using b [OF that] fate_Batched by (auto simp: load_in)
    from keyed [OF p] obtain n where n: "dict_get (notices s) p = Some n" "aggregation_key cat p n = Inr key" by blast
    from p have "hd (m_notices m) \<in> set (m_notices m)" by (cases "m_notices m") auto
    from keyed [OF this] obtain h where
      h: "aggregation_key cat (hd (m_notices m)) h = Inr key" "dict_get (notices s) (hd (m_notices m)) = Some h" by blast
    with \<open>addressed cat (notices s) m\<close> have to: "get_communication_channel cat h = Inr (Some Email) \<Longrightarrow>
        \<exists>xs. get_recipients cat h To = Inr xs \<and> m_to m = List.map_filter id xs" by (simp add: addressed_def)
    have "get_recipients cat n To = Inr (map Some (m_to m))"
      if f: "for_patron n" and ch: "get_communication_channel cat n = Inr (Some Email)"
    proof -
      note same = same_key_same_patron [OF assms(1) _ n(2) h(1) f, OF assms(2) [rule_format]]
      from same(3) obtain l k where l: "notice_loan cat n = Inr l" "notice_loan cat h = Inr k" "l_patron k = l_patron l"
        by blast
      let ?ys = "case patron_of cat (l_patron l) of
        None \<Rightarrow> [] | Some p \<Rightarrow> option_list (pc_email p) @ option_list (pc_additional_email p)"
      from same(2) ch have hc: "get_communication_channel cat h = Inr (Some Email)" by simp
      from to [OF hc] recipients_of_patron [OF same(1) hc l(2)] l(3) have "m_to m = ?ys"
        by (metis map_filter_Some sum.inject(2))
      with recipients_of_patron [OF f ch l(1)] show ?thesis by (simp only:)
    qed
    with n(1) show ?thesis by blast
  qed
  with d show ?thesis unfolding dispatched_def by blast
qed

section \<open>Reminders\<close>

text \<open>Dispatching leaves what counts notifications as it is, also when it raises.\<close>

lemma update_notice_core:
  assumes "\<And>n. core (g n) = core n"
  shows "core_of (notices (fst (update_notice cat p g s))) = core_of (notices s)"
  using assms core_of_set by (auto simp: update_notice_def store_notice_def split: option.splits sum.splits)

lemma for_all_core:
  assumes "\<And>n. core (g n) = core n"
  shows "core_of (notices (fst (for_all (\<lambda>p. update_notice cat p g) ps s))) = core_of (notices s)"
proof (induction ps arbitrary: s)
  case (Cons p ps)
  obtain s1 r where s1: "update_notice cat p g s = (s1, r)" by fastforce
  with update_notice_core [OF assms, of cat p s] Cons.IH [of s1] show ?case by (cases r) simp_all
qed simp

lemma process_all_core:
  "core_of (notices (fst (process_all cat moment resend xs bs k s))) = core_of (notices s)"
proof (induction xs arbitrary: bs k s)
  case (Cons x xs)
  obtain p n where x: "x = (p, n)" by fastforce
  obtain s1 r where s1: "process_notification cat moment resend p n bs s = (s1, r)" by fastforce
  obtain s2 q where s2: "update_process_date cat moment False Cancelled_notice p s = (s2, q)" by fastforce
  have "core_of (notices s2) = core_of (notices s)"
    using update_notice_core [of "processed_at moment False Cancelled_notice" cat p s] s2
    by (simp add: update_process_date_eq)
  with s1 s2 have "core_of (notices s1) = core_of (notices s)"
    by (cases q) (auto simp: process_notification_def split: if_splits sum.splits option.splits)
  with Cons.IH s1 show ?case by (cases r) (simp_all add: x)
qed simp

lemma send_batch_core: "core_of (notices (fst (send_batch cat moment ps s))) = core_of (notices s)"
proof -
  have u: "core_of (notices (fst (for_all (update_process_date cat moment b st) ps t))) = core_of (notices t)" for b st t
    unfolding update_process_date_eq by (rule for_all_core) simp
  have v: "core_of (notices (fst (for_all (update_effective_recipients cat rs) ps t))) = core_of (notices t)" for rs t
    unfolding update_recipients_eq by (rule for_all_core) (simp add: core_def)
  have then_core: "core_of (notices (fst (then_do m k))) = core_of (notices s)"
    if "core_of (notices (fst m)) = core_of (notices s)"
      "\<And>x t. core_of (notices t) = core_of (notices s) \<Longrightarrow> core_of (notices (fst (k x t))) = core_of (notices s)"
    for m :: "unit outcome_of" and k :: "unit \<Rightarrow> office \<Rightarrow> bool outcome_of"
    using that by (cases m; cases "snd m") auto
  show ?thesis unfolding send_batch_def Let_def
    by (auto simp: u v intro!: then_core split: sum.split option.split)
qed

lemma send_all_core: "core_of (notices (fst (send_all cat moment pss a b s))) = core_of (notices s)"
proof (induction pss arbitrary: a b s)
  case (Cons ps pss)
  obtain s1 r where "send_batch cat moment ps s = (s1, r)" by fastforce
  with send_batch_core [of cat moment ps s] Cons.IH show ?case by (cases r) simp_all
qed simp

lemma dispatch_core: "core_of (notices (fst (dispatch_notifications cat moment resend pids s))) = core_of (notices s)"
proof -
  obtain s1 bs k where s1: "process_all cat moment resend (load s pids) [] 0 s = (s1, bs, k)" by (metis surj_pair)
  obtain s2 r where s2: "send_all cat moment (map snd bs) 0 0 s1 = (s2, r)" by fastforce
  from process_all_core [of cat moment resend "load s pids" "[]" 0 s] send_all_core [of cat moment "map snd bs" 0 0 s1]
  show ?thesis using s1 s2 by (cases r) (auto simp: dispatch_notifications_def Let_def)
qed

text \<open>The bound, for the loans of the catalogue.\<close>

definition within_policy :: "catalogue \<Rightarrow> notices \<Rightarrow> bool" where
  "within_policy cat ns \<longleftrightarrow>
     (\<forall>l ty c. loan_of cat (l_pid l) = Some l \<and> ty \<in> set REMINDERS_NOTIFICATIONS \<and> get_circ_policy cat l = Inr (Some c) \<longrightarrow>
        length (about_loan ns l ty) \<le> length (get_reminders c (reminder_type_of ty) None))"

lemma within_policy_core: "core_of ns = core_of ns' \<Longrightarrow> within_policy cat ns \<longleftrightarrow> within_policy cat ns'"
proof -
  have "length (about_loan ns l ty) = length (filter (core_about l ty) (core_of ns))" for ns l ty
    by (metis core_of_about core_of_def length_map)
  then show "core_of ns = core_of ns' \<Longrightarrow> within_policy cat ns \<longleftrightarrow> within_policy cat ns'"
    by (simp add: within_policy_def)
qed

lemma about_loan_set:
  "length (about_loan (dict_set p n ns) l ty)
     \<le> length (about_loan ns l ty) + (if nt_loan n = Some (l_pid l) \<and> nt_type n = ty then 1 else 0)"
proof (induction ns)
  case (Cons x ns)
  then show ?case by (cases x) (auto simp: about_loan_def dict_set_def)
qed (simp add: about_loan_def dict_set_def)

lemma create_notice_notices:
  assumes "create_notice cat dir disabled moment data s = (s', r)"
  shows "notices s' = notices s \<or> (\<exists>p st. notices s' = dict_set p (data\<lparr>nt_status := st\<rparr>) (notices s))"
proof -
  have charge: "notices (fst (charge_notice cat dir moment p n t)) = notices t" for p n t
    by (auto simp: charge_notice_def split: sum.split)
  have log: "notices (fst (log_notice cat p n t)) = notices t" for p n t
    by (auto simp: log_notice_def split: sum.split)
  show ?thesis
  proof (cases "nt_type data \<in> set disabled")
    case True
    with assms show ?thesis by (simp add: create_notice_def)
  next
    case False
    define p where "p = digits (Suc (notice_serial s))"
    define n where "n = (if nt_status data = None then data\<lparr>nt_status := Some Created\<rparr> else data)"
    have st: "n = data\<lparr>nt_status := nt_status n\<rparr>" by (cases data) (simp add: n_def)
    obtain s1 r1 where s1: "store_notice cat p n s = (s1, r1)" by fastforce
    let ?s2 = "s1\<lparr>notice_serial := Suc (notice_serial s1)\<rparr>"
    obtain s3 r3 where s3: "charge_notice cat dir moment p n ?s2 = (s3, r3)" by fastforce
    obtain s4 r4 where s4: "log_notice cat p n s3 = (s4, r4)" by fastforce
    from assms False have c: "then_do (s1, r1) (\<lambda>_ s1.
        then_do (charge_notice cat dir moment p n (s1\<lparr>notice_serial := Suc (notice_serial s1)\<rparr>)) (\<lambda>_ s3.
        then_do (log_notice cat p n s3) (\<lambda>_ s4. (s4, Inr (Some p))))) = (s', r)"
      by (simp add: create_notice_def Let_def p_def n_def s1 [unfolded p_def n_def])
    have "notices s3 = notices s1" "notices s4 = notices s3"
      using charge [of p n ?s2] log [of p n s3] s3 s4 by simp_all
    with c s3 s4 have "notices s' = notices s1" by (cases r1; cases r3; cases r4) auto
    moreover from s1 have "notices s1 = notices s \<or> notices s1 = dict_set p n (notices s)"
      by (auto simp: store_notice_def split: sum.splits)
    ultimately show ?thesis using st by metis
  qed
qed

lemma wanted_reminder:
  assumes "wanted_notice cat ns counter l ty = Inr (Some k)" "ty \<in> set REMINDERS_NOTIFICATIONS"
    and "get_circ_policy cat l = Inr (Some c)"
  shows "length (about_loan ns l ty) < length (get_reminders c (reminder_type_of ty) None)"
  using assms
  by (auto simp: wanted_notice_def is_notified_def dated_def and_then_eq_Inr get_reminder_def Let_def
      split: option.splits if_splits)

lemma create_one_within:
  assumes "within_policy cat (notices s)" "loan_of cat (l_pid l) = Some l"
    and "wanted_notice cat (notices s) counter l ty = Inr (Some k)"
    and "create_notification_resource cat dir disabled moment (loan_notice moment ty (l_pid l) k) dispatch s = (s', r)"
  shows "within_policy cat (notices s')"
proof -
  let ?data = "loan_notice moment ty (l_pid l) k"
  obtain s1 r1 where s1: "create_notice cat dir disabled moment ?data s = (s1, r1)" by fastforce
  have "within_policy cat (notices s1)"
    unfolding within_policy_def
  proof (intro allI impI, elim conjE)
    fix l' ty' c
    assume l': "loan_of cat (l_pid l') = Some l'" "ty' \<in> set REMINDERS_NOTIFICATIONS" "get_circ_policy cat l' = Inr (Some c)"
    let ?R = "length (get_reminders c (reminder_type_of ty') None)"
    from assms(1) l' have before: "length (about_loan (notices s) l' ty') \<le> ?R" by (auto simp: within_policy_def)
    from create_notice_notices [OF s1] show "length (about_loan (notices s1) l' ty') \<le> ?R"
    proof (elim disjE exE)
      fix p st assume set: "notices s1 = dict_set p (?data\<lparr>nt_status := st\<rparr>) (notices s)"
      show ?thesis
      proof (cases "l_pid l = l_pid l' \<and> ty' = ty")
        case True
        with l'(1) assms(2) have "l' = l" by simp
        with True l'(2,3) wanted_reminder [OF assms(3), of c]
        have "Suc (length (about_loan (notices s) l' ty')) \<le> ?R" by simp
        moreover have "length (about_loan (notices s1) l' ty') \<le> Suc (length (about_loan (notices s) l' ty'))"
          using about_loan_set [of p "?data\<lparr>nt_status := st\<rparr>" "notices s" l' ty'] unfolding set by (simp split: if_splits)
        ultimately show ?thesis by simp
      next
        case False
        with about_loan_set [of p "?data\<lparr>nt_status := st\<rparr>" "notices s" l' ty'] set before
        show ?thesis by (auto simp: loan_notice_def split: if_splits)
      qed
    qed (use before in simp)
  qed
  moreover have "core_of (notices s') = core_of (notices s1)"
  proof (cases r1)
    case (Inr x)
    show ?thesis
    proof (cases x)
      case (Some pid)
      obtain s2 q where "dispatch_notifications cat moment False [pid] s1 = (s2, q)" by fastforce
      with assms(4) s1 Inr Some dispatch_core [of cat moment False "[pid]" s1] show ?thesis
        by (cases q) (auto simp: create_notification_resource_def split: if_splits)
    qed (use assms(4) s1 Inr in \<open>simp add: create_notification_resource_def\<close>)
  qed (use assms(4) s1 in \<open>simp add: create_notification_resource_def\<close>)
  ultimately show ?thesis using within_policy_core by blast
qed

lemma create_candidates_within:
  assumes "within_policy cat (notices s)" "\<forall>(l, ty) \<in> set cs. loan_of cat (l_pid l) = Some l"
    and "create_candidates cat dir disabled moment counter cs s = (s', r)"
  shows "within_policy cat (notices s')"
  using assms
proof (induction cs arbitrary: s s' r)
  case (Cons x cs)
  obtain l ty where x: "x = (l, ty)" by fastforce
  define step where "step = (case wanted_notice cat (notices s) counter l ty of
      Inl e \<Rightarrow> (s, Inl e)
    | Inr None \<Rightarrow> (s, Inr None)
    | Inr (Some k) \<Rightarrow> create_notification_resource cat dir disabled moment (loan_notice moment ty (l_pid l) k)
        (ty \<in> set INTERNAL_NOTIFICATIONS) s)"
  obtain s1 q where s1: "step = (s1, q)" by fastforce
  have w: "within_policy cat (notices s1)"
    using Cons.prems(1,2) s1 create_one_within [of cat s l counter ty]
    by (auto simp: step_def x split: sum.splits option.splits)
  obtain s2 t where s2: "create_candidates cat dir disabled moment counter cs s1 = (s2, t)" by fastforce
  from Cons.IH [OF w _ s2] Cons.prems(2) have "within_policy cat (notices s2)" by simp
  moreover from Cons.prems(3) have "then_do step (\<lambda>created s1.
      then_do (create_candidates cat dir disabled moment counter cs s1) (\<lambda>pids s2. (s2, Inr (option_list created @ pids))))
      = (s', r)" by (simp add: x step_def)
  ultimately show ?case using w s1 s2 by (cases q; cases t) auto
qed simp

inductive desk_step :: "catalogue \<Rightarrow> directory \<Rightarrow> notification_type list \<Rightarrow> office \<Rightarrow> office \<Rightarrow> bool"
  for cat dir disabled where
  creation: "loan_of cat (l_pid l) = Some l \<Longrightarrow>
    create_notification cat dir disabled moment trg ty counter l s = (s', r) \<Longrightarrow> desk_step cat dir disabled s s'"
| dispatch: "dispatch_notifications cat moment resend pids s = (s', r) \<Longrightarrow> desk_step cat dir disabled s s'"

lemma candidate_loans_in:
  "(co, t) \<in> set (candidate_loans cat l xs) \<Longrightarrow> co = l \<or> (\<exists>p. loan_of cat p = Some co)"
  by (induction xs) (auto simp: candidate_loans_def map_filter_simps split: option.splits if_splits)

lemma candidates_of_in:
  assumes "candidates_of cat ns trg l = Inr cs" "(co, t) \<in> set cs"
  shows "co = l \<or> (\<exists>p. loan_of cat p = Some co)"
proof -
  from assms(1) obtain xs where "cs = candidate_loans cat l xs"
    by (cases "item_of cat (l_item l)") (auto simp: candidates_of_def Let_def)
  with assms(2) candidate_loans_in show ?thesis by metis
qed

lemma desk_step_within:
  assumes "desk_step cat dir disabled s s'" "within_policy cat (notices s)"
    and "\<forall>p l. loan_of cat p = Some l \<longrightarrow> l_pid l = p"
  shows "within_policy cat (notices s')"
  using assms(1)
proof (cases rule: desk_step.cases)
  case (creation l moment trg ty counter r)
  have candidates: "\<forall>(co, t) \<in> set cs. loan_of cat (l_pid co) = Some co"
    if "candidates_of cat (notices s) trg l = Inr cs" for cs
    using candidates_of_in [OF that] creation(1) assms(3) by fast
  show ?thesis
  proof (cases ty)
    case (Some t)
    with creation(2) have "create_candidates cat dir disabled moment counter [(l, t)] s = (s', r)"
      by (simp only: create_notification_def option.case)
    from create_candidates_within [OF assms(2) _ this] creation(1) show ?thesis by simp
  next
    case None
    show ?thesis
    proof (cases "candidates_of cat (notices s) trg l")
      case (Inr cs)
      with None creation(2) have "create_candidates cat dir disabled moment counter cs s = (s', r)"
        by (simp add: create_notification_def)
      from create_candidates_within [OF assms(2) candidates [OF Inr] this] show ?thesis .
    qed (use None creation(2) assms(2) in \<open>simp add: create_notification_def\<close>)
  qed
next
  case (dispatch moment resend pids r)
  with dispatch_core [of cat moment resend pids s] have "core_of (notices s') = core_of (notices s)" by simp
  with assms(2) within_policy_core show ?thesis by blast
qed


section \<open>Samples and witnesses\<close>

text \<open>A digest without collisions: every part is spelled out with marks.\<close>

fun spell :: "string \<Rightarrow> string" where
  "spell [] = ''.''"
| "spell (c # cs) = CHR ''c'' # c # spell cs"

fun spell_parts :: "string option list \<Rightarrow> string" where
  "spell_parts [] = []"
| "spell_parts (None # xs) = CHR ''n'' # spell_parts xs"
| "spell_parts (Some s # xs) = CHR ''s'' # spell s @ spell_parts xs"

lemma spell_inject: "spell a @ u = spell b @ v \<Longrightarrow> a = b \<and> u = v"
proof (induction a arbitrary: b)
  case Nil
  then show ?case by (cases b) simp_all
next
  case (Cons c a)
  then show ?case by (cases b) auto
qed

lemma spell_parts_inject: "spell_parts xs = spell_parts ys \<Longrightarrow> xs = ys"
proof (induction xs arbitrary: ys rule: spell_parts.induct)
  case 1
  then show ?case by (cases ys rule: spell_parts.cases) simp_all
next
  case (2 xs)
  then show ?case by (cases ys rule: spell_parts.cases) auto
next
  case (3 s xs)
  then show ?case by (cases ys rule: spell_parts.cases) (auto dest: spell_inject)
qed

text \<open>Two loans of one patron, on items of one library.\<close>

definition sample_loan :: "string \<Rightarrow> string \<Rightarrow> loan" where
  "sample_loan p i =
     \<lparr>l_pid = p, l_state = Some ITEM_ON_LOAN, l_item = i, l_patron = ''p1'', pickup_location = None,
      transaction_location = Some ''loc1'', transaction_user = None, checkout_location = None,
      end_date = Some \<lparr>day = 737000, us = 0\<rparr>, last_end_date = None, due_soon_date = None,
      request_expire_date = None, request_start_date = None, transaction_date = Some \<lparr>day = 736970, us = 0\<rparr>,
      l_trigger = None, extension_count = None, to_anonymize = False, auto_extend = False\<rparr>"

definition sample_item :: item_card where
  "sample_item =
     \<lparr>it_location = ''loc1'', it_library = ''lib1'', it_organisation = ''org1'', it_status = ON_LOAN,
      it_negative_availability = False, it_temporary_type = None, it_holding_type = ''i1'',
      it_holding_location = ''loc1'', it_issue = False, it_vendor = None\<rparr>"

definition sample_catalogue :: "string option \<Rightarrow> catalogue" where
  "sample_catalogue library_email =
     \<lparr>loan_of = (\<lambda>p. if p = ''1'' then Some (sample_loan ''1'' ''i1'')
                     else if p = ''2'' then Some (sample_loan ''2'' ''i2'') else None),
      item_of = (\<lambda>p. if p = ''i1'' \<or> p = ''i2'' then Some sample_item else None),
      loans_of_item = (\<lambda>p. if p = ''i1'' then [sample_loan ''1'' ''i1'']
                           else if p = ''i2'' then [sample_loan ''2'' ''i2''] else []),
      location_of = (\<lambda>p. if p = ''loc1''
        then Some \<lparr>lc_name = ''hall'', lc_pickup_name = None, lc_library = ''lib1'', lc_organisation = ''org1'',
                   lc_email = None\<rparr> else None),
      library_of = (\<lambda>p. if p = ''lib1''
        then Some \<lparr>lb_name = ''library'', lb_email = library_email, lb_language = Some ''eng'', lb_settings = []\<rparr>
        else None),
      patron_of = (\<lambda>p. if p = ''p1''
        then Some \<lparr>pc_email = Some ''p1@x.org'', pc_additional_email = None, pc_channel = Some Email,
                   pc_language = Some ''eng'', pc_type = ''p1''\<rparr> else None),
      order_of = (\<lambda>p. None), policy_index = [sample_cipo], default_language = ''eng'',
      digest = spell_parts, uuid = (\<lambda>p. CHR ''u'' # p), rendering = (\<lambda>t cx. ''Subject'' @ [newline] @ ''body'')\<rparr>"

definition sample_moment :: stamp where
  "sample_moment = \<lparr>day = 737010, us = 0\<rparr>"

text \<open>Two recalls for the same patron, an availability that does not hold any more, a recall without a loan, and
  one that was processed before.\<close>

definition sample_office :: office where
  "sample_office =
     \<lparr>notices = [(''n1'', loan_notice sample_moment RECALL ''1'' None), (''n2'', loan_notice sample_moment RECALL ''2'' None),
                 (''n3'', loan_notice sample_moment AVAILABILITY ''1'' None),
                 (''n4'', loan_notice sample_moment RECALL ''9'' None),
                 (''n5'', processed_at sample_moment True Done (loan_notice sample_moment RECALL ''1'' None))],
      outbox = [], op_log = [],
      ledger_of = \<lparr>transactions = [], events = [], transaction_serial = 0, event_serial = 0\<rparr>, notice_serial = 5\<rparr>"

definition sample_pids :: "string list" where
  "sample_pids = [''n1'', ''n2'', ''n3'', ''n4'', ''n5'']"

definition sample_after :: office where
  "sample_after = fst (dispatch_notifications (sample_catalogue (Some ''lib@x.org'')) sample_moment False sample_pids sample_office)"

lemma sample_dispatch:
  "dispatch_notifications (sample_catalogue (Some ''lib@x.org'')) sample_moment False sample_pids sample_office
     = (sample_after, Inr \<lparr>cn_processed = 5, cn_sent = 2, cn_not_sent = 0, cn_errors = 1\<rparr>)"
proof -
  have "snd (dispatch_notifications (sample_catalogue (Some ''lib@x.org'')) sample_moment False sample_pids sample_office)
      = Inr \<lparr>cn_processed = 5, cn_sent = 2, cn_not_sent = 0, cn_errors = 1\<rparr>" by code_simp
  then show ?thesis by (simp add: sample_after_def prod_eq_iff)
qed

lemma sample_pids_distinct: "distinct sample_pids"
  by code_simp

theorem dispatch_accounts_for_all_witness:
  "length (with_fate (fate (sample_catalogue (Some ''lib@x.org'')) (notices sample_office) False) Failed
     (load sample_office sample_pids)) = 1
   \<and> dict_get (notices sample_after) ''n9'' = dict_get (notices sample_office) ''n9''"
proof -
  have "''n9'' \<notin> set sample_pids" by code_simp
  with dispatch_accounts_for_all [OF sample_pids_distinct sample_dispatch] show ?thesis by auto
qed

theorem mails_of_dispatch_witness:
  "\<exists>ms. outbox sample_after = ms \<and> distinct (concat (map m_notices ms))"
  using mails_of_dispatch [OF sample_pids_distinct sample_dispatch] by (simp add: sample_office_def)

theorem second_dispatch_is_silent_witness:
  "\<exists>c. dispatch_notifications (sample_catalogue (Some ''lib@x.org'')) sample_moment False sample_pids sample_after
     = (sample_after, Inr c) \<and> cn_sent c = 0"
  using second_dispatch_is_silent [OF sample_pids_distinct sample_dispatch] by blast

lemma sample_digest:
  "inj (digest (sample_catalogue e))" "\<forall>xs q. digest (sample_catalogue e) xs \<noteq> uuid (sample_catalogue e) q"
proof -
  show "inj (digest (sample_catalogue e))" by (rule injI) (simp add: sample_catalogue_def spell_parts_inject)
  have "spell_parts xs \<noteq> CHR ''u'' # q" for xs q by (cases xs rule: spell_parts.cases) simp_all
  then show "\<forall>xs q. digest (sample_catalogue e) xs \<noteq> uuid (sample_catalogue e) q"
    by (simp add: sample_catalogue_def)
qed

theorem mail_reaches_every_patron_witness:
  "get_recipients (sample_catalogue (Some ''lib@x.org'')) (loan_notice sample_moment RECALL ''2'' None) To
     = Inr (map Some (m_to (hd (outbox sample_after))))"
proof -
  let ?cat = "sample_catalogue (Some ''lib@x.org'')" and ?n = "loan_notice sample_moment RECALL ''2'' None"
  have m: "length (outbox sample_after) = 1" "m_notices (hd (outbox sample_after)) = [''n1'', ''n2'']"
    "outbox sample_office = []" "dict_get (notices sample_office) ''n2'' = Some ?n"
    "for_patron ?n \<and> get_communication_channel ?cat ?n = Inr (Some Email)"
    by code_simp+
  from mail_reaches_every_patron [OF sample_digest sample_pids_distinct sample_dispatch] m(3)
  have "\<forall>m \<in> set (outbox sample_after). \<forall>p \<in> set (m_notices m). \<exists>n. dict_get (notices sample_office) p = Some n
       \<and> (for_patron n \<and> get_communication_channel ?cat n = Inr (Some Email) \<longrightarrow>
            get_recipients ?cat n To = Inr (map Some (m_to m)))" by auto
  moreover from m(1) have "hd (outbox sample_after) \<in> set (outbox sample_after)" by (cases "outbox sample_after") auto
  ultimately show ?thesis using m(2,4,5) by fastforce
qed


section \<open>What the code does beside its comments\<close>

text \<open>A library without an e-mail address has no address to reply to. The check for a missing one does not see
  it, joining the addresses raises, and the whole dispatch ends: nothing is sent, and nothing is marked.\<close>

lemma library_without_email_aborts:
  "snd (dispatch_notifications (sample_catalogue None) sample_moment False [''n1''] sample_office) = Inl TypeError
   \<and> fst (dispatch_notifications (sample_catalogue None) sample_moment False [''n1''] sample_office) = sample_office"
  by (rule conjI; code_simp)

text \<open>The fallback of a booking to the transaction library is never reached without a pickup location.\<close>

lemma booking_without_pickup:
  "notice_loan cat n = Inr l \<Longrightarrow> pickup_location l = None \<Longrightarrow> booking_library cat n = Inl AttributeError"
  by (simp add: booking_library_def pickup_library_def notice_pickup_location_def lookup_def)

text \<open>A claim whose item is gone is meant to be cancelled; storing the cancellation fails, each time.\<close>

lemma claim_of_deleted_item_fails:
  assumes "class_of n = Claim_class" "nt_item n = Some p" "item_of cat p = None" "process_date n = None"
  shows "fate cat ns resend pid n = Failed"
proof -
  have i: "notice_item cat n = Inr None" using assms(1-3) by (simp add: notice_item_def notice_item_pid_def)
  then have "can_be_cancelled cat ns pid n = Inr (Some ''Item doesn't exists anymore'')"
    using assms(1) by (simp add: can_be_cancelled_def circulation_cancelled_def)
  moreover from i have "\<exists>e. validate_notice cat n = Inl e"
    using assms(1) by (simp add: validate_notice_def notice_validation_def claim_validation_def)
  ultimately show ?thesis using assms(4) by (auto simp: fate_def)
qed

text \<open>Two reminders of the same rank cancel each other, though none was sent.\<close>

lemma similar_reminders_cancel_each_other:
  "let n = loan_notice sample_moment OVERDUE ''1'' (Some 0); ns = [(''a'', n), (''b'', n)] in
   fate (sample_catalogue None) ns False ''a'' n = To_cancel \<and> fate (sample_catalogue None) ns False ''b'' n = To_cancel"
  by code_simp

text \<open>The address of the patron is never asked for in a recall or a reminder.\<close>

lemma address_never_included:
  "class_of n \<in> {Recall_class, Reminder_class} \<Longrightarrow> context_head cat n = Inr cx \<Longrightarrow> \<not> include_patron_address cx"
  by (auto simp: context_head_def patron_head_def and_then_eq_Inr no_context_def)

end
