(* ===== verification/Dates.thy ===== *)
theory Dates
  imports Calendar CircPolicy
begin

text \<open>
  Dates of the calendar: \<open>datetime.replace\<close>, \<open>strftime('%Y-%m-%d')\<close> and the function \<open>add_years\<close> of
  \<open>rero_ils/modules/utils.py\<close>. A \<open>stamp\<close> counts days; \<open>civil_of\<close> and \<open>ordinal\<close> convert between this
  number and year, month and day of the proleptic Gregorian calendar that Python uses.
\<close>

section \<open>The Gregorian calendar\<close>

record civil =
  year :: int
  month :: nat
  mday :: int

definition is_leap :: "int \<Rightarrow> bool" where
  "is_leap y \<longleftrightarrow> y mod 4 = 0 \<and> (y mod 100 \<noteq> 0 \<or> y mod 400 = 0)"

definition days_in_month :: "int \<Rightarrow> nat \<Rightarrow> int" where
  "days_in_month y m =
     (if m = 2 then (if is_leap y then 29 else 28) else if m \<in> {4, 6, 9, 11} then 30 else 31)"

definition days_before_year :: "int \<Rightarrow> int" where
  "days_before_year y = (y - 1) * 365 + (y - 1) div 4 - (y - 1) div 100 + (y - 1) div 400"

definition days_before_month :: "int \<Rightarrow> nat \<Rightarrow> int" where
  "days_before_month y m =
     [0, 31, 59, 90, 120, 151, 181, 212, 243, 273, 304, 334] ! (m - 1)
     + (if 2 < m \<and> is_leap y then 1 else 0)"

definition ordinal :: "civil \<Rightarrow> int" where
  "ordinal c = days_before_year (year c) + days_before_month (year c) (month c) + mday c"

definition civil_ok :: "civil \<Rightarrow> bool" where
  "civil_ok c \<longleftrightarrow> 1 \<le> month c \<and> month c \<le> 12 \<and> 1 \<le> mday c \<and> mday c \<le> days_in_month (year c) (month c)"

lemma div_pred:
  fixes k :: int
  assumes "0 < k"
  shows "y div k = (y - 1) div k + (if y mod k = 0 then 1 else 0)"
proof (cases "y mod k = 0")
  case True
  have "y - 1 = k * (y div k - 1) + (k - 1)"
    using True mult_div_mod_eq [of k y] by (simp add: algebra_simps)
  from int_div_pos_eq [OF this] assms have "(y - 1) div k = y div k - 1" by simp
  with True show ?thesis by simp
next
  case False
  have r: "0 \<le> y mod k" "y mod k < k" using assms by auto
  have "y - 1 = k * (y div k) + (y mod k - 1)" using mult_div_mod_eq [of k y] by simp
  from int_div_pos_eq [OF this] r False have "(y - 1) div k = y div k" by simp
  with False show ?thesis by simp
qed

lemma leap_count:
  fixes a b c :: int
  assumes "a' = a + (if P then 1 else 0)" "b' = b + (if Q then 1 else 0)" "c' = c + (if R then 1 else 0)"
    and "R \<Longrightarrow> Q" "Q \<Longrightarrow> P"
  shows "a' - b' + c' = a - b + c + (if P \<and> (\<not> Q \<or> R) then 1 else 0)"
  using assms by (cases P; cases Q; cases R) auto

lemma year_length: "days_before_year (y + 1) = days_before_year y + (if is_leap y then 366 else 365)"
proof -
  have dvd: "y mod k = 0" if "y mod l = 0" "k dvd l" for k l
    using that dvd_trans [of k l y] by (simp add: mod_eq_0_iff_dvd)
  have "y mod 400 = 0 \<Longrightarrow> y mod 100 = 0" "y mod 100 = 0 \<Longrightarrow> y mod 4 = 0"
    by (rule dvd [of 400 100], assumption, simp) (rule dvd [of 100 4], assumption, simp)
  note mods = this
  from leap_count [OF div_pred [of 4 y] div_pred [of 100 y] div_pred [of 400 y] mods]
  have "y div 4 - y div 100 + y div 400 = (y - 1) div 4 - (y - 1) div 100 + (y - 1) div 400
      + (if is_leap y then 1 else 0)" unfolding is_leap_def by (simp only: zero_less_numeral simp_thms)
  then show ?thesis
    by (simp only: days_before_year_def add_diff_cancel_right') (auto split: if_splits)
qed

text \<open>The year of a day is searched upwards from a lower bound, its month from January.\<close>

function year_from :: "int \<Rightarrow> int \<Rightarrow> int" where
  "year_from n y = (if n \<le> days_before_year (y + 1) then y else year_from n (y + 1))"
  by pat_completeness auto
termination
  by (relation "measure (\<lambda>(n, y). nat (n - days_before_year y))") (auto simp: year_length split: if_splits)

declare year_from.simps [simp del]

fun month_from :: "int \<Rightarrow> nat list \<Rightarrow> int \<Rightarrow> nat \<times> int" where
  "month_from y [] d = (12, d)"
| "month_from y (m # ms) d =
     (if ms = [] \<or> d \<le> days_in_month y m then (m, d) else month_from y ms (d - days_in_month y m))"

definition civil_of :: "int \<Rightarrow> civil" where
  "civil_of n =
     (let y = year_from n ((n - 1) div 366 + 1);
          (m, d) = month_from y [1, 2, 3, 4, 5, 6, 7, 8, 9, 10, 11, 12] (n - days_before_year y) in
      \<lparr>year = y, month = m, mday = d\<rparr>)"

lemma year_from_bounds:
  "days_before_year y < n \<Longrightarrow> days_before_year (year_from n y) < n \<and> n \<le> days_before_year (year_from n y + 1)"
proof (induction n y rule: year_from.induct)
  case (1 n y)
  then show ?case by (subst (1 2) year_from.simps) auto
qed

lemma days_before_year_bound:
  assumes "0 \<le> m"
  shows "days_before_year (m + 1) \<le> 366 * m"
proof -
  have "m div 4 \<le> m" "0 \<le> m div 100" "m div 400 \<le> m div 100" using assms by linarith+
  then show ?thesis by (simp add: days_before_year_def)
qed

lemma civil_of:
  assumes "0 < n"
  shows "ordinal (civil_of n) = n" "civil_ok (civil_of n)"
proof -
  define y where "y = year_from n ((n - 1) div 366 + 1)"
  have "366 * ((n - 1) div 366) \<le> n - 1" by simp
  then have "days_before_year ((n - 1) div 366 + 1) < n"
    using days_before_year_bound [of "(n - 1) div 366"] assms by (simp add: pos_imp_zdiv_nonneg_iff)
  from year_from_bounds [OF this] have b: "0 < n - days_before_year y"
    "n - days_before_year y \<le> (if is_leap y then 366 else 365)" by (auto simp: y_def year_length)
  obtain m d where md: "month_from y [1, 2, 3, 4, 5, 6, 7, 8, 9, 10, 11, 12] (n - days_before_year y) = (m, d)"
    by fastforce
  have c: "civil_of n = \<lparr>year = y, month = m, mday = d\<rparr>"
    using md by (simp add: civil_of_def y_def [symmetric])
  have "days_before_month y m + d = n - days_before_year y \<and> 1 \<le> m \<and> m \<le> 12 \<and> 1 \<le> d \<and> d \<le> days_in_month y m"
    using md b by (auto simp: days_before_month_def days_in_month_def split: if_splits)
  then show "ordinal (civil_of n) = n" "civil_ok (civil_of n)"
    by (simp_all add: c ordinal_def civil_ok_def)
qed

section \<open>Years later\<close>

text \<open>\<open>strftime('%Y-%m-%d')\<close>, for the years from 1000 on.\<close>

definition two_digits :: "nat \<Rightarrow> string" where
  "two_digits n = (if n < 10 then ''0'' else []) @ digits n"

definition iso_date :: "stamp \<Rightarrow> string" where
  "iso_date d = (let c = civil_of (day d) in
     show_int (year c) @ ''-'' @ two_digits (month c) @ ''-'' @ two_digits (nat (mday c)))"

definition add_years :: "stamp \<Rightarrow> int \<Rightarrow> py_error + stamp" where
  "add_years d n =
     (let c = civil_of (day d); y = year c + n in
      if y < 1 \<or> 9999 < y then Inl (ValueError ''year is out of range'')
      else if mday c \<le> days_in_month y (month c) then Inr (d\<lparr>day := ordinal (c\<lparr>year := y\<rparr>)\<rparr>)
      else Inr (d\<lparr>day := day d + (ordinal \<lparr>year = y, month = 1, mday = 1\<rparr>
                                - ordinal \<lparr>year = year c, month = 1, mday = 1\<rparr>)\<rparr>))"

lemma only_leap_day:
  assumes "civil_ok c" "\<not> mday c \<le> days_in_month y (month c)"
  shows "month c = 2 \<and> mday c = 29 \<and> is_leap (year c) \<and> \<not> is_leap y"
  using assms by (auto simp: civil_ok_def days_in_month_def split: if_splits)

text \<open>\<open>add_years\<close> keeps month and day; the 29th of February becomes the first of March where the year
  has none. The time of the day stays.\<close>

lemma add_years_date:
  assumes "add_years d n = Inr e" "1 \<le> day d"
  defines "c \<equiv> civil_of (day d)"
  shows "us e = us d"
    and "day e = ordinal (if mday c \<le> days_in_month (year c + n) (month c) then c\<lparr>year := year c + n\<rparr>
                          else \<lparr>year = year c + n, month = 3, mday = 1\<rparr>)"
proof -
  have ok: "ordinal c = day d" "civil_ok c" using civil_of [of "day d"] assms(2) by (simp_all add: c_def)
  show "us e = us d" using assms(1) by (auto simp: add_years_def Let_def split: if_splits)
  show "day e = ordinal (if mday c \<le> days_in_month (year c + n) (month c) then c\<lparr>year := year c + n\<rparr>
                          else \<lparr>year = year c + n, month = 3, mday = 1\<rparr>)"
  proof (cases "mday c \<le> days_in_month (year c + n) (month c)")
    case True
    then show ?thesis using assms(1) by (auto simp: add_years_def c_def [symmetric] Let_def split: if_splits)
  next
    case False
    from only_leap_day [OF ok(2) False]
    have l: "month c = 2" "mday c = 29" "is_leap (year c)" "\<not> is_leap (year c + n)" by auto
    have "day e = day d + (days_before_year (year c + n) - days_before_year (year c))"
      using assms(1) False
      by (auto simp: add_years_def c_def [symmetric] Let_def ordinal_def days_before_month_def split: if_splits)
    then show ?thesis using False ok(1) l by (simp add: ordinal_def days_before_month_def)
  qed
qed

lemma one_year_later:
  assumes "add_years d 1 = Inr e" "1 \<le> day d"
  shows "us e = us d" "day d + 365 \<le> day e" "day e \<le> day d + 366"
proof -
  define c where "c = civil_of (day d)"
  have ok: "ordinal c = day d" "civil_ok c" using civil_of [of "day d"] assms(2) by (simp_all add: c_def)
  note later = add_years_date [OF assms, folded c_def]
  show "us e = us d" by (rule later(1))
  have "\<not> (is_leap (year c) \<and> is_leap (year c + 1))" unfolding is_leap_def by presburger
  then have "day d + 365 \<le> day e \<and> day e \<le> day d + 366"
    using later(2) ok only_leap_day [OF ok(2), of "year c + 1"]
    by (auto simp: ordinal_def year_length days_before_month_def split: if_splits)
  then show "day d + 365 \<le> day e" "day e \<le> day d + 366" by auto
qed

end
