(* ===== verification/Registry.thy ===== *)
theory Registry
  imports Transactions Dates
begin

text \<open>
  The registry of patrons: creation, update and deletion of class \<open>Patron\<close> in
  \<open>rero_ils/modules/patrons/api.py\<close> with the roles of the user accounts, the listener that adds a
  subscription (\<open>patrons/listener.py\<close>), the tasks of \<open>patrons/tasks.py\<close> that renew subscriptions and
  delete inactive patrons, and the checks of references of \<open>rero_ils/modules/utils.py\<close>.

  The state has the patron records by pid, the user accounts by number and the ledger of the transactions. The
  search index is taken to be up to date, so that a search reads this state. What other modules
  know of a patron (its loans, templates and requests) and of patron types and libraries is the record
  \<open>environment\<close>. Each call of the listener reads the clock once; \<open>clock k\<close> is the reading of the call
  nested \<open>k\<close> deep.
\<close>

section \<open>References to other records\<close>

text \<open>A reference of a record: with a member \<open>pid\<close>, with a member \<open>$ref\<close>, or with neither.\<close>

datatype reference = With_pid string | With_ref string | Neither

text \<open>\<open>reference.get('pid') or reference.get('$ref').split(list_route)[1]\<close>, \<open>None\<close> when this raises.\<close>

definition reference_pid :: "string option \<Rightarrow> reference \<Rightarrow> string option" where
  "reference_pid list_route d =
     (case d of
        With_pid p \<Rightarrow> if p = [] then None else Some p
      | With_ref url \<Rightarrow>
          (case list_route of
             None \<Rightarrow> None
           | Some route \<Rightarrow> (case split_str route [] url of _ # p # _ \<Rightarrow> Some p | _ \<Rightarrow> None))
      | Neither \<Rightarrow> None)"

definition no_pid :: "string option \<Rightarrow> bool" where
  "no_pid p \<longleftrightarrow> (case p of None \<Rightarrow> True | Some x \<Rightarrow> x = [])"

text \<open>The messages for one key of the data. \<open>shown\<close> is how a reference prints.\<close>

definition key_messages ::
  "(string \<Rightarrow> string option) \<Rightarrow> (reference \<Rightarrow> string) \<Rightarrow> (string \<Rightarrow> string \<Rightarrow> bool) \<Rightarrow> string \<Rightarrow> bool
     \<Rightarrow> string \<Rightarrow> string \<Rightarrow> reference list \<Rightarrow> string list" where
  "key_messages list_route shown pid_exists info is_required pid_type key found =
     concat (map (\<lambda>d.
        let p = reference_pid (list_route pid_type) d in
        if no_pid p \<and> is_required then [info @ '': No pid found: '' @ pid_type @ '' '' @ shown d]
        else if \<not> no_pid p \<and> \<not> pid_exists pid_type (the p)
        then [info @ '': Pid does not exist: '' @ pid_type @ '' '' @ the p]
        else []) found)
     @ (if is_required \<and> found = [] then [info @ '': No data found: '' @ key] else [])"

definition pids_exists_in_data ::
  "(string \<Rightarrow> string option) \<Rightarrow> (reference \<Rightarrow> string) \<Rightarrow> (string \<Rightarrow> string \<Rightarrow> bool) \<Rightarrow> string
     \<Rightarrow> (string \<Rightarrow> reference list) \<Rightarrow> (string \<times> string list) list \<Rightarrow> (string \<times> string list) list \<Rightarrow> string list" where
  "pids_exists_in_data list_route shown pid_exists info data required not_required =
     (let tests = (\<lambda>is_required ts. concat (map (\<lambda>(pid_type, keys). concat (map (\<lambda>key.
            key_messages list_route shown pid_exists info is_required pid_type key (data key)) keys)) ts)) in
      tests True required @ tests False not_required)"

section \<open>The state\<close>

record account =
  ac_user :: nat
  ac_patron :: patron

record user_account =
  u_roles :: "string set"
  u_email :: "string option"
  u_birth :: civil
  u_current_login :: "stamp option"
  u_last_login :: "stamp option"

record registry =
  accounts :: "(string, account) dict"
  users :: "(nat, user_account) dict"
  money :: ledger

text \<open>\<open>operator\<close> is the current librarian, if any: whether it has full permissions.\<close>

record environment =
  type_of :: "string \<Rightarrow> (patron_type \<times> string) option"
  library_of :: "string \<Rightarrow> string option"
  known :: directory
  active_loans :: "string \<Rightarrow> nat"
  own_templates :: "string \<Rightarrow> nat"
  own_requests :: "string \<Rightarrow> nat"
  kept_history :: "string \<Rightarrow> nat"
  operator :: "bool option"

definition put_account :: "string \<Rightarrow> account \<Rightarrow> registry \<Rightarrow> registry" where
  "put_account p a r = r\<lparr>accounts := dict_set p a (accounts r)\<rparr>"

definition is_account :: "registry \<Rightarrow> string \<Rightarrow> bool" where
  "is_account r p \<longleftrightarrow> dict_get (accounts r) p \<noteq> None"

definition directory_of :: "environment \<Rightarrow> registry \<Rightarrow> directory" where
  "directory_of env r = (known env)\<lparr>knows_patron := is_account r\<rparr>"

section \<open>Searches for patrons\<close>

definition get_patrons_by_user :: "registry \<Rightarrow> nat \<Rightarrow> (string \<times> account) list" where
  "get_patrons_by_user r u = filter (\<lambda>(p, a). ac_user a = u) (accounts r)"

definition get_librarian_by_user :: "registry \<Rightarrow> nat \<Rightarrow> py_error + (string \<times> account) option" where
  "get_librarian_by_user r u =
     (case filter (\<lambda>(p, a). is_professional_user (ac_patron a)) (get_patrons_by_user r u) of
        [] \<Rightarrow> Inr None
      | [x] \<Rightarrow> Inr (Some x)
      | _ \<Rightarrow> Inl (ValueError ''more than one librarian account''))"

definition library_pids :: "patron \<Rightarrow> string list option" where
  "library_pids p = (if is_professional_user p then Some (p_libraries p) else None)"

definition library_pid :: "patron \<Rightarrow> string option" where
  "library_pid p = (case library_pids p of Some (l # _) \<Rightarrow> Some l | _ \<Rightarrow> None)"

definition patron_organisation :: "environment \<Rightarrow> patron \<Rightarrow> py_error + string option" where
  "patron_organisation env p =
     (case library_pid p of
        Some l \<Rightarrow> (case library_of env l of None \<Rightarrow> Inl AttributeError | Some og \<Rightarrow> Inr (Some og))
      | None \<Rightarrow>
          (case p_type p of
             Some t \<Rightarrow> (case type_of env t of None \<Rightarrow> Inl AttributeError | Some (ty, og) \<Rightarrow> Inr (Some og))
           | None \<Rightarrow> Inr None))"

definition in_organisation :: "environment \<Rightarrow> string \<Rightarrow> patron \<Rightarrow> bool" where
  "in_organisation env og p \<longleftrightarrow> patron_organisation env p = Inr (Some og)"

definition manageable_library_pids :: "(string \<Rightarrow> string list) \<Rightarrow> environment \<Rightarrow> patron \<Rightarrow> py_error + string list" where
  "manageable_library_pids libraries_of env p =
     (if ''pro_full_permissions'' \<in> set (roles p)
      then and_then (patron_organisation env p)
             (\<lambda>og. case og of None \<Rightarrow> Inl AttributeError | Some x \<Rightarrow> Inr (libraries_of x))
      else Inr (case library_pids p of None \<Rightarrow> [] | Some ls \<Rightarrow> ls))"

definition get_patron_by_barcode :: "environment \<Rightarrow> registry \<Rightarrow> string \<Rightarrow> string option \<Rightarrow> (string \<times> account) option" where
  "get_patron_by_barcode env r barcode org_pid =
     find (\<lambda>(p, a). barcode \<in> set (barcodes (ac_patron a))
       \<and> (case org_pid of None \<Rightarrow> True | Some og \<Rightarrow> og = [] \<or> in_organisation env og (ac_patron a)))
       (accounts r)"

text \<open>\<open>age\<close>, today given by its day.\<close>

definition age_of :: "civil \<Rightarrow> civil \<Rightarrow> int" where
  "age_of today birth =
     year today - year birth
     - (if month today < month birth \<or> (month today = month birth \<and> mday today < mday birth) then 1 else 0)"

section \<open>Links and reasons not to delete\<close>

definition count_link :: "string \<Rightarrow> nat \<Rightarrow> (string \<times> nat) list" where
  "count_link name n = (if n \<noteq> 0 then [(name, n)] else [])"

definition get_links_to_me :: "environment \<Rightarrow> registry \<Rightarrow> string \<Rightarrow> (string \<times> nat) list" where
  "get_links_to_me env r p =
     count_link ''loans'' (active_loans env p)
     @ count_link ''transactions'' (get_transactions_count_for_patron (money r) p (Some OPEN))
     @ count_link ''templates'' (own_templates env p)
     @ count_link ''ill_requests'' (own_requests env p)"

definition reasons_to_keep :: "environment \<Rightarrow> patron \<Rightarrow> bool" where
  "reasons_to_keep env p \<longleftrightarrow> operator env = Some False \<and> ''pro_full_permissions'' \<in> set (roles p)"

definition patron_can_delete :: "environment \<Rightarrow> registry \<Rightarrow> string \<Rightarrow> patron \<Rightarrow> bool" where
  "patron_can_delete env r p a \<longleftrightarrow> \<not> reasons_to_keep env a \<and> get_links_to_me env r p = []"

section \<open>Validation\<close>

definition taken_barcodes :: "environment \<Rightarrow> registry \<Rightarrow> string \<Rightarrow> string \<Rightarrow> patron \<Rightarrow> string list" where
  "taken_barcodes env r og p a =
     concat (map (\<lambda>(q, b). filter (\<lambda>c. c \<in> set (barcodes a)) (barcodes (ac_patron b)))
       (filter (\<lambda>(q, b). q \<noteq> p \<and> in_organisation env og (ac_patron b)) (accounts r)))"

definition barcode_message :: "string list \<Rightarrow> string option" where
  "barcode_message taken =
     (case taken of
        [] \<Rightarrow> None
      | [b] \<Rightarrow> Some (''Barcode '' @ b @ '' is already taken'')
      | _ \<Rightarrow> Some (''Barcodes '' @ join '', '' taken @ '' are already taken''))"

text \<open>\<open>extended_validation\<close>. A patron without an organisation is compared with nobody.\<close>

definition account_validation :: "environment \<Rightarrow> registry \<Rightarrow> string \<Rightarrow> patron \<Rightarrow> py_error + string option" where
  "account_validation env r p a =
     and_then (patron_organisation env a) (\<lambda>og.
       case (if barcodes a = [] then None
             else case og of None \<Rightarrow> None | Some x \<Rightarrow> barcode_message (taken_barcodes env r x p a)) of
         Some msg \<Rightarrow> Inr (Some msg)
       | None \<Rightarrow>
           Inr (if \<not> has_patron_role a
                  \<and> list_ex (\<lambda>(k, n). k = ''loans'' \<or> k = ''transactions'') (get_links_to_me env r p)
                then Some ''Patron has active loans or fees, cannot remove patron role'' else None))"

definition patron_pid_exists :: "environment \<Rightarrow> registry \<Rightarrow> string \<Rightarrow> string \<Rightarrow> bool" where
  "patron_pid_exists env r pid_type p \<longleftrightarrow>
     (if pid_type = ''ptty'' then type_of env p \<noteq> None
      else if pid_type = ''pttr'' then p \<in> set (map (\<lambda>(q, t). digits q) (transactions (money r)))
      else False)"

definition reference_messages ::
  "environment \<Rightarrow> registry \<Rightarrow> string \<Rightarrow> (string \<Rightarrow> reference list) \<Rightarrow> (string \<times> string list) list \<Rightarrow> string list" where
  "reference_messages env r p data required =
     pids_exists_in_data (\<lambda>t. None) (\<lambda>d. []) (patron_pid_exists env r) (''ptrn ('' @ p @ '')'') data required []"

definition type_messages :: "environment \<Rightarrow> registry \<Rightarrow> string \<Rightarrow> patron \<Rightarrow> string list" where
  "type_messages env r p a =
     reference_messages env r p (\<lambda>key. case p_type a of None \<Rightarrow> [] | Some t \<Rightarrow> [With_pid t]) [(''ptty'', [''type''])]"

definition subscription_messages :: "environment \<Rightarrow> registry \<Rightarrow> string \<Rightarrow> subscription \<Rightarrow> string list" where
  "subscription_messages env r p sub =
     reference_messages env r p
       (\<lambda>key. if key = ''patron_type'' then [With_pid (sub_type sub)]
              else if key = ''patron_transaction'' then [With_pid (digits (sub_transaction sub))] else [])
       [(''ptty'', [''patron_type'']), (''pttr'', [''patron_transaction''])]"

definition validate_account :: "environment \<Rightarrow> string \<Rightarrow> account \<Rightarrow> registry \<Rightarrow> py_error + unit" where
  "validate_account env p a r =
     and_then (account_validation env r p (ac_patron a)) (\<lambda>m.
       case m of
         Some msg \<Rightarrow> Inl (ValidationError msg)
       | None \<Rightarrow>
           (case dict_get (users r) (ac_user a) of
              None \<Rightarrow> Inl AttributeError
            | Some u \<Rightarrow>
                validate_patron (type_messages env r p (ac_patron a)) (\<lambda>l. library_of env l \<noteq> None)
                  (map (subscription_messages env r p) (subscriptions (ac_patron a))) (u_email u) (ac_patron a)))"

section \<open>Roles of the user\<close>

definition other_records :: "registry \<Rightarrow> string \<Rightarrow> nat \<Rightarrow> patron list" where
  "other_records r p u = map (\<lambda>(q, a). ac_patron a) (filter (\<lambda>(q, a). q \<noteq> p) (get_patrons_by_user r u))"

definition put_user :: "nat \<Rightarrow> user_account \<Rightarrow> registry \<Rightarrow> registry" where
  "put_user n u r = r\<lparr>users := dict_set n u (users r)\<rparr>"

definition sync_roles :: "string \<Rightarrow> account \<Rightarrow> registry \<Rightarrow> py_error + registry" where
  "sync_roles p a r =
     (case dict_get (users r) (ac_user a) of
        None \<Rightarrow> Inl AttributeError
      | Some u \<Rightarrow>
          Inr (put_user (ac_user a)
            (u\<lparr>u_roles := update_roles (ac_patron a) (other_records r p (ac_user a)) (u_roles u)\<rparr>) r))"

definition drop_roles :: "string \<Rightarrow> account \<Rightarrow> registry \<Rightarrow> registry" where
  "drop_roles p a r =
     (case dict_get (users r) (ac_user a) of
        None \<Rightarrow> r
      | Some u \<Rightarrow>
          put_user (ac_user a)
            (u\<lparr>u_roles := remove_roles (ac_patron a) (other_records r p (ac_user a)) (u_roles u)\<rparr>) r)"

section \<open>Creation, update and the subscription listener\<close>

text \<open>The condition of \<open>create_subscription_patron_transaction\<close>: the type to subscribe to.\<close>

definition missing_subscription :: "environment \<Rightarrow> stamp \<Rightarrow> patron \<Rightarrow> py_error + (string \<times> patron_type) option" where
  "missing_subscription env now a =
     (case p_type a of
        None \<Rightarrow> Inr None
      | Some t \<Rightarrow>
          (case type_of env t of
             None \<Rightarrow> Inl AttributeError
           | Some (ty, og) \<Rightarrow>
               Inr (if is_subscription_required ty \<and> \<not> has_valid_subscription now a (Some ty)
                    then Some (t, ty) else None)))"

text \<open>The first part of \<open>add_subscription\<close>: the fee, and the patron with the subscription. \<open>get_ref_for_pid\<close>
  of a missing organisation gives a reference to nothing, which the validation of the fee refuses.\<close>

definition midnight :: "stamp \<Rightarrow> stamp" where
  "midnight d = d\<lparr>us := 0\<rparr>"

definition in_us :: "stamp \<Rightarrow> int" where
  "in_us d = day d * us_per_day + us d"

definition charge_subscription ::
  "environment \<Rightarrow> stamp \<Rightarrow> string \<Rightarrow> string \<times> patron_type \<Rightarrow> account \<Rightarrow> registry \<Rightarrow> py_error + (account \<times> registry) option" where
  "charge_subscription env now p tt a r =
     and_then (add_years now 1) (\<lambda>ending.
     and_then (patron_organisation env (ac_patron a)) (\<lambda>og.
     and_then (create_subscription_for_patron (directory_of env r) (in_us now) p
                 (case og of None \<Rightarrow> [] | Some x \<Rightarrow> x) (snd tt) (iso_date now) (iso_date ending) (money r))
       (\<lambda>(fee, m).
         Inr (case fee of
            None \<Rightarrow> None
          | Some q \<Rightarrow>
              Some (a\<lparr>ac_patron := (ac_patron a)\<lparr>subscriptions := subscriptions (ac_patron a)
                        @ [\<lparr>sub_start = midnight now, sub_end = midnight ending,
                            sub_type = fst tt, sub_transaction = q\<rparr>]\<rparr>\<rparr>,
                    r\<lparr>money := m\<rparr>)))))"

definition clean_account :: "account \<Rightarrow> account" where
  "clean_account a = a\<lparr>ac_patron := clean_barcodes (ac_patron a)\<rparr>"

text \<open>\<open>Patron.update\<close>: validation and storage, then the listener, which updates the record once more when it
  added a subscription, then the roles.\<close>

fun update_account ::
  "nat \<Rightarrow> environment \<Rightarrow> (nat \<Rightarrow> stamp) \<Rightarrow> string \<Rightarrow> account \<Rightarrow> registry \<Rightarrow> py_error + registry" where
  "update_account 0 env clock p a r = Inl NoFuel"
| "update_account (Suc fuel) env clock p a r =
     (let b = clean_account a in
      and_then (validate_account env p b r) (\<lambda>_.
      let r1 = put_account p b r in
      and_then (missing_subscription env (clock 0) (ac_patron b)) (\<lambda>missing.
        case missing of
          None \<Rightarrow> sync_roles p b r1
        | Some tt \<Rightarrow>
            and_then (charge_subscription env (clock 0) p tt b r1) (\<lambda>charged.
              case charged of
                None \<Rightarrow> sync_roles p b r1
              | Some (c, r2) \<Rightarrow>
                  and_then (update_account fuel env (\<lambda>k. clock (Suc k)) p c r2) (sync_roles p c)))))"

definition create_account ::
  "nat \<Rightarrow> environment \<Rightarrow> (nat \<Rightarrow> stamp) \<Rightarrow> string \<Rightarrow> account \<Rightarrow> registry \<Rightarrow> py_error + registry" where
  "create_account fuel env clock p a r =
     (if is_account r p then Inl PidAlreadyUsed else update_account fuel env clock p a r)"

text \<open>\<open>Patron.delete\<close>: the roles go first, and are gone when the deletion is refused.\<close>

definition delete_account :: "environment \<Rightarrow> string \<Rightarrow> registry \<Rightarrow> registry \<times> (py_error + unit)" where
  "delete_account env p r =
     (case dict_get (accounts r) p of
        None \<Rightarrow> (r, Inl AttributeError)
      | Some a \<Rightarrow>
          let r1 = drop_roles p a r in
          if patron_can_delete env r1 p (ac_patron a)
          then (r1\<lparr>accounts := filter (\<lambda>(q, b). q \<noteq> p) (accounts r1)\<rparr>, Inr ())
          else (r1, Inl NotDeleted))"

text \<open>\<open>set_communication_channel\<close>: what the search for patrons of a user finds. A patron has the email of its
  user in the index, and a channel if it has the patron role.\<close>

definition has_email :: "user_account \<Rightarrow> patron \<Rightarrow> bool" where
  "has_email u a \<longleftrightarrow> u_email u \<noteq> None \<or> additional_email a \<noteq> None"

definition set_communication_channel :: "nat \<Rightarrow> registry \<Rightarrow> registry" where
  "set_communication_channel n r =
     (case dict_get (users r) n of
        None \<Rightarrow> r
      | Some u \<Rightarrow>
          r\<lparr>accounts := map (\<lambda>(p, a).
              (p, if ac_user a = n \<and> has_patron_role (ac_patron a) \<and> email_channel (ac_patron a) \<noteq> has_email u (ac_patron a)
                  then a\<lparr>ac_patron := (ac_patron a)\<lparr>email_channel := \<not> email_channel (ac_patron a)\<rparr>\<rparr> else a))
            (accounts r)\<rparr>)"

section \<open>The tasks\<close>

definition is_obsolete :: "stamp \<Rightarrow> subscription \<Rightarrow> bool" where
  "is_obsolete now s \<longleftrightarrow> earlier (sub_end s) now"

definition patrons_with_obsolete_subscription_pids :: "stamp \<Rightarrow> registry \<Rightarrow> string list" where
  "patrons_with_obsolete_subscription_pids now r =
     map fst (filter (\<lambda>(p, a). list_ex (\<lambda>s. day (sub_end s) < day now) (subscriptions (ac_patron a))) (accounts r))"

definition clean_subscriptions :: "stamp \<Rightarrow> account \<Rightarrow> account" where
  "clean_subscriptions now a =
     a\<lparr>ac_patron := (ac_patron a)\<lparr>subscriptions := filter (\<lambda>s. \<not> is_obsolete now s) (subscriptions (ac_patron a))\<rparr>\<rparr>"

fun clean_patrons :: "nat \<Rightarrow> environment \<Rightarrow> stamp \<Rightarrow> string list \<Rightarrow> registry \<Rightarrow> py_error + registry" where
  "clean_patrons fuel env now [] r = Inr r"
| "clean_patrons fuel env now (p # ps) r =
     (case dict_get (accounts r) p of
        None \<Rightarrow> Inl AttributeError
      | Some a \<Rightarrow>
          and_then (update_account fuel env (\<lambda>k. now) p (clean_subscriptions now a) r)
            (clean_patrons fuel env now ps))"

definition clean_obsolete_subscriptions :: "nat \<Rightarrow> environment \<Rightarrow> stamp \<Rightarrow> registry \<Rightarrow> py_error + registry" where
  "clean_obsolete_subscriptions fuel env now r =
     clean_patrons fuel env now (patrons_with_obsolete_subscription_pids now r) r"

definition get_patrons_without_subscription :: "string \<Rightarrow> registry \<Rightarrow> string list" where
  "get_patrons_without_subscription t r =
     map fst (filter (\<lambda>(p, a). p_type (ac_patron a) = Some t \<and> subscriptions (ac_patron a) = []) (accounts r))"

definition add_subscription ::
  "nat \<Rightarrow> environment \<Rightarrow> stamp \<Rightarrow> string \<times> patron_type \<Rightarrow> string \<Rightarrow> registry \<Rightarrow> py_error + registry" where
  "add_subscription fuel env now tt p r =
     (case dict_get (accounts r) p of
        None \<Rightarrow> Inl AttributeError
      | Some a \<Rightarrow>
          and_then (charge_subscription env now p tt a r) (\<lambda>charged.
            case charged of
              None \<Rightarrow> Inr r
            | Some (c, r2) \<Rightarrow> update_account fuel env (\<lambda>k. now) p c r2))"

fun fold_result :: "('a \<Rightarrow> 's \<Rightarrow> 'e + 's) \<Rightarrow> 'a list \<Rightarrow> 's \<Rightarrow> 'e + 's" where
  "fold_result f [] s = Inr s"
| "fold_result f (x # xs) s = and_then (f x s) (fold_result f xs)"

definition check_patron_types_and_add_subscriptions ::
  "nat \<Rightarrow> environment \<Rightarrow> stamp \<Rightarrow> (string \<times> patron_type) list \<Rightarrow> registry \<Rightarrow> py_error + registry" where
  "check_patron_types_and_add_subscriptions fuel env now types r =
     fold_result (\<lambda>tt s. fold_result (add_subscription fuel env now tt)
         (get_patrons_without_subscription (fst tt) s) s)
       (filter (\<lambda>tt. is_subscription_required (snd tt)) types) r"

definition task_clear_and_renew_subscriptions ::
  "nat \<Rightarrow> environment \<Rightarrow> stamp \<Rightarrow> (string \<times> patron_type) list \<Rightarrow> registry \<Rightarrow> py_error + registry" where
  "task_clear_and_renew_subscriptions fuel env now types r =
     and_then (clean_obsolete_subscriptions fuel env now r)
       (check_patron_types_and_add_subscriptions fuel env now types)"

section \<open>Deletion of inactive patrons\<close>

record cleanup_config =
  expiration_years :: int
  inactivity_years :: int
  excluded_patron_types :: "string list"

text \<open>The search of \<open>_delete_inactive_patrons_for_org\<close>. The cutoff is compared by its day.\<close>

definition cleanup_hit :: "environment \<Rightarrow> string \<Rightarrow> stamp \<Rightarrow> patron \<Rightarrow> bool" where
  "cleanup_hit env og expiration_cutoff a \<longleftrightarrow>
     in_organisation env og a \<and> has_patron_role a
     \<and> (case expiration a of None \<Rightarrow> False | Some d \<Rightarrow> day d < day expiration_cutoff)
     \<and> \<not> blocked a \<and> \<not> is_professional_user a"

definition last_login :: "user_account \<Rightarrow> stamp option" where
  "last_login u = (case u_current_login u of Some d \<Rightarrow> Some d | None \<Rightarrow> u_last_login u)"

definition recently_seen :: "stamp \<Rightarrow> user_account \<Rightarrow> bool" where
  "recently_seen cutoff u \<longleftrightarrow> (case last_login u of None \<Rightarrow> False | Some d \<Rightarrow> earlier cutoff d)"

text \<open>One hit: \<open>None\<close> when it is skipped.\<close>

definition cleanup_patron ::
  "environment \<Rightarrow> cleanup_config \<Rightarrow> stamp \<Rightarrow> bool \<Rightarrow> string \<Rightarrow> registry \<Rightarrow> py_error + registry option" where
  "cleanup_patron env cfg inactivity_cutoff dry_run p r =
     (case dict_get (accounts r) p of
        None \<Rightarrow> Inl AttributeError
      | Some a \<Rightarrow>
          (case p_type (ac_patron a) of
             None \<Rightarrow> Inl AttributeError
           | Some t \<Rightarrow>
               if t \<in> set (excluded_patron_types cfg) then Inr None
               else (case dict_get (users r) (ac_user a) of
                  None \<Rightarrow> Inl AttributeError
                | Some u \<Rightarrow>
                    if recently_seen inactivity_cutoff u then Inr None
                    else if get_links_to_me env r p \<noteq> [] then Inr None
                    else if kept_history env p \<noteq> 0 then Inr None
                    else if dry_run then Inr (Some r)
                    else (case delete_account env p r of
                            (r', Inl er) \<Rightarrow> Inl er
                          | (r', Inr x) \<Rightarrow> Inr (Some r')))))"

fun cleanup_loop ::
  "environment \<Rightarrow> cleanup_config \<Rightarrow> stamp \<Rightarrow> bool \<Rightarrow> string list \<Rightarrow> nat \<times> nat \<Rightarrow> registry
     \<Rightarrow> py_error + ((nat \<times> nat) \<times> registry)" where
  "cleanup_loop env cfg cutoff dry_run [] counts r = Inr (counts, r)"
| "cleanup_loop env cfg cutoff dry_run (p # ps) (deleted, skipped) r =
     and_then (cleanup_patron env cfg cutoff dry_run p r) (\<lambda>res.
       case res of
         None \<Rightarrow> cleanup_loop env cfg cutoff dry_run ps (deleted, Suc skipped) r
       | Some r' \<Rightarrow> cleanup_loop env cfg cutoff dry_run ps (Suc deleted, skipped) r')"

definition delete_inactive_patrons_for_org ::
  "environment \<Rightarrow> stamp \<Rightarrow> string \<Rightarrow> cleanup_config \<Rightarrow> bool \<Rightarrow> registry \<Rightarrow> py_error + ((nat \<times> nat) \<times> registry)" where
  "delete_inactive_patrons_for_org env now og cfg dry_run r =
     and_then (add_years now (- expiration_years cfg)) (\<lambda>expiration_cutoff.
     and_then (add_years now (- inactivity_years cfg)) (\<lambda>inactivity_cutoff.
       cleanup_loop env cfg inactivity_cutoff dry_run
         (map fst (filter (\<lambda>(p, a). cleanup_hit env og expiration_cutoff (ac_patron a)) (accounts r))) (0, 0) r))"

text \<open>The organisations with a configuration, in order, with their counts.\<close>

fun task_delete_inactive_patrons ::
  "environment \<Rightarrow> stamp \<Rightarrow> bool \<Rightarrow> (string \<times> cleanup_config option) list \<Rightarrow> registry
     \<Rightarrow> py_error + ((string \<times> nat \<times> nat) list \<times> registry)" where
  "task_delete_inactive_patrons env now dry_run [] r = Inr ([], r)"
| "task_delete_inactive_patrons env now dry_run ((og, None) # ogs) r =
     task_delete_inactive_patrons env now dry_run ogs r"
| "task_delete_inactive_patrons env now dry_run ((og, Some cfg) # ogs) r =
     and_then (delete_inactive_patrons_for_org env now og cfg dry_run r) (\<lambda>(counts, r').
     and_then (task_delete_inactive_patrons env now dry_run ogs r') (\<lambda>(rest, r'').
       Inr ((og, counts) # rest, r'')))"

end
