(* ===== verification/RegistryProperties.thy ===== *)
theory RegistryProperties
  imports Registry TransactionProperties
begin

text \<open>
  What the registry of patrons guarantees: the listener leaves a patron whose type asks for a subscription with
  a valid one and charges it once, the roles of a user are those of its records in every reachable state, and
  the cleanup deletes exactly the patrons that meet every criterion.
\<close>

section \<open>Storage\<close>

lemma put_account_get [simp]: "dict_get (accounts (put_account p a r)) q = (if q = p then Some a else dict_get (accounts r) q)"
  by (simp add: put_account_def)

lemma put_account_other [simp]: "users (put_account p a r) = users r" "money (put_account p a r) = money r"
  by (simp_all add: put_account_def)

lemma put_user_get [simp]: "dict_get (users (put_user n u r)) m = (if m = n then Some u else dict_get (users r) m)"
  by (simp add: put_user_def)

lemma put_user_other [simp]: "accounts (put_user n u r) = accounts r" "money (put_user n u r) = money r"
  by (simp_all add: put_user_def)

lemma sync_roles_Inr:
  "sync_roles p a r = Inr r' \<longleftrightarrow>
     (\<exists>u. dict_get (users r) (ac_user a) = Some u
        \<and> r' = put_user (ac_user a)
            (u\<lparr>u_roles := update_roles (ac_patron a) (other_records r p (ac_user a)) (u_roles u)\<rparr>) r)"
  by (auto simp: sync_roles_def split: option.splits)

lemma clean_account_same [simp]:
  "ac_user (clean_account a) = ac_user a" "roles (ac_patron (clean_account a)) = roles (ac_patron a)"
  "p_type (ac_patron (clean_account a)) = p_type (ac_patron a)"
  "subscriptions (ac_patron (clean_account a)) = subscriptions (ac_patron a)"
  by (simp_all add: clean_account_def clean_barcodes_def)

lemma has_valid_subscription_clean [simp]:
  "has_valid_subscription now (ac_patron (clean_account a)) t = has_valid_subscription now (ac_patron a) t"
  by (simp add: has_valid_subscription_def cong: option.case_cong)

section \<open>The subscription\<close>

definition subscription_fee :: "string \<Rightarrow> string \<Rightarrow> stamp \<Rightarrow> stamp \<Rightarrow> patron_type \<Rightarrow> transaction" where
  "subscription_fee p og now ending ty =
     \<lparr>t_type = SUBSCRIPTION_FEE, t_status = OPEN, t_total = map_option amount_of (subscription_amount ty),
      t_date = in_us now, t_patron = p, t_organisation = Some og, t_library = None, t_loan = None,
      t_notification = None, t_note = Some (tuple_text (iso_date now) @ ''-'' @ iso_date ending)\<rparr>"

lemma create_transaction_Inr:
  assumes "create_transaction dir t rq steps s = Inr (p, s')"
  shows "p = transaction_serial s" "transaction_serial s' = Suc p" "transactions s' = dict_set p t (transactions s)"
  using assms
  by (auto simp: create_transaction_def pre_create_def and_then_eq_Inr Let_def store_event_Inr)

lemma charge_subscription_Inr:
  assumes "charge_subscription env now p (t, ty) a r = Inr res" "is_subscription_required ty"
  shows "\<exists>ending og q m. res = Some (a\<lparr>ac_patron := (ac_patron a)\<lparr>subscriptions := subscriptions (ac_patron a)
        @ [\<lparr>sub_start = midnight now, sub_end = midnight ending, sub_type = t, sub_transaction = q\<rparr>]\<rparr>\<rparr>, r\<lparr>money := m\<rparr>)
    \<and> add_years now 1 = Inr ending \<and> q = transaction_serial (money r)
    \<and> transactions m = dict_set q (subscription_fee p og now ending ty) (transactions (money r))"
proof -
  from assms obtain ending og q m where ending: "add_years now 1 = Inr ending"
    and c: "create_transaction (directory_of env r) (subscription_fee p og now ending ty) None None (money r) = Inr (q, m)"
    and res: "res = Some (a\<lparr>ac_patron := (ac_patron a)\<lparr>subscriptions := subscriptions (ac_patron a)
        @ [\<lparr>sub_start = midnight now, sub_end = midnight ending, sub_type = t, sub_transaction = q\<rparr>]\<rparr>\<rparr>, r\<lparr>money := m\<rparr>)"
    by (auto simp: charge_subscription_def and_then_eq_Inr create_subscription_for_patron_def subscription_fee_def)
  show ?thesis
    using res ending create_transaction_Inr [OF c] by blast
qed

lemma new_subscription_valid:
  assumes "add_years now 1 = Inr ending" "1 \<le> day now" "0 < us now"
  shows "subscription_valid now \<lparr>sub_start = midnight now, sub_end = midnight ending, sub_type = t, sub_transaction = q\<rparr>"
  using one_year_later [OF assms(1,2)] assms(3) by (simp add: subscription_valid_def earlier_def midnight_def)

lemma valid_extended:
  assumes "subscription_valid now s"
  shows "has_valid_subscription now (a\<lparr>subscriptions := ss @ [s]\<rparr>) t"
  using assms by (auto simp: has_valid_subscription_def split: option.splits)

lemma missing_subscription_None:
  assumes "p_type a = Some t" "type_of env t = Some (ty, og)"
  shows "missing_subscription env now a =
     Inr (if is_subscription_required ty \<and> \<not> has_valid_subscription now a (Some ty) then Some (t, ty) else None)"
  using assms by (simp add: missing_subscription_def)

lemma sync_roles_keeps:
  assumes "sync_roles p a r = Inr r'"
  shows "accounts r' = accounts r" "money r' = money r"
  using assms by (auto simp: sync_roles_Inr)

lemma update_without_charge:
  assumes "update_account fuel env clock p a r = Inr r'"
    and "missing_subscription env (clock 0) (ac_patron (clean_account a)) = Inr None"
  shows "dict_get (accounts r') p = Some (clean_account a) \<and> money r' = money r"
  using assms by (cases fuel) (auto simp: and_then_eq_Inr Let_def dest: sync_roles_keeps)

lemma update_with_charge:
  assumes "update_account (Suc fuel) env clock p a r = Inr r'"
    and "missing_subscription env (clock 0) (ac_patron (clean_account a)) = Inr (Some tt)"
    and "charge_subscription env (clock 0) p tt (clean_account a) (put_account p (clean_account a) r) = Inr (Some (c, r2))"
  shows "\<exists>r3. update_account fuel env (\<lambda>k. clock (Suc k)) p c r2 = Inr r3 \<and> accounts r' = accounts r3 \<and> money r' = money r3"
  using assms by (auto simp: and_then_eq_Inr Let_def sync_roles_keeps)

text \<open>What the patron and the ledger look like after an update.\<close>

definition subscribed_once ::
  "stamp \<Rightarrow> string \<Rightarrow> string \<Rightarrow> patron_type \<Rightarrow> account \<Rightarrow> ledger \<Rightarrow> account \<Rightarrow> ledger \<Rightarrow> bool" where
  "subscribed_once now p t ty a m b m' \<longleftrightarrow>
     (\<exists>ending og. add_years now 1 = Inr ending
        \<and> subscriptions (ac_patron b) = subscriptions (ac_patron a)
            @ [\<lparr>sub_start = midnight now, sub_end = midnight ending, sub_type = t,
                sub_transaction = transaction_serial m\<rparr>]
        \<and> transactions m' = dict_set (transaction_serial m) (subscription_fee p og now ending ty) (transactions m))"

lemma subscription_kept_valid:
  assumes up: "update_account fuel env (\<lambda>k. now) p a r = Inr r'"
    and now: "1 \<le> day now" "0 < us now"
    and type: "p_type (ac_patron a) = Some t" "type_of env t = Some (ty, og)" "is_subscription_required ty"
  shows "\<exists>b. dict_get (accounts r') p = Some b \<and> has_valid_subscription now (ac_patron b) (Some ty)
     \<and> (if has_valid_subscription now (ac_patron a) (Some ty)
        then subscriptions (ac_patron b) = subscriptions (ac_patron a) \<and> money r' = money r
        else subscribed_once now p t ty a (money r) b (money r'))"
proof (cases "has_valid_subscription now (ac_patron a) (Some ty)")
  case True
  then have "missing_subscription env now (ac_patron (clean_account a)) = Inr None"
    using type by (simp add: missing_subscription_None)
  from update_without_charge [OF up this] True show ?thesis by auto
next
  case False
  let ?b = "clean_account a"
  from False have mis: "missing_subscription env now (ac_patron ?b) = Inr (Some (t, ty))"
    using type by (simp add: missing_subscription_None)
  from up obtain n where n: "fuel = Suc n" by (cases fuel) auto
  from up n mis obtain res where res: "charge_subscription env now p (t, ty) ?b (put_account p ?b r) = Inr res"
    by (auto simp: and_then_eq_Inr Let_def)
  from charge_subscription_Inr [OF this type(3)] obtain ending g q m c where
    c: "c = ?b\<lparr>ac_patron := (ac_patron ?b)\<lparr>subscriptions := subscriptions (ac_patron a)
        @ [\<lparr>sub_start = midnight now, sub_end = midnight ending, sub_type = t, sub_transaction = q\<rparr>]\<rparr>\<rparr>"
    and r2: "res = Some (c, put_account p ?b r\<lparr>money := m\<rparr>)"
    and ending: "add_years now 1 = Inr ending" and q: "q = transaction_serial (money r)"
    and m: "transactions m = dict_set q (subscription_fee p g now ending ty) (transactions (money r))"
    by auto
  from update_with_charge [OF up [unfolded n] mis res [unfolded r2]] obtain r3 where
    r3: "update_account n env (\<lambda>k. now) p c (put_account p ?b r\<lparr>money := m\<rparr>) = Inr r3"
      "accounts r' = accounts r3" "money r' = money r3" by auto
  have valid: "has_valid_subscription now (ac_patron (clean_account c)) (Some ty)"
    using valid_extended [OF new_subscription_valid [OF ending now]] by (simp add: c)
  have "missing_subscription env now (ac_patron (clean_account c)) = Inr None"
    using valid type by (subst missing_subscription_None) (auto simp: c)
  from update_without_charge [OF r3(1) this] r3(2,3)
  have "dict_get (accounts r') p = Some (clean_account c)" "money r' = m" by auto
  moreover have "subscribed_once now p t ty a (money r) (clean_account c) m"
    using ending m unfolding subscribed_once_def q by (auto simp: c q)
  ultimately show ?thesis using False valid by auto
qed


section \<open>Roles\<close>

text \<open>The roles that the records of a user give, and the invariant.\<close>

definition record_roles :: "registry \<Rightarrow> nat \<Rightarrow> string set" where
  "record_roles r n = {x. \<exists>p a. dict_get (accounts r) p = Some a \<and> ac_user a = n \<and> x \<in> set (roles (ac_patron a))}"

definition roles_ok :: "registry \<Rightarrow> bool" where
  "roles_ok r \<longleftrightarrow> distinct (map fst (accounts r))
     \<and> (\<forall>n u. dict_get (users r) n = Some u \<longrightarrow> u_roles u \<inter> set ALL_ROLES = record_roles r n \<inter> set ALL_ROLES)"

lemma roles_ok_user:
  "roles_ok r \<Longrightarrow> dict_get (users r) n = Some u \<Longrightarrow> u_roles u \<inter> set ALL_ROLES = record_roles r n \<inter> set ALL_ROLES"
  by (simp add: roles_ok_def)

lemma in_dict: "distinct (map fst d) \<Longrightarrow> (k, v) \<in> set d \<longleftrightarrow> dict_get d k = Some v"
  by (simp add: dict_get_def)

lemma other_records_roles:
  assumes "distinct (map fst (accounts r))"
  shows "set (concat (map roles (other_records r p n))) =
    {x. \<exists>q a. q \<noteq> p \<and> dict_get (accounts r) q = Some a \<and> ac_user a = n \<and> x \<in> set (roles (ac_patron a))}"
proof -
  have "set (concat (map roles (other_records r p n)))
      = {x. \<exists>(q, a) \<in> set (accounts r). q \<noteq> p \<and> ac_user a = n \<and> x \<in> set (roles (ac_patron a))}"
    by (force simp: other_records_def get_patrons_by_user_def)
  then show ?thesis unfolding in_dict [OF assms, symmetric] by blast
qed

lemma record_roles_split:
  assumes "distinct (map fst (accounts r))" "dict_get (accounts r) p = Some b" "ac_user b = n"
  shows "record_roles r n = set (roles (ac_patron b)) \<union> set (concat (map roles (other_records r p n)))"
proof -
  have "x \<in> record_roles r n \<longleftrightarrow> x \<in> set (roles (ac_patron b))
      \<or> (\<exists>q a. q \<noteq> p \<and> dict_get (accounts r) q = Some a \<and> ac_user a = n \<and> x \<in> set (roles (ac_patron a)))" for x
  proof
    assume "x \<in> record_roles r n"
    then obtain q a where "dict_get (accounts r) q = Some a" "ac_user a = n" "x \<in> set (roles (ac_patron a))"
      by (auto simp: record_roles_def)
    with assms(2) show "x \<in> set (roles (ac_patron b))
      \<or> (\<exists>q a. q \<noteq> p \<and> dict_get (accounts r) q = Some a \<and> ac_user a = n \<and> x \<in> set (roles (ac_patron a)))"
      by (cases "q = p") auto
  qed (use assms(2,3) in \<open>auto simp: record_roles_def\<close>)
  then show ?thesis unfolding other_records_roles [OF assms(1)] by blast
qed

lemma distinct_dict_set [simp]: "distinct (map fst (dict_set k v d)) = distinct (map fst d)"
  unfolding dict_set_def
proof
  show "distinct (map fst (AList.update k v d)) \<Longrightarrow> distinct (map fst d)"
    by (induction d) (auto simp: update_keys split: if_splits)
qed (simp add: distinct_update)

lemma update_roles_managed:
  "update_roles a others db \<inter> set ALL_ROLES = (set (roles a) \<union> set (concat (map roles others))) \<inter> set ALL_ROLES"
  using roles_follow_records [of a others db] by auto

text \<open>The invariant but for one user, and how the synchronisation restores it.\<close>

definition roles_ok_except :: "nat \<Rightarrow> registry \<Rightarrow> bool" where
  "roles_ok_except k r \<longleftrightarrow> distinct (map fst (accounts r))
     \<and> (\<forall>n u. n \<noteq> k \<longrightarrow> dict_get (users r) n = Some u \<longrightarrow> u_roles u \<inter> set ALL_ROLES = record_roles r n \<inter> set ALL_ROLES)"

lemma record_roles_users: "record_roles (put_user n u r) m = record_roles r m"
  by (simp add: record_roles_def)

lemma sync_roles_ok:
  assumes "sync_roles p a r = Inr r'" "roles_ok_except (ac_user a) r"
    and "dict_get (accounts r) p = Some b" "ac_user b = ac_user a" "roles (ac_patron b) = roles (ac_patron a)"
  shows "roles_ok r'"
proof -
  let ?new = "\<lambda>u. u\<lparr>u_roles := update_roles (ac_patron a) (other_records r p (ac_user a)) (u_roles u)\<rparr>"
  from assms(2) have d: "distinct (map fst (accounts r))" by (simp add: roles_ok_except_def)
  from assms(1) obtain u where u: "dict_get (users r) (ac_user a) = Some u" and r': "r' = put_user (ac_user a) (?new u) r"
    by (auto simp: sync_roles_Inr)
  have new: "u_roles (?new u) \<inter> set ALL_ROLES = record_roles r (ac_user a) \<inter> set ALL_ROLES"
    using update_roles_managed [of "ac_patron a" "other_records r p (ac_user a)" "u_roles u"]
    unfolding record_roles_split [OF d assms(3,4)] assms(5) by simp
  have "u_roles v \<inter> set ALL_ROLES = record_roles r' n \<inter> set ALL_ROLES" if "dict_get (users r') n = Some v" for n v
    using that new assms(2) unfolding r' record_roles_users by (cases "n = ac_user a") (simp_all add: roles_ok_except_def)
  with d show ?thesis by (simp add: roles_ok_def r')
qed

lemma roles_ok_any: "roles_ok r \<Longrightarrow> roles_ok_except n r"
  by (simp add: roles_ok_def roles_ok_except_def)

lemma record_roles_put:
  assumes "dict_get (accounts r) p = None \<or> (\<exists>b. dict_get (accounts r) p = Some b \<and> ac_user b = ac_user a)" "n \<noteq> ac_user a"
  shows "record_roles (put_account p a r) n = record_roles r n"
proof -
  have "dict_get (accounts (put_account p a r)) q = Some b \<and> ac_user b = n
      \<longleftrightarrow> dict_get (accounts r) q = Some b \<and> ac_user b = n" for q b
    using assms by (cases "q = p") auto
  then show ?thesis unfolding record_roles_def by (metis (no_types, lifting))
qed

lemma put_account_ok:
  assumes "dict_get (accounts r) p = None \<or> (\<exists>b. dict_get (accounts r) p = Some b \<and> ac_user b = ac_user a)"
    and "roles_ok_except (ac_user a) r"
  shows "roles_ok_except (ac_user a) (put_account p a r)"
  using assms(2) record_roles_put [OF assms(1)] by (simp add: roles_ok_except_def) (simp add: put_account_def)

lemma money_ok: "roles_ok_except n (r\<lparr>money := m\<rparr>) = roles_ok_except n r"
  by (simp add: roles_ok_except_def record_roles_def)

lemma charge_subscription_shape:
  assumes "charge_subscription env now p tt a r = Inr (Some (c, r2))"
  shows "ac_user c = ac_user a \<and> roles (ac_patron c) = roles (ac_patron a) \<and> (\<exists>m. r2 = r\<lparr>money := m\<rparr>)"
  using assms by (auto simp: charge_subscription_def and_then_eq_Inr split: option.splits) blast+

definition owned :: "registry \<Rightarrow> string \<Rightarrow> nat \<Rightarrow> bool" where
  "owned r p n \<longleftrightarrow> (case dict_get (accounts r) p of None \<Rightarrow> True | Some b \<Rightarrow> ac_user b = n)"

lemma update_account_ok:
  assumes "update_account fuel env clock p a r = Inr r'"
    and "owned r p (ac_user a)" and "roles_ok_except (ac_user a) r"
  shows "roles_ok r' \<and> (\<exists>b. dict_get (accounts r') p = Some b \<and> ac_user b = ac_user a
      \<and> roles (ac_patron b) = roles (ac_patron a))"
  using assms
proof (induction fuel arbitrary: clock a r r')
  case 0
  then show ?case by simp
next
  case (Suc fuel)
  let ?b = "clean_account a" and ?r1 = "put_account p (clean_account a) r"
  have ok: "roles_ok_except (ac_user a) ?r1"
    using put_account_ok [of r p ?b] Suc.prems(2,3) by (auto simp: owned_def split: option.splits)
  from Suc.prems(1) consider (same) "sync_roles p ?b ?r1 = Inr r'"
    | (more) tt c r2 r3 where "charge_subscription env (clock 0) p tt ?b ?r1 = Inr (Some (c, r2))"
        "update_account fuel env (\<lambda>k. clock (Suc k)) p c r2 = Inr r3" "sync_roles p c r3 = Inr r'"
    by (auto simp: and_then_eq_Inr Let_def split: option.splits)
  then show ?case
  proof cases
    case same
    from sync_roles_ok [OF this, of ?b] ok sync_roles_keeps(1) [OF same] show ?thesis by simp
  next
    case more
    from charge_subscription_shape [OF more(1)] obtain m where
      c: "ac_user c = ac_user a" "roles (ac_patron c) = roles (ac_patron a)" "r2 = ?r1\<lparr>money := m\<rparr>" by auto
    have own: "owned r2 p (ac_user c)" "roles_ok_except (ac_user c) r2"
      using ok by (simp_all add: c owned_def money_ok)
    from Suc.IH [OF more(2) own] obtain b where
      b: "roles_ok r3" "dict_get (accounts r3) p = Some b" "ac_user b = ac_user c" "roles (ac_patron b) = roles (ac_patron c)"
      by auto
    from sync_roles_ok [OF more(3) roles_ok_any [OF b(1)] b(2-4)] b sync_roles_keeps(1) [OF more(3)] c
    show ?thesis by auto
  qed
qed


lemma dict_get_without:
  "dict_get (filter (\<lambda>(q, b). q \<noteq> p) d) q = (if q = p then None else dict_get d q)"
  unfolding dict_get_def by (induction d) auto

lemma distinct_filter_keys: "distinct (map fst d) \<Longrightarrow> distinct (map fst (filter P d))"
  by (simp add: distinct_map inj_on_def)

text \<open>A deletion that is not refused.\<close>

lemma delete_account_Inr:
  assumes "delete_account env p r = (r', Inr x)"
  shows "\<exists>a. dict_get (accounts r) p = Some a \<and> r' = drop_roles p a r\<lparr>accounts := filter (\<lambda>(q, b). q \<noteq> p) (accounts r)\<rparr>"
proof -
  from assms obtain a where a: "dict_get (accounts r) p = Some a"
    by (auto simp: delete_account_def split: option.splits)
  have "accounts (drop_roles p a r) = accounts r" by (simp add: drop_roles_def split: option.splits)
  with assms a show ?thesis by (auto simp: delete_account_def Let_def split: if_splits)
qed

lemma drop_roles_same [simp]: "accounts (drop_roles p a r) = accounts r" "money (drop_roles p a r) = money r"
  by (simp_all add: drop_roles_def split: option.splits)

lemma drop_roles_logins:
  "map_option last_login (dict_get (users (drop_roles p a r)) n) = map_option last_login (dict_get (users r) n)"
  by (auto simp: drop_roles_def last_login_def split: option.splits)

lemma remove_roles_managed:
  assumes "db \<inter> A = (set (roles a) \<union> set (concat (map roles others))) \<inter> A"
  shows "remove_roles a others db \<inter> A = set (concat (map roles others)) \<inter> A"
  using roles_follow_records [of a others db] assms by auto

lemma delete_account_ok:
  assumes "delete_account env p r = (r', Inr x)" "roles_ok r"
  shows "roles_ok r'"
proof -
  from delete_account_Inr [OF assms(1)] obtain a where a: "dict_get (accounts r) p = Some a"
    and r': "r' = drop_roles p a r\<lparr>accounts := filter (\<lambda>(q, b). q \<noteq> p) (accounts r)\<rparr>" by auto
  let ?n = "ac_user a"
  have d: "distinct (map fst (accounts r))" using assms(2) by (simp add: roles_ok_def)
  have other: "record_roles r' m = record_roles r m" if "m \<noteq> ?n" for m
  proof -
    have "dict_get (accounts r') q = Some b \<and> ac_user b = m \<longleftrightarrow> dict_get (accounts r) q = Some b \<and> ac_user b = m" for q b
      using a that by (cases "q = p") (auto simp: r' dict_get_without)
    then show ?thesis unfolding record_roles_def by (metis (no_types, lifting))
  qed
  have own: "record_roles r' ?n = set (concat (map roles (other_records r p ?n)))"
    unfolding other_records_roles [OF d] record_roles_def by (auto simp: r' dict_get_without split: if_splits)
  have "u_roles v \<inter> set ALL_ROLES = record_roles r' m \<inter> set ALL_ROLES" if v: "dict_get (users r') m = Some v" for m v
  proof (cases "m = ?n")
    case False
    with v have "dict_get (users r) m = Some v" by (auto simp: r' drop_roles_def split: option.splits)
    with assms(2) other [OF False] show ?thesis by (simp add: roles_ok_def)
  next
    case True
    with v obtain u where u: "dict_get (users r) ?n = Some u"
      "v = u\<lparr>u_roles := remove_roles (ac_patron a) (other_records r p ?n) (u_roles u)\<rparr>"
      by (auto simp: r' drop_roles_def split: option.splits)
    from remove_roles_managed [OF roles_ok_user [OF assms(2) u(1), unfolded record_roles_split [OF d a refl]]]
    show ?thesis by (simp add: True own u(2))
  qed
  moreover have "distinct (map fst (accounts r'))" using d by (simp add: r' distinct_filter_keys)
  ultimately show ?thesis by (simp add: roles_ok_def)
qed

section \<open>The tasks\<close>

lemma clean_patrons_ok: "clean_patrons fuel env now ps r = Inr r' \<Longrightarrow> roles_ok r \<Longrightarrow> roles_ok r'"
proof (induction ps arbitrary: r)
  case Nil
  then show ?case by simp
next
  case (Cons p ps)
  then obtain a r1 where a: "dict_get (accounts r) p = Some a"
    and up: "update_account fuel env (\<lambda>k. now) p (clean_subscriptions now a) r = Inr r1"
    and rest: "clean_patrons fuel env now ps r1 = Inr r'"
    by (auto simp: and_then_eq_Inr split: option.splits)
  have "owned r p (ac_user (clean_subscriptions now a))" using a by (simp add: owned_def clean_subscriptions_def)
  from update_account_ok [OF up this roles_ok_any [OF Cons.prems(2)]] Cons.IH [OF rest] show ?case by simp
qed

lemma add_subscription_ok:
  assumes "add_subscription fuel env now tt p r = Inr r'" "roles_ok r"
  shows "roles_ok r'"
proof -
  from assms(1) obtain a where a: "dict_get (accounts r) p = Some a"
    by (auto simp: add_subscription_def split: option.splits)
  from assms(1) a consider "r' = r"
    | c r2 where "charge_subscription env now p tt a r = Inr (Some (c, r2))" "update_account fuel env (\<lambda>k. now) p c r2 = Inr r'"
    by (auto simp: add_subscription_def and_then_eq_Inr split: option.splits)
  then show ?thesis
  proof cases
    case 1
    with assms(2) show ?thesis by simp
  next
    case 2
    from charge_subscription_shape [OF 2(1)] obtain m where c: "ac_user c = ac_user a" "r2 = r\<lparr>money := m\<rparr>" by auto
    have "owned r2 p (ac_user c)" "roles_ok_except (ac_user c) r2"
      using a roles_ok_any [OF assms(2)] by (simp_all add: c owned_def money_ok)
    from update_account_ok [OF 2(2) this] show ?thesis by simp
  qed
qed

lemma fold_result_invariant:
  "fold_result f xs s = Inr s' \<Longrightarrow> I s \<Longrightarrow> (\<And>x s s'. f x s = Inr s' \<Longrightarrow> I s \<Longrightarrow> I s') \<Longrightarrow> I s'"
  by (induction xs arbitrary: s) (auto simp: and_then_eq_Inr)

lemma renewal_ok:
  assumes "task_clear_and_renew_subscriptions fuel env now types r = Inr r'" "roles_ok r"
  shows "roles_ok r'"
proof -
  from assms(1) obtain r1 where r1: "clean_obsolete_subscriptions fuel env now r = Inr r1"
    and r': "check_patron_types_and_add_subscriptions fuel env now types r1 = Inr r'"
    by (auto simp: task_clear_and_renew_subscriptions_def and_then_eq_Inr)
  have ok: "roles_ok r1" using r1 assms(2) clean_patrons_ok by (auto simp: clean_obsolete_subscriptions_def)
  show ?thesis
    using r' [unfolded check_patron_types_and_add_subscriptions_def] ok
  proof (rule fold_result_invariant)
    fix tt s s'
    assume "fold_result (add_subscription fuel env now tt) (get_patrons_without_subscription (fst tt) s) s = Inr s'" "roles_ok s"
    then show "roles_ok s'" by (rule fold_result_invariant) (rule add_subscription_ok)
  qed
qed

text \<open>The criteria of the cleanup, spelled out.\<close>

definition inactive :: "environment \<Rightarrow> cleanup_config \<Rightarrow> stamp \<Rightarrow> registry \<Rightarrow> string \<Rightarrow> account \<Rightarrow> bool" where
  "inactive env cfg cutoff r p a \<longleftrightarrow>
     (\<exists>t. p_type (ac_patron a) = Some t \<and> t \<notin> set (excluded_patron_types cfg))
     \<and> (\<exists>u. dict_get (users r) (ac_user a) = Some u \<and> \<not> recently_seen cutoff u)
     \<and> active_loans env p = 0 \<and> get_transactions_count_for_patron (money r) p (Some OPEN) = 0
     \<and> own_templates env p = 0 \<and> own_requests env p = 0 \<and> kept_history env p = 0"

lemma get_links_to_me_Nil:
  "get_links_to_me env r p = [] \<longleftrightarrow> active_loans env p = 0 \<and> own_templates env p = 0 \<and> own_requests env p = 0
     \<and> get_transactions_count_for_patron (money r) p (Some OPEN) = 0"
  by (auto simp: get_links_to_me_def count_link_def)

lemma cleanup_patron_Inr:
  assumes "cleanup_patron env cfg cutoff dry p r = Inr res"
  shows "\<exists>a. dict_get (accounts r) p = Some a
     \<and> (if inactive env cfg cutoff r p a
        then (if dry then res = Some r else \<exists>r' x. delete_account env p r = (r', Inr x) \<and> res = Some r')
        else res = None)"
proof -
  from assms obtain a where a: "dict_get (accounts r) p = Some a"
    by (auto simp: cleanup_patron_def split: option.splits)
  show ?thesis
    using assms a unfolding cleanup_patron_def inactive_def get_links_to_me_Nil
    by (intro exI [of _ a]) (auto split: option.splits if_splits prod.splits sum.splits)
qed

lemma inactive_after:
  assumes "money r' = money r" "\<And>n. map_option last_login (dict_get (users r') n) = map_option last_login (dict_get (users r) n)"
  shows "inactive env cfg cutoff r' p a = inactive env cfg cutoff r p a"
proof -
  have "(\<exists>u. dict_get (users r') (ac_user a) = Some u \<and> \<not> recently_seen cutoff u)
      = (\<exists>u. dict_get (users r) (ac_user a) = Some u \<and> \<not> recently_seen cutoff u)"
    using assms(2) [of "ac_user a"] unfolding recently_seen_def
    by (cases "dict_get (users r') (ac_user a)"; cases "dict_get (users r) (ac_user a)") auto
  then show ?thesis unfolding inactive_def assms(1) by simp
qed

lemma cleanup_loop_exact:
  assumes "cleanup_loop env cfg cutoff False ps (d, s) r = Inr ((d', s'), r')" "distinct ps"
    and "\<And>p. p \<in> set ps \<Longrightarrow> \<exists>a. dict_get (accounts r) p = Some a"
  shows "accounts r' = filter (\<lambda>(p, a). \<not> (p \<in> set ps \<and> inactive env cfg cutoff r p (the (dict_get (accounts r) p)))) (accounts r)
    \<and> d' = d + length (filter (\<lambda>p. inactive env cfg cutoff r p (the (dict_get (accounts r) p))) ps)
    \<and> d' + s' = d + s + length ps \<and> money r' = money r \<and> (roles_ok r \<longrightarrow> roles_ok r')"
  using assms
proof (induction ps arbitrary: d s r)
  case Nil
  then show ?case by simp
next
  case (Cons p ps)
  from Cons.prems(1) obtain res where res: "cleanup_patron env cfg cutoff False p r = Inr res"
    and rest: "(case res of None \<Rightarrow> cleanup_loop env cfg cutoff False ps (d, Suc s) r
       | Some r' \<Rightarrow> cleanup_loop env cfg cutoff False ps (Suc d, s) r') = Inr ((d', s'), r')"
    by (auto simp: and_then_eq_Inr)
  from cleanup_patron_Inr [OF res] obtain a where a: "dict_get (accounts r) p = Some a"
    and res': "if inactive env cfg cutoff r p a
        then \<exists>r' x. delete_account env p r = (r', Inr x) \<and> res = Some r' else res = None"
    by (simp only: if_False) blast
  have ps: "distinct ps" "p \<notin> set ps" using Cons.prems(2) by auto
  show ?case
  proof (cases "inactive env cfg cutoff r p a")
    case False
    with res' rest have "cleanup_loop env cfg cutoff False ps (d, Suc s) r = Inr ((d', s'), r')" by simp
    from Cons.IH [OF this ps(1)] Cons.prems(3) False a show ?thesis
      by (auto intro!: filter_cong)
  next
    case True
    with res' obtain r1 x where del: "delete_account env p r = (r1, Inr x)" "res = Some r1" by auto
    from delete_account_Inr [OF del(1)] a have
      r1: "r1 = drop_roles p a r\<lparr>accounts := filter (\<lambda>(q, b). q \<noteq> p) (accounts r)\<rparr>" by auto
    have get: "dict_get (accounts r1) q = dict_get (accounts r) q" if "q \<noteq> p" for q
      using that by (simp add: r1 dict_get_without)
    have same: "inactive env cfg cutoff r1 q b = inactive env cfg cutoff r q b" for q b
      by (rule inactive_after) (simp_all add: r1 drop_roles_logins)
    from del(2) rest have loop: "cleanup_loop env cfg cutoff False ps (Suc d, s) r1 = Inr ((d', s'), r')" by simp
    have "\<exists>b. dict_get (accounts r1) q = Some b" if "q \<in> set ps" for q
      using Cons.prems(3) [of q] that ps(2) get [of q] by (cases "q = p") auto
    note ih = Cons.IH [OF loop ps(1) this, unfolded same]
    have ne: "q \<in> set ps \<Longrightarrow> q \<noteq> p" for q using ps(2) by auto
    define A where "A = (\<lambda>(q, b :: account). \<not> (q \<in> set ps \<and> inactive env cfg cutoff r q (the (dict_get (accounts r1) q))))"
    have "accounts r' = filter A (accounts r1)" using ih unfolding A_def by blast
    also have "accounts r1 = filter (\<lambda>(q, b). q \<noteq> p) (accounts r)" by (simp add: r1)
    also have "filter A \<dots>
      = filter (\<lambda>(q, b). \<not> (q \<in> set (p # ps) \<and> inactive env cfg cutoff r q (the (dict_get (accounts r) q)))) (accounts r)"
      using True a get ne unfolding filter_filter A_def by (intro filter_cong) auto
    finally have acc: "accounts r' = filter (\<lambda>(q, b). \<not> (q \<in> set (p # ps)
        \<and> inactive env cfg cutoff r q (the (dict_get (accounts r) q)))) (accounts r)" .
    have "filter (\<lambda>q. inactive env cfg cutoff r q (the (dict_get (accounts r1) q))) ps
        = filter (\<lambda>q. inactive env cfg cutoff r q (the (dict_get (accounts r) q))) ps"
      using ne get by (intro filter_cong) auto
    then have "d' = d + length (filter (\<lambda>q. inactive env cfg cutoff r q (the (dict_get (accounts r) q))) (p # ps))"
      using ih True a by simp
    moreover have "d' + s' = d + s + length (p # ps)" "money r' = money r" using ih by (simp_all add: r1)
    moreover have "roles_ok r \<longrightarrow> roles_ok r'" using delete_account_ok [OF del(1)] ih by simp
    ultimately show ?thesis using acc by blast
  qed
qed

lemma cleanup_dry: "cleanup_loop env cfg cutoff True ps c r = Inr (c', r') \<Longrightarrow> r' = r"
proof (induction ps arbitrary: c)
  case Nil
  then show ?case by simp
next
  case (Cons p ps)
  obtain d s where c: "c = (d, s)" by (cases c)
  from Cons.prems c obtain res where res: "cleanup_patron env cfg cutoff True p r = Inr res"
    and rest: "(case res of None \<Rightarrow> cleanup_loop env cfg cutoff True ps (d, Suc s) r
       | Some r1 \<Rightarrow> cleanup_loop env cfg cutoff True ps (Suc d, s) r1) = Inr (c', r')"
    by (auto simp: and_then_eq_Inr)
  from cleanup_patron_Inr [OF res] have "res = None \<or> res = Some r" by (auto split: if_splits)
  with rest Cons.IH show ?case by auto
qed

lemma cleanup_keys:
  assumes "distinct (map fst d)"
  shows "distinct (map fst (filter P d))" "p \<in> set (map fst (filter P d)) \<Longrightarrow> \<exists>a. dict_get d p = Some a"
  using assms by (auto simp: distinct_filter_keys dict_get_def)

lemma cleanup_ok:
  assumes "delete_inactive_patrons_for_org env now og cfg dry r = Inr (c, r')" "roles_ok r"
  shows "roles_ok r'"
proof -
  obtain d' s' where c: "c = (d', s')" by (cases c)
  have d: "distinct (map fst (accounts r))" using assms(2) by (simp add: roles_ok_def)
  from assms(1) obtain ec ic where loop: "cleanup_loop env cfg ic dry
      (map fst (filter (\<lambda>(p, a). cleanup_hit env og ec (ac_patron a)) (accounts r))) (0, 0) r = Inr ((d', s'), r')"
    by (auto simp: delete_inactive_patrons_for_org_def and_then_eq_Inr c)
  show ?thesis
  proof (cases dry)
    case True
    with cleanup_dry loop assms(2) show ?thesis by (metis (full_types))
  next
    case False
    then have "dry = False" by simp
    from cleanup_loop_exact [OF loop [unfolded this] cleanup_keys [OF d]] assms(2) show ?thesis by simp
  qed
qed

lemma channel_ok: "roles_ok r \<Longrightarrow> roles_ok (set_communication_channel n r)"
proof -
  assume ok: "roles_ok r"
  show "roles_ok (set_communication_channel n r)"
  proof (cases "dict_get (users r) n")
    case None
    with ok show ?thesis by (simp add: set_communication_channel_def)
  next
    case (Some u)
    define f where "f = (\<lambda>a :: account. if ac_user a = n \<and> has_patron_role (ac_patron a) \<and> email_channel (ac_patron a) \<noteq> has_email u (ac_patron a)
       then a\<lparr>ac_patron := (ac_patron a)\<lparr>email_channel := \<not> email_channel (ac_patron a)\<rparr>\<rparr> else a)"
    have f: "ac_user (f a) = ac_user a" "roles (ac_patron (f a)) = roles (ac_patron a)" for a by (simp_all add: f_def)
    have r': "set_communication_channel n r = r\<lparr>accounts := map (\<lambda>(p, a). (p, f a)) (accounts r)\<rparr>"
      using Some by (simp add: set_communication_channel_def f_def)
    have get: "dict_get (map (\<lambda>(p, a). (p, f a)) d) q = map_option f (dict_get d q)" for d q
      unfolding dict_get_def by (induction d) auto
    have "record_roles (set_communication_channel n r) m = record_roles r m" for m
      unfolding record_roles_def r' by (force simp: get f)
    moreover have "map fst (map (\<lambda>(p, a). (p, f a)) (accounts r)) = map fst (accounts r)" by auto
    ultimately show ?thesis using ok by (simp add: roles_ok_def r' del: map_map)
  qed
qed

section \<open>Reachable registries\<close>

text \<open>What the application and its tasks do to the registry, when it does not raise. An update keeps the user of
  the record, and a deletion that raises is not a step: both would break the invariant, see below.\<close>

inductive registry_step :: "registry \<Rightarrow> registry \<Rightarrow> bool" where
  creation: "create_account fuel env clock p a r = Inr r' \<Longrightarrow> registry_step r r'"
| modification: "update_account fuel env clock p a r = Inr r' \<Longrightarrow> dict_get (accounts r) p = Some b
    \<Longrightarrow> ac_user b = ac_user a \<Longrightarrow> registry_step r r'"
| deletion: "delete_account env p r = (r', Inr x) \<Longrightarrow> registry_step r r'"
| renewal: "task_clear_and_renew_subscriptions fuel env now types r = Inr r' \<Longrightarrow> registry_step r r'"
| cleanup: "delete_inactive_patrons_for_org env now og cfg dry r = Inr (c, r') \<Longrightarrow> registry_step r r'"
| channel: "registry_step r (set_communication_channel n r)"

lemma registry_step_ok: "registry_step r r' \<Longrightarrow> roles_ok r \<Longrightarrow> roles_ok r'"
proof (induction rule: registry_step.induct)
  case (creation fuel env clock p a r r')
  then have "update_account fuel env clock p a r = Inr r'" "owned r p (ac_user a)"
    by (auto simp: create_account_def is_account_def owned_def split: if_splits)
  from update_account_ok [OF this roles_ok_any [OF creation(2)]] show ?case by simp
next
  case (modification fuel env clock p a r r' b)
  then have "owned r p (ac_user a)" by (simp add: owned_def)
  from update_account_ok [OF modification(1) this roles_ok_any [OF modification(4)]] show ?case by simp
next
  case (channel r n)
  then show ?case by (rule channel_ok)
qed (auto intro: delete_account_ok renewal_ok cleanup_ok)

lemma registry_steps_ok: "registry_step\<^sup>*\<^sup>* r r' \<Longrightarrow> roles_ok r \<Longrightarrow> roles_ok r'"
  by (induction rule: rtranclp_induct) (auto intro: registry_step_ok)

lemma same_part: "A \<inter> C = B \<inter> C \<Longrightarrow> x \<in> C \<Longrightarrow> x \<in> A \<longleftrightarrow> x \<in> B"
  by blast

section \<open>Nested updates\<close>

text \<open>The listener calls itself at most once, as the new subscription is valid: two calls are enough.\<close>

lemma update_fuel:
  assumes "missing_subscription env (clock 0) (ac_patron (clean_account a)) = Inr None"
  shows "update_account (Suc n) env clock p a r = update_account 1 env clock p a r"
  using assms by (simp add: Let_def)

lemma charged_is_valid:
  assumes "charge_subscription env now p (t, ty) a r = Inr (Some (c, r2))" "1 \<le> day now" "0 < us now"
    and "missing_subscription env now (ac_patron a) = Inr (Some (t, ty))"
  shows "missing_subscription env now (ac_patron (clean_account c)) = Inr None"
proof -
  from assms(4) obtain og where type: "p_type (ac_patron a) = Some t" "type_of env t = Some (ty, og)" "is_subscription_required ty"
    by (auto simp: missing_subscription_def split: option.splits if_splits)
  from charge_subscription_Inr [OF assms(1) type(3)] obtain ending q where
    c: "c = a\<lparr>ac_patron := (ac_patron a)\<lparr>subscriptions := subscriptions (ac_patron a)
        @ [\<lparr>sub_start = midnight now, sub_end = midnight ending, sub_type = t, sub_transaction = q\<rparr>]\<rparr>\<rparr>"
    and ending: "add_years now 1 = Inr ending" by auto
  have "has_valid_subscription now (ac_patron (clean_account c)) (Some ty)"
    using valid_extended [OF new_subscription_valid [OF ending assms(2,3)]] by (simp add: c)
  then show ?thesis using type by (subst missing_subscription_None) (auto simp: c)
qed

lemma two_calls:
  assumes "1 \<le> day now" "0 < us now"
  shows "update_account (Suc (Suc n)) env (\<lambda>k. now) p a r = update_account (Suc (Suc 0)) env (\<lambda>k. now) p a r"
proof -
  have inner: "update_account (Suc n) env (\<lambda>k. now) p c r2 = update_account (Suc 0) env (\<lambda>k. now) p c r2"
    if "missing_subscription env now (ac_patron (clean_account a)) = Inr (Some tt)"
      "charge_subscription env now p tt (clean_account a) r1 = Inr (Some (c, r2))" for tt c r1 r2
  proof -
    obtain t ty where tt: "tt = (t, ty)" by (cases tt)
    from charged_is_valid [OF that(2) [unfolded tt] assms that(1) [unfolded tt]]
    show ?thesis using update_fuel [of env "\<lambda>k. now" c n p r2] by simp
  qed
  show ?thesis
    unfolding update_account.simps(2) [of "Suc n"] update_account.simps(2) [of "Suc 0"] Let_def
    by (intro and_then_cong refl) (auto intro!: and_then_cong simp: inner simp del: update_account.simps split: option.split)
qed


section \<open>The behaviour of an example\<close>

text \<open>A user with two records, the second one asking for a subscription of 10.00 a year.\<close>

definition sample_type :: patron_type where
  "sample_type = \<lparr>subscription_amount = Some 1000, checkout_limits = None, request_limits = None,
     overdue_items_limit = None, fee_amount_limit = None, unpaid_subscription = True\<rparr>"

definition sample_directory :: directory where
  "sample_directory = \<lparr>knows_patron = \<lambda>p. False, knows_organisation = \<lambda>og. og = ''org'', knows_library = \<lambda>l. False,
     knows_notification = \<lambda>n. False, library_of_loan = \<lambda>l. None, library_of_notification = \<lambda>n. None\<rparr>"

definition sample_environment :: environment where
  "sample_environment = \<lparr>type_of = (\<lambda>t. if t = ''adult'' then Some (sample_type, ''org'') else None),
     library_of = (\<lambda>l. if l = ''lib'' then Some ''org'' else None), known = sample_directory,
     active_loans = (\<lambda>p. if p = ''p3'' then 1 else 0), own_templates = \<lambda>p. 0, own_requests = \<lambda>p. 0,
     kept_history = \<lambda>p. 0, operator = None\<rparr>"

definition sample_reader :: patron where
  "sample_reader = \<lparr>roles = [''patron''], blocked = False, blocked_note = None,
     expiration = Some \<lparr>day = 730000, us = 0\<rparr>, subscriptions = [], p_libraries = [], p_type = Some ''adult'',
     email_channel = False, additional_email = None, barcodes = ['' 42 '']\<rparr>"

definition sample_librarian :: patron where
  "sample_librarian = sample_reader\<lparr>roles := [''pro_read_only''], p_libraries := [''lib''], p_type := None, barcodes := []\<rparr>"

definition sample_user :: user_account where
  "sample_user = \<lparr>u_roles = {}, u_email = None, u_birth = \<lparr>year = 1990, month = 5, mday = 1\<rparr>,
     u_current_login = None, u_last_login = None\<rparr>"

definition sample_registry :: registry where
  "sample_registry = \<lparr>accounts = [], users = [(1, sample_user), (2, sample_user)], money = empty_ledger\<rparr>"

definition sample_noon :: stamp where
  "sample_noon = \<lparr>day = 738580, us = 43200000000\<rparr>"

definition sample_account :: "nat \<Rightarrow> patron \<Rightarrow> account" where
  "sample_account n a = \<lparr>ac_user = n, ac_patron = a\<rparr>"

text \<open>The fee of the reader and the registry with it, written out.\<close>

definition sample_end :: stamp where
  "sample_end = \<lparr>day = 738946, us = 43200000000\<rparr>"

definition sample_fee :: transaction where
  "sample_fee = subscription_fee ''p2'' ''org'' sample_noon sample_end sample_type"

definition sample_ledger :: ledger where
  "sample_ledger = \<lparr>transactions = [(1, sample_fee)], events = [(1, base_data_patron_event 1 sample_fee None)],
     transaction_serial = 2, event_serial = 2\<rparr>"

definition sample_subscribed :: account where
  "sample_subscribed = (clean_account (sample_account 1 sample_reader))\<lparr>ac_patron :=
     (ac_patron (clean_account (sample_account 1 sample_reader)))\<lparr>subscriptions :=
       subscriptions (ac_patron (clean_account (sample_account 1 sample_reader)))
       @ [\<lparr>sub_start = midnight sample_noon, sub_end = midnight sample_end, sub_type = ''adult'', sub_transaction = 1\<rparr>]\<rparr>\<rparr>"

definition sample_stored :: registry where
  "sample_stored = put_account ''p2'' (clean_account (sample_account 1 sample_reader)) sample_registry"

definition sample_charged :: registry where
  "sample_charged = sample_stored\<lparr>money := sample_ledger\<rparr>"

lemma subscription_fee_created:
  assumes "subscription_amount ty = Some n" "0 < n" "n \<le> max_cents"
    and "knows_patron dir p" "knows_organisation dir og"
  shows "create_transaction dir (subscription_fee p og now ending ty) None None s =
    Inr (transaction_serial s,
      s\<lparr>events := dict_set (event_serial s) (base_data_patron_event (transaction_serial s) (subscription_fee p og now ending ty) None) (events s),
        event_serial := Suc (event_serial s),
        transactions := dict_set (transaction_serial s) (subscription_fee p og now ending ty) (transactions s),
        transaction_serial := Suc (transaction_serial s)\<rparr>)"
proof -
  let ?t = "subscription_fee p og now ending ty"
  let ?e = "base_data_patron_event (transaction_serial s) ?t None"
  have total: "t_total ?t = Some (amount_of n)" using assms(1) by (simp add: subscription_fee_def)
  have "data_overdue dir (data_operator_event ?e None) ?t = Inr ?e"
    by (simp add: data_overdue_def data_operator_event_def subscription_fee_def)
  moreover have "check_amount (ev_amount ?e) = Inr ()"
    using two_decimals_amount_of assms(2,3) by (simp add: check_amount_def base_data_patron_event_def total)
  moreover have "validate_event dir (\<lambda>q. q = transaction_serial s \<or> is_transaction s q) ?e = Inr ()"
    using assms(1,2) by (simp add: validate_event_Inr event_schema_def base_data_patron_event_def total amount_of_sign
        one_of_def fee_subtypes_def exists_if_given_def subscription_fee_def)
  moreover have "validate_transaction dir ?t = Inr ()"
    using assms(2,4,5) total
    by (simp add: validate_transaction_Inr exists_if_given_def amount_of_sign) (simp add: subscription_fee_def)
  ultimately show ?thesis
    by (simp add: create_transaction_def pre_create_def store_event_def Let_def)
qed

lemma charge_subscriptionI:
  assumes "add_years now 1 = Inr ending" "patron_organisation env (ac_patron a) = Inr (Some og)"
    and "is_subscription_required ty"
    and "create_transaction (directory_of env r) (subscription_fee p og now ending ty) None None (money r) = Inr (q, m)"
  shows "charge_subscription env now p (t, ty) a r =
    Inr (Some (a\<lparr>ac_patron := (ac_patron a)\<lparr>subscriptions := subscriptions (ac_patron a)
        @ [\<lparr>sub_start = midnight now, sub_end = midnight ending, sub_type = t, sub_transaction = q\<rparr>]\<rparr>\<rparr>, r\<lparr>money := m\<rparr>))"
  using assms by (simp add: charge_subscription_def create_subscription_for_patron_def subscription_fee_def)

lemma dict_set_keys: "dict_get d k = Some x \<Longrightarrow> map fst (dict_set k v d) = map fst d"
  by (force simp: dict_set_def update_keys dict_get_def dest: map_of_SomeD)

lemma sync_rolesI:
  assumes "dict_get (users r) (ac_user a) \<noteq> None"
  shows "\<exists>r'. sync_roles p a r = Inr r' \<and> map fst (users r') = map fst (users r)"
  using assms by (auto simp: sync_roles_def put_user_def dict_set_keys)

lemma update_account_plainI:
  assumes "validate_account env p (clean_account a) r = Inr ()"
    and "missing_subscription env (clock 0) (ac_patron (clean_account a)) = Inr None"
    and "dict_get (users r) (ac_user a) \<noteq> None"
  shows "\<exists>r'. update_account (Suc n) env clock p a r = Inr r' \<and> map fst (users r') = map fst (users r)"
  using assms sync_rolesI [of "put_account p (clean_account a) r" "clean_account a" p] by (simp add: Let_def)

lemma update_account_chargedI:
  assumes "validate_account env p (clean_account a) r = Inr ()"
    and "missing_subscription env (clock 0) (ac_patron (clean_account a)) = Inr (Some tt)"
    and "charge_subscription env (clock 0) p tt (clean_account a) (put_account p (clean_account a) r) = Inr (Some (c, r2))"
    and "update_account n env (\<lambda>k. clock (Suc k)) p c r2 = Inr r3" "sync_roles p c r3 = Inr r4"
  shows "update_account (Suc n) env clock p a r = Inr r4"
  using assms by (simp add: Let_def)

lemma sample_charge:
  "charge_subscription sample_environment sample_noon ''p2'' (''adult'', sample_type)
     (clean_account (sample_account 1 sample_reader)) sample_stored = Inr (Some (sample_subscribed, sample_charged))"
  unfolding sample_subscribed_def sample_charged_def
proof (rule charge_subscriptionI)
  show "add_years sample_noon 1 = Inr sample_end" by code_simp
  show "patron_organisation sample_environment (ac_patron (clean_account (sample_account 1 sample_reader))) = Inr (Some ''org'')"
    by code_simp
  show "is_subscription_required sample_type" by code_simp
  show "create_transaction (directory_of sample_environment sample_stored)
      (subscription_fee ''p2'' ''org'' sample_noon sample_end sample_type) None None (money sample_stored) = Inr (1, sample_ledger)"
  proof (subst subscription_fee_created [where n = 1000])
    show "knows_patron (directory_of sample_environment sample_stored) ''p2''"
      "knows_organisation (directory_of sample_environment sample_stored) ''org''" by code_simp+
  qed (simp_all add: sample_type_def max_cents_def sample_ledger_def sample_fee_def sample_stored_def
      sample_registry_def empty_ledger_def put_account_def dict_set_def)
qed

text \<open>The validation of a patron reads the pids of the transactions only.\<close>

lemma validate_account_money:
  assumes "has_patron_role (ac_patron a)" "map fst (transactions m) = map fst (transactions m')"
  shows "validate_account env p a (r\<lparr>money := m\<rparr>) = validate_account env p a (r\<lparr>money := m'\<rparr>)"
proof -
  have "map (\<lambda>(q, t). digits q) d = map digits (map fst d)" for d :: "(nat \<times> transaction) list" by auto
  then have "patron_pid_exists env (r\<lparr>money := m\<rparr>) = patron_pid_exists env (r\<lparr>money := m'\<rparr>)"
    using assms(2) by (intro ext) (simp add: patron_pid_exists_def del: map_map)
  then have msgs: "subscription_messages env (r\<lparr>money := m\<rparr>) p = subscription_messages env (r\<lparr>money := m'\<rparr>) p"
    "type_messages env (r\<lparr>money := m\<rparr>) p = type_messages env (r\<lparr>money := m'\<rparr>) p"
    by (intro ext, simp add: subscription_messages_def type_messages_def reference_messages_def)+
  have "taken_barcodes env (r\<lparr>money := m\<rparr>) = taken_barcodes env (r\<lparr>money := m'\<rparr>)"
    by (simp add: fun_eq_iff taken_barcodes_def)
  then have "account_validation env (r\<lparr>money := m\<rparr>) p (ac_patron a) = account_validation env (r\<lparr>money := m'\<rparr>) p (ac_patron a)"
    unfolding account_validation_def using assms(1) by (simp cong del: option.case_cong_weak if_weak_cong)
  with msgs show ?thesis by (simp add: validate_account_def cong del: option.case_cong_weak)
qed

definition sample_light :: ledger where
  "sample_light = \<lparr>transactions = [(1, \<lparr>t_type = SUBSCRIPTION_FEE, t_status = OPEN, t_total = None, t_date = 0,
     t_patron = [], t_organisation = None, t_library = None, t_loan = None, t_notification = None, t_note = None\<rparr>)],
     events = [], transaction_serial = 1, event_serial = 1\<rparr>"

lemma sample_creation:
  "\<exists>r. create_account 2 sample_environment (\<lambda>k. sample_noon) ''p2'' (sample_account 1 sample_reader) sample_registry = Inr r
     \<and> update_account 2 sample_environment (\<lambda>k. sample_noon) ''p2'' (sample_account 1 sample_reader) sample_registry = Inr r
     \<and> map fst (users r) = [1, 2]"
proof -
  have "validate_account sample_environment ''p2'' (clean_account sample_subscribed) (sample_stored\<lparr>money := sample_light\<rparr>) = Inr ()"
    "has_patron_role (ac_patron (clean_account sample_subscribed))" by code_simp+
  then have valid: "validate_account sample_environment ''p2'' (clean_account sample_subscribed) sample_charged = Inr ()"
    using validate_account_money [of "clean_account sample_subscribed" sample_ledger sample_light]
    by (simp add: sample_charged_def sample_ledger_def sample_light_def)
  have "missing_subscription sample_environment sample_noon (ac_patron (clean_account sample_subscribed)) = Inr None"
    "dict_get (users sample_stored) (ac_user sample_subscribed) \<noteq> None" by code_simp+
  then have "missing_subscription sample_environment sample_noon (ac_patron (clean_account sample_subscribed)) = Inr None"
    "dict_get (users sample_charged) (ac_user sample_subscribed) \<noteq> None" by (simp_all add: sample_charged_def)
  from update_account_plainI [where clock = "\<lambda>k. sample_noon", OF valid this, of 0] obtain r3 where
    r3: "update_account (Suc 0) sample_environment (\<lambda>k. sample_noon) ''p2'' sample_subscribed sample_charged = Inr r3"
    "map fst (users r3) = map fst (users sample_charged)" by auto
  have "map fst (users sample_stored) = [1, 2]" "ac_user sample_subscribed = 1" by code_simp+
  then have "map fst (users sample_charged) = [1, 2]" "ac_user sample_subscribed = 1" by (simp_all add: sample_charged_def)
  with r3(2) have keys: "map fst (users r3) = [1, 2]" "dict_get (users r3) (ac_user sample_subscribed) \<noteq> None"
    by (simp, force simp: dict_get_def map_of_eq_None_iff)
  from sync_rolesI [OF this(2)] keys(1) obtain r4 where
    r4: "sync_roles ''p2'' sample_subscribed r3 = Inr r4" "map fst (users r4) = [1, 2]" by metis
  have "validate_account sample_environment ''p2'' (clean_account (sample_account 1 sample_reader)) sample_registry = Inr ()"
    "missing_subscription sample_environment sample_noon (ac_patron (clean_account (sample_account 1 sample_reader)))
      = Inr (Some (''adult'', sample_type))" by code_simp+
  from update_account_chargedI [where clock = "\<lambda>k. sample_noon", OF this sample_charge [unfolded sample_stored_def] r3(1) r4(1)]
  have up: "update_account 2 sample_environment (\<lambda>k. sample_noon) ''p2'' (sample_account 1 sample_reader) sample_registry = Inr r4"
    by (simp add: numeral_2_eq_2)
  moreover have "\<not> is_account sample_registry ''p2''" by code_simp
  ultimately show ?thesis using r4(2) by (simp add: create_account_def)
qed


definition sample_old :: registry where
  "sample_old = \<lparr>accounts = [(''p1'', sample_account 1 sample_librarian), (''p2'', sample_account 1 sample_reader),
     (''p3'', sample_account 2 sample_reader)],
     users = [(1, sample_user\<lparr>u_roles := {''patron'', ''pro_read_only''}\<rparr>), (2, sample_user\<lparr>u_roles := {''patron''}\<rparr>)],
     money = empty_ledger\<rparr>"

definition sample_cleanup :: cleanup_config where
  "sample_cleanup = \<lparr>expiration_years = 3, inactivity_years = 5, excluded_patron_types = [''child'']\<rparr>"

definition sample_expiration :: stamp where
  "sample_expiration = \<lparr>day = 737485, us = 43200000000\<rparr>"

definition sample_inactivity :: stamp where
  "sample_inactivity = \<lparr>day = 736754, us = 43200000000\<rparr>"

lemma sample_cutoffs:
  "add_years sample_noon (- 3) = Inr sample_expiration" "add_years sample_noon (- 5) = Inr sample_inactivity"
  by code_simp+

lemma sample_cleaned:
  "(case delete_inactive_patrons_for_org sample_environment sample_noon ''org'' sample_cleanup False sample_old of
     Inl er \<Rightarrow> False | Inr (counts, r) \<Rightarrow> counts = (1, 1) \<and> map fst (accounts r) = [''p1'', ''p3''])"
  by code_simp


section \<open>Where the invariants break\<close>

text \<open>A deletion that is refused has removed the roles of the user already: the patron \<open>p3\<close> with a loan stays,
  its user has lost the role of a patron.\<close>

lemma refused_deletion_strips_roles:
  "(case delete_account sample_environment ''p3'' sample_old of
      (r, Inl er) \<Rightarrow> er = NotDeleted \<and> is_account r ''p3''
        \<and> map_option u_roles (dict_get (users r) 2) = Some {}
    | (r, Inr x) \<Rightarrow> False)"
  by code_simp

text \<open>At midnight sharp a subscription that starts on this day is not valid yet, so that the nested call of the
  listener charges the patron again.\<close>

lemma midnight_charges_again:
  assumes "charge_subscription env now p (t, ty) a r = Inr (Some (c, r2))" "us now = 0"
    and "missing_subscription env now (ac_patron a) = Inr (Some (t, ty))"
  shows "missing_subscription env now (ac_patron (clean_account c)) = Inr (Some (t, ty))"
proof -
  from assms(3) obtain og where type: "p_type (ac_patron a) = Some t" "type_of env t = Some (ty, og)" "is_subscription_required ty"
    and no: "\<not> has_valid_subscription now (ac_patron a) (Some ty)"
    by (auto simp: missing_subscription_def split: option.splits if_splits)
  from charge_subscription_Inr [OF assms(1) type(3)] obtain ending q where
    c: "c = a\<lparr>ac_patron := (ac_patron a)\<lparr>subscriptions := subscriptions (ac_patron a)
        @ [\<lparr>sub_start = midnight now, sub_end = midnight ending, sub_type = t, sub_transaction = q\<rparr>]\<rparr>\<rparr>" by auto
  have "\<not> has_valid_subscription now (ac_patron (clean_account c)) (Some ty)"
    using no type(3) assms(2) by (simp add: has_valid_subscription_def c subscription_valid_def earlier_def midnight_def)
  then show ?thesis using type by (subst missing_subscription_None) (auto simp: c)
qed

text \<open>On its last day a subscription is neither valid nor found by the task that renews it.\<close>

lemma last_day_without_renewal:
  assumes "sub_end s = midnight now" "0 < us now" "subscriptions a = [s]"
  shows "\<not> subscription_valid now s"
    and "p \<notin> set (patrons_with_obsolete_subscription_pids now \<lparr>accounts = [(p, \<lparr>ac_user = n, ac_patron = a\<rparr>)], users = us', money = m\<rparr>)"
    and "get_patrons_without_subscription t \<lparr>accounts = [(p, \<lparr>ac_user = n, ac_patron = a\<rparr>)], users = us', money = m\<rparr> = []"
  using assms
  by (auto simp: subscription_valid_def earlier_def midnight_def patrons_with_obsolete_subscription_pids_def
      get_patrons_without_subscription_def)

section \<open>The properties\<close>

text \<open>
  C38. After an update (or the renewal by the nightly task, which is one) a patron whose type asks for a subscription
  has a valid one. If it had one before, nothing is charged; otherwise exactly one fee of the amount of the
  type is added to the ledger, open and due by this patron, and one subscription that refers to this fee
  and ends on the same date a year later. This holds at any time of the day but midnight sharp.
\<close>

theorem valid_subscription_after_update:
  assumes "update_account fuel env (\<lambda>k. now) p a r = Inr r'" and "1 \<le> day now" "0 < us now"
    and "p_type (ac_patron a) = Some t" "type_of env t = Some (ty, og)" "is_subscription_required ty"
  shows "\<exists>b. dict_get (accounts r') p = Some b \<and> has_valid_subscription now (ac_patron b) (Some ty)
     \<and> (if has_valid_subscription now (ac_patron a) (Some ty)
        then subscriptions (ac_patron b) = subscriptions (ac_patron a) \<and> money r' = money r
        else subscribed_once now p t ty a (money r) b (money r'))"
  by (rule subscription_kept_valid [OF assms])

theorem valid_subscription_after_update_witness:
  "\<exists>r b. update_account 2 sample_environment (\<lambda>k. sample_noon) ''p2'' (sample_account 1 sample_reader) sample_registry = Inr r
     \<and> dict_get (accounts r) ''p2'' = Some b \<and> has_valid_subscription sample_noon (ac_patron b) (Some sample_type)
     \<and> subscribed_once sample_noon ''p2'' ''adult'' sample_type (sample_account 1 sample_reader) empty_ledger b (money r)"
proof -
  obtain r where r: "update_account 2 sample_environment (\<lambda>k. sample_noon) ''p2'' (sample_account 1 sample_reader) sample_registry = Inr r"
    using sample_creation by blast
  have "1 \<le> day sample_noon" "0 < us sample_noon" "p_type (ac_patron (sample_account 1 sample_reader)) = Some ''adult''"
    "type_of sample_environment ''adult'' = Some (sample_type, ''org'')" "is_subscription_required sample_type"
    "\<not> has_valid_subscription sample_noon (ac_patron (sample_account 1 sample_reader)) (Some sample_type)"
    by code_simp+
  with valid_subscription_after_update [OF r, of "''adult''" sample_type "''org''"] r show ?thesis
    by (auto simp: sample_registry_def)
qed



text \<open>
  C40. The cleanup of an organisation deletes exactly the patrons that meet all its criteria: the account has expired
  long enough ago, is not blocked and not that of a professional, its type is not excluded, its user has not
  logged in since the cutoff, and no active loan, open fee, template, request or kept history refers to it.
  Every other record stays as it is and in its place, no transaction changes, and the two
  numbers it reports are those of the deleted and of the skipped patrons.
\<close>

theorem cleanup_deletes_exactly_inactive:
  assumes "delete_inactive_patrons_for_org env now og cfg False r = Inr ((deleted, skipped), r')"
    and "distinct (map fst (accounts r))"
    and "add_years now (- expiration_years cfg) = Inr ec" "add_years now (- inactivity_years cfg) = Inr ic"
  shows "accounts r' = filter (\<lambda>(p, a). \<not> (cleanup_hit env og ec (ac_patron a) \<and> inactive env cfg ic r p a)) (accounts r)
      \<and> deleted = length (filter (\<lambda>(p, a). cleanup_hit env og ec (ac_patron a) \<and> inactive env cfg ic r p a) (accounts r))
      \<and> deleted + skipped = length (filter (\<lambda>(p, a). cleanup_hit env og ec (ac_patron a)) (accounts r))
      \<and> money r' = money r"
proof -
  let ?hits = "filter (\<lambda>(p, a). cleanup_hit env og ec (ac_patron a)) (accounts r)"
  from assms have loop: "cleanup_loop env cfg ic False (map fst ?hits) (0, 0) r = Inr ((deleted, skipped), r')"
    by (simp add: delete_inactive_patrons_for_org_def)
  have "\<exists>a. dict_get (accounts r) p = Some a" if "p \<in> set (map fst ?hits)" for p
    using cleanup_keys(2) [OF assms(2) that] .
  note exact = cleanup_loop_exact [OF loop cleanup_keys(1) [OF assms(2)] this]
  have get: "the (dict_get (accounts r) p) = a" if "(p, a) \<in> set (accounts r)" for p a
    using that in_dict [OF assms(2)] by simp
  have hit: "p \<in> set (map fst ?hits) \<longleftrightarrow> cleanup_hit env og ec (ac_patron a)" if "(p, a) \<in> set (accounts r)" for p a
    using that assms(2) by (force simp: distinct_map inj_on_def)
  have accs: "accounts r' = filter (\<lambda>(p, a). \<not> (cleanup_hit env og ec (ac_patron a) \<and> inactive env cfg ic r p a)) (accounts r)"
  proof -
    have "accounts r' = filter (\<lambda>(p, a). \<not> (p \<in> set (map fst ?hits) \<and> inactive env cfg ic r p (the (dict_get (accounts r) p)))) (accounts r)"
      using exact by blast
    also have "\<dots> = filter (\<lambda>(p, a). \<not> (cleanup_hit env og ec (ac_patron a) \<and> inactive env cfg ic r p a)) (accounts r)"
      using get hit by (intro filter_cong refl) (auto simp del: set_map)
    finally show ?thesis .
  qed
  have "deleted = length (filter (\<lambda>p. inactive env cfg ic r p (the (dict_get (accounts r) p))) (map fst ?hits))"
    using exact by simp
  also have "\<dots> = length (filter (\<lambda>(p, a). inactive env cfg ic r p a) ?hits)"
    unfolding filter_map length_map using get by (intro arg_cong [of _ _ length] filter_cong) auto
  finally have del: "deleted = length (filter (\<lambda>(p, a). cleanup_hit env og ec (ac_patron a) \<and> inactive env cfg ic r p a) (accounts r))"
    unfolding filter_filter by (auto intro!: arg_cong [of _ _ length] filter_cong)
  have "deleted + skipped = length ?hits \<and> money r' = money r" using exact by simp
  with accs del show ?thesis by blast
qed

theorem cleanup_deletes_exactly_inactive_witness:
  "\<exists>r'. delete_inactive_patrons_for_org sample_environment sample_noon ''org'' sample_cleanup False sample_old = Inr ((1, 1), r')
     \<and> money r' = money sample_old
     \<and> length (filter (\<lambda>(p, a). cleanup_hit sample_environment ''org'' sample_expiration (ac_patron a)
          \<and> inactive sample_environment sample_cleanup sample_inactivity sample_old p a) (accounts sample_old)) = 1"
proof -
  obtain r' where r': "delete_inactive_patrons_for_org sample_environment sample_noon ''org'' sample_cleanup False sample_old = Inr ((1, 1), r')"
    using sample_cleaned by (auto split: sum.splits)
  have d: "distinct (map fst (accounts sample_old))" by code_simp
  have c: "add_years sample_noon (- expiration_years sample_cleanup) = Inr sample_expiration"
    "add_years sample_noon (- inactivity_years sample_cleanup) = Inr sample_inactivity"
    using sample_cutoffs by (simp_all add: sample_cleanup_def)
  from cleanup_deletes_exactly_inactive [OF r' d c] r' show ?thesis by auto
qed

end
