(* ===== verification/Spec2Isabelle.thy ===== *)
theory Spec2Isabelle
  imports CqlProperties ItemProperties HoldingProperties AcqProperties TransactionProperties
    PermissionProperties NotificationProperties RegistryProperties
begin

text \<open>
  A verification development for RERO ILS, the integrated library system under \<open>src/rero_ils\<close>.

  \<^bold>\<open>The program.\<close> RERO ILS keeps the records of a network of libraries (organisations, libraries,
  locations, items, holdings, loans, patrons, acquisition accounts, orders, receipts, fees) as JSON documents
  behind Python classes, each with a search index beside the database. The parts that decide something, and that
  are modelled here, are:

  \<^item> \<^emph>\<open>Search\<close> (\<open>modules/sru\<close>): a query of the SRU protocol, written in CQL, is cut into tokens, parsed
    into a tree, and turned into a search string and sort keys.
  \<^item> \<^emph>\<open>Circulation\<close> (\<open>modules/circ_policies\<close>, \<open>libraries\<close>, \<open>loans\<close>, \<open>patron_types\<close>, \<open>patrons\<close>,
    \<open>items\<close>): a circulation policy is looked up for a patron type, an item type and a library; the calendar of the
    library turns its durations into due dates; the limits of the patron type and the state of the patron decide
    whether an action is allowed; the handlers of an item move its loans.
  \<^item> \<^emph>\<open>Serials\<close> (\<open>modules/holdings\<close>, \<open>items\<close>): a holding predicts the numbering and the dates of its issues, and
    an issue that is received becomes an item.
  \<^item> \<^emph>\<open>Acquisition\<close> (\<open>modules/acquisition\<close>): accounts form a tree that shares out a budget, orders encumber
    the accounts, receipts spend them, and a rollover takes all of it over into the budget of the next year.
  \<^item> \<^emph>\<open>Fees\<close> (\<open>modules/patron_transactions\<close>, \<open>patron_transaction_events\<close>): overdue loans, notifications and
    subscriptions make the patron owe money; payments, disputes and cancellations are events of that debt.
  \<^item> \<^emph>\<open>Notifications\<close> (\<open>modules/notifications\<close>): recalls, reminders, availability notices and orders become
    messages, which are created for loans, grouped, sent, cancelled and charged for.
  \<^item> \<^emph>\<open>Permissions\<close> (\<open>modules/permissions.py\<close>, \<open>modules/*/permissions.py\<close>): the needs that a user provides,
    the needs that an operation on a record asks for, and the roles a user may give or take.

  \<^bold>\<open>How the code appears.\<close> A record of the program is a HOL record of the fields that the component reads and
  writes, an optional key is an \<open>option\<close>, and a reference to another record is the pid it resolves to. Where the
  code passes documents through unchanged (items created from templates) the document stays JSON (\<open>Issues\<close>).
  A method that raises returns \<open>'e + 'a\<close>, with \<open>Inl\<close> the exception; a handler that writes before it raises returns
  the state and the result, so that what it leaves behind is part of the model. The database and the search
  index are two separate maps where the difference matters (accounts), and one where the code reads its own
  writes. Python's integers are \<open>int\<close>; its floats are IEEE doubles with their rounding (\<open>Floats\<close>) where the code
  multiplies and truncates them, and whole cents elsewhere.

  \<^bold>\<open>The theories\<close>, each with the files it models:

  \<^item> \<open>Base\<close> and \<open>Records\<close> are the preludes: results that can raise, Python's dictionaries as association
    lists in insertion order, string functions, the exceptions of the record classes, numbers that may be infinite,
    verdicts with their reasons.
  \<^item> \<open>CqlLexer\<close>, \<open>CqlParser\<close>, \<open>CqlSearch\<close>: classes \<open>CQLshlex\<close>, \<open>CQLParser\<close>, and the classes of the query
    tree in \<open>modules/sru/cql_parser.py\<close>. \<open>CqlRoundtrip\<close> relates the parser to a printer, \<open>CqlProperties\<close> has the
    properties.
  \<^item> \<open>CircPolicy\<close> (\<open>circ_policies/api.py\<close>, \<open>extensions.py\<close>), \<open>Calendar\<close> (\<open>libraries/api.py\<close>, \<open>tasks.py\<close>),
    \<open>Loans\<close> (\<open>loans/api.py\<close>, \<open>utils.py\<close>, \<open>extensions.py\<close>, \<open>tasks.py\<close>), \<open>Patrons\<close> (\<open>patron_types/api.py\<close>,
    \<open>patrons/api.py\<close>, \<open>locations/api.py\<close>).
  \<^item> \<open>ItemCirculation\<close> (\<open>items/api/circulation.py\<close>, \<open>items/decorators.py\<close> and the transitions of
    \<open>config.py\<close>), \<open>ItemLifecycle\<close> with the guarantees of every handler, \<open>ItemProperties\<close>.
  \<^item> \<open>Holdings\<close> and \<open>Issues\<close> (\<open>holdings/api.py\<close>, \<open>items/api/record.py\<close>, \<open>items/api/issue.py\<close>,
    \<open>items/extensions.py\<close>), \<open>HoldingProperties\<close>.
  \<^item> \<open>AcqAccounts\<close>, \<open>AcqOrders\<close>, \<open>AcqReceipts\<close>, \<open>AcqRollover\<close> (the directories \<open>acq_accounts\<close>,
    \<open>acq_orders\<close>, \<open>acq_order_lines\<close>, \<open>acq_receipts\<close>, \<open>acq_receipt_lines\<close>, \<open>budgets\<close> and \<open>rollover.py\<close> of
    \<open>modules/acquisition\<close>). \<open>AcqTransfer\<close> and \<open>AcqFunds\<close> analyse the loops of a transfer, \<open>AcqRollback\<close> the
    abortion of a rollover, \<open>AcqProperties\<close> has the properties.
  \<^item> \<open>Floats\<close> and \<open>Transactions\<close> (\<open>patron_transactions/api.py\<close>, \<open>extensions.py\<close>, \<open>utils.py\<close>,
    \<open>patron_transaction_events/api.py\<close>), \<open>TransactionProperties\<close>.
  \<^item> \<open>Notifications\<close> (\<open>notifications/api.py\<close>, \<open>subclasses/\<close>, \<open>utils.py\<close>) and \<open>Dispatch\<close>
    (\<open>notifications/dispatcher.py\<close>, \<open>tasks.py\<close>, \<open>Loan.create_notification\<close>), \<open>DispatchLemmas\<close> with the effect
    of the two loops of the dispatcher, \<open>NotificationProperties\<close>.
  \<^item> \<open>Dates\<close> (\<open>add_years\<close> of \<open>modules/utils.py\<close>) and \<open>Registry\<close> (\<open>patrons/api.py\<close>, \<open>listener.py\<close>,
    \<open>tasks.py\<close>): the records of patrons with the users they belong to, subscriptions, cleanup;
    \<open>RegistryProperties\<close>.
  \<^item> \<open>Permissions\<close> (\<open>permissions.py\<close>, \<open>ext.py\<close>, the generators of \<open>*/permissions.py\<close>), \<open>Policies\<close> (one
    function per policy class), \<open>PermissionProperties\<close>.

  \<^bold>\<open>What is shown.\<close>

  \<^item> \<^emph>\<open>Search\<close>: parsing ends on every string, with a tree or a diagnostic; a printed tree parses back to
    itself; a search string exists exactly for supported trees.
  \<^item> \<^emph>\<open>Policies and calendar\<close>: the chosen policy is the most specific one; a validated policy charges no day
    twice; \<open>next_open\<close> finds the first open day and says exactly when there is none; due dates fall on open days and
    overdue fees are the capped sum of the daily rates.
  \<^item> \<^emph>\<open>Items\<close>: whatever a handler returns or raises, loans follow their life cycle, returned loans stay
    returned, at most one loan is active, and after a successful action the status of the item is that of its
    active loan.
  \<^item> \<^emph>\<open>Serials\<close>: the numbering of a pattern refines a counter, valid patterns can be displayed, the issues that
    are received are those of the preview.
  \<^item> \<^emph>\<open>Acquisition\<close>: a transfer moves its amount and nothing else and completes when it may; never more is
    received than was ordered; the status of an order is the documented one; an aborted rollover restores what was.
  \<^item> \<^emph>\<open>Fees\<close>: open transactions are debts in every reachable ledger, their totals follow the events to within two
    cents an event, the shown total can always be paid.
  \<^item> \<^emph>\<open>Notifications\<close>: a dispatch accounts for every notification, sends each at most once and never again, and
    a mail reaches the patron of each of its notifications; no loan gets more reminders than its policy has.
  \<^item> \<^emph>\<open>Registry\<close>: an update leaves a patron with a valid subscription, charged at most once; the roles of users
    are those of their records; the cleanup deletes exactly the patrons that meet its criteria.
  \<^item> \<^emph>\<open>Permissions\<close>: organisations are isolated, records of a library belong to its staff, patrons read their own
    records.

  \<^bold>\<open>Interfaces.\<close> Four locales state what a client relies on. \<open>day_search\<close> (\<open>Calendar\<close>): a function that goes
  to the next open day; the due dates of loans rest on its interpretation on the calendar of a library. \<open>counter\<close>
  (\<open>Holdings\<close>): a step, the number it counts and its capacity; interpreted on the levels of a pattern and on the
  whole pattern. \<open>guarantee\<close> and \<open>item_guarantee\<close> (\<open>ItemLifecycle\<close>): a reflexive and transitive relation between
  the state before and after a handler, and the rules that carry it through the monad of the handlers; interpreted on
  the life cycle of loans and on the number of active loans.

  \<^bold>\<open>Fuel and bounds.\<close> The loops of the lexer and of the parser read what is left of the input, those of the
  calendar stop at the last date that Python can represent: they are functions with a termination proof. The two
  mutually recursive methods of the parser carry fuel, \<open>query_fuel\<close>, which is always enough (\<open>CqlParser\<close>). The
  walk along the parents of an account may not end in the code when the stored parents form a cycle, and ends in
  a \<open>RecursionError\<close>; its fuel is the number of accounts plus one, enough for every account with a root above it
  (\<open>AcqTransfer\<close>). The listener on updates of a patron updates it again; two nested calls are enough
  (\<open>RegistryProperties\<close>, lemma \<open>two_calls\<close>). The tree of accounts is built with the number of accounts as fuel. Amounts of fees are bounded
  by \<open>max_cents\<close>, two to the power of 50, below which doubles tell any two amounts of cents apart. Where a theorem on
  acquisition needs the search index to be in step with the database it says so as a hypothesis.

  \<^bold>\<open>What comes from elsewhere.\<close> The transition engine of invenio-circulation, the decision of invenio-access over
  needs, the time zone data, the recurrences of dateutil, the Jinja templates, the digests of hashlib and the schema validation are
  arguments of the definitions that use them, with their documented behaviour as named hypotheses where a theorem
  needs it. Queries that only filter the search index are replaced by the list of records they read.

  \<^bold>\<open>Not modelled.\<close> The conversion of bibliographic formats (\<open>src/rero_ils/dojson\<close>,
  \<open>modules/documents/dojson\<close>) is tables of rules run by the dojson library; documents, entities, statistics,
  harvesters and imports are presentation, aggregations of the search engine and clients of other services;
  \<open>modules/api.py\<close>, indexers and query builders call invenio, SQLAlchemy and Elasticsearch; the command line, the
  views, the serializers and the self-check handlers are input and output around operations that are modelled;
  \<open>config.py\<close> declares routes, facets and settings.
\<close>

end
